(* ===== verification/Prelude.thy ===== *)
theory Prelude
  imports Main "HOL-Library.Word" "HOL-Library.Monad_Syntax"
begin

text \<open>
  What every component of the development shares: the machine types of the C++ sources, the
  memory accesses whose failure has no defined result, and the lemmas about lists, options and
  words the component theories rest on.

  A C++ execution that calls \<^verbatim>\<open>std::terminate\<close> (a failed \<^verbatim>\<open>Expects\<close>, an
  out-of-range \<^verbatim>\<open>gsl::span::operator[]\<close>) or that has undefined behaviour (a
  \<^verbatim>\<open>memcpy\<close> or a \<^verbatim>\<open>std::vector::operator[]\<close> outside its object) is the value
  \<open>None\<close> of type \<open>'a run\<close>; \<open>Some x\<close> is an execution that returns \<open>x\<close>. Errors
  that the code reports (an error code, an exception) are values, never \<open>None\<close>.
\<close>

unbundle bit_operations_syntax

subsection \<open>Machine types\<close>

type_synonym byte = "8 word"
type_synonym bytes = "8 word list"
type_synonym u16 = "16 word"
type_synonym u32 = "32 word"
type_synonym u64 = "64 word"

type_synonym 'a run = "'a option"

named_theorems mem_simps \<open>reads and writes of memory that stay in range\<close>
named_theorems wire_defs \<open>definitions of the byte-level encoders and decoders\<close>
named_theorems bits_dest \<open>bounds on the positions of set bits\<close>

subsection \<open>Memory accesses\<close>

text \<open>Reading one element through a checked or unchecked subscript.\<close>

definition span_at :: "'a list \<Rightarrow> nat \<Rightarrow> 'a run" where
  "span_at xs i = (if i < length xs then Some (xs ! i) else None)"

text \<open>\<^verbatim>\<open>memcpy(dst, xs.data() + off, n)\<close>: the \<open>n\<close> elements from offset \<open>off\<close>.\<close>

definition mem_read :: "'a list \<Rightarrow> nat \<Rightarrow> nat \<Rightarrow> 'a list run" where
  "mem_read xs off n = (if off + n \<le> length xs then Some (take n (drop off xs)) else None)"

text \<open>\<^verbatim>\<open>memcpy(xs.data() + off, src, n)\<close>: overwriting in place.\<close>

definition mem_write :: "'a list \<Rightarrow> nat \<Rightarrow> 'a list \<Rightarrow> 'a list run" where
  "mem_write xs off ys =
     (if off + length ys \<le> length xs
      then Some (take off xs @ ys @ drop (off + length ys) xs) else None)"

text \<open>\<^verbatim>\<open>std::vector<std::byte>::resize\<close>: truncate or pad with zero bytes.\<close>

definition vec_resize :: "nat \<Rightarrow> bytes \<Rightarrow> bytes" where
  "vec_resize n xs = take n xs @ replicate (n - length xs) 0"

text \<open>
  Fallible code: \<open>Inl\<close> is an error the code returns, which ends the caller's sequence of
  statements as the source's early returns do.
\<close>

definition and_then ::
  "('e + 'a) run \<Rightarrow> ('a \<Rightarrow> ('e + 'b) run) \<Rightarrow> ('e + 'b) run" where
  "and_then m f =
     (case m of None \<Rightarrow> None | Some (Inl e) \<Rightarrow> Some (Inl e) | Some (Inr x) \<Rightarrow> f x)"

definition returns :: "'a run \<Rightarrow> ('e + 'a) run" where
  "returns m = map_option Inr m"

definition fails :: "'e \<Rightarrow> ('e + 'a) run" where
  "fails e = Some (Inl e)"

lemma and_then_simps [simp]:
  "and_then None f = None"
  "and_then (Some (Inl e)) f = Some (Inl e)"
  "and_then (Some (Inr x)) f = f x"
  by (simp_all add: and_then_def)

lemma and_then_fails [simp]: "and_then (fails e) f = Some (Inl e)"
  by (simp add: fails_def)

lemma and_then_returns: "and_then (returns m) f = m \<bind> f"
  by (cases m) (simp_all add: returns_def)

lemma returns_Some [simp]: "returns (Some x) = Some (Inr x)"
  by (simp add: returns_def)

lemma returns_None [simp]: "returns None = None"
  by (simp add: returns_def)

lemma and_then_assoc: "and_then (and_then m f) g = and_then m (\<lambda>x. and_then (f x) g)"
  by (simp add: and_then_def split: option.splits sum.splits)

lemma and_then_Inr: "and_then m (\<lambda>x. Some (Inr x)) = m"
  by (simp add: and_then_def split: option.splits sum.splits)

lemma span_at_eq_Some [mem_simps]: "i < length xs \<Longrightarrow> span_at xs i = Some (xs ! i)"
  by (simp add: span_at_def)

lemma span_at_eq_None_iff: "span_at xs i = None \<longleftrightarrow> length xs \<le> i"
  by (auto simp: span_at_def)

lemma span_at_SomeD: "span_at xs i = Some x \<Longrightarrow> i < length xs \<and> x = xs ! i"
  by (auto simp: span_at_def split: if_splits)

lemma span_at_shift [simp]: "span_at (xs @ ys) (length xs + i) = span_at ys i"
  by (simp add: span_at_def)

lemma span_at_append_left: "i < length xs \<Longrightarrow> span_at (xs @ ys) i = span_at xs i"
  by (simp add: span_at_def nth_append)

lemma span_at_Cons_0 [simp]: "span_at (x # xs) 0 = Some x"
  by (simp add: span_at_def)

lemma span_at_Cons_Suc [simp]: "span_at (x # xs) (Suc i) = span_at xs i"
  by (simp add: span_at_def)

lemma span_at_Cons_numeral [simp]: "span_at (x # xs) (numeral n) = span_at xs (pred_numeral n)"
  by (simp add: numeral_eq_Suc)

lemma span_at_Nil [simp]: "span_at [] i = None"
  by (simp add: span_at_def)

lemma mem_read_0 [simp]: "mem_read xs off 0 = (if off \<le> length xs then Some [] else None)"
  by (simp add: mem_read_def)

lemma mem_read_all [simp]: "mem_read xs 0 (length xs) = Some xs"
  by (simp add: mem_read_def)

lemma mem_read_shift [simp]: "mem_read (xs @ ys) (length xs + i) n = mem_read ys i n"
  by (simp add: mem_read_def)

lemma mem_read_prefix: "mem_read (xs @ ys) 0 (length xs) = Some xs"
  by (simp add: mem_read_def)

lemma mem_read_middle: "mem_read (xs @ ys @ zs) (length xs) (length ys) = Some ys"
  using mem_read_shift [of xs "ys @ zs" 0 "length ys"] by (simp add: mem_read_prefix)

lemma mem_read_length: "mem_read xs off n = Some ys \<Longrightarrow> length ys = n"
  by (auto simp: mem_read_def split: if_splits)

lemma mem_write_length: "mem_write xs off ys = Some zs \<Longrightarrow> length zs = length xs"
  by (auto simp: mem_write_def split: if_splits)

lemma mem_write_take:
  "mem_write xs off ys = Some zs \<Longrightarrow> take (off + length ys) zs = take off xs @ ys"
  by (auto simp: mem_write_def split: if_splits)

lemma vec_resize_length [simp]: "length (vec_resize n xs) = n"
  by (simp add: vec_resize_def)

lemma vec_resize_id [simp]: "vec_resize (length xs) xs = xs"
  by (simp add: vec_resize_def)

subsection \<open>Words as bytes\<close>

text \<open>
  An unaligned load through \<^verbatim>\<open>memcpy\<close> into an integer reads the least significant byte
  first: the code swaps bytes unconditionally, so it assumes a little-endian host, and so does
  the model.
\<close>

definition load_le16 :: "bytes \<Rightarrow> nat \<Rightarrow> u16 run" where
  "load_le16 b off = do {
     w \<leftarrow> mem_read b off 2;
     Some (ucast (w ! 0) OR push_bit 8 (ucast (w ! 1))) }"

definition load_le32 :: "bytes \<Rightarrow> nat \<Rightarrow> u32 run" where
  "load_le32 b off = do {
     w \<leftarrow> mem_read b off 4;
     Some (ucast (w ! 0) OR push_bit 8 (ucast (w ! 1)) OR
           push_bit 16 (ucast (w ! 2)) OR push_bit 24 (ucast (w ! 3))) }"

definition load_le64 :: "bytes \<Rightarrow> nat \<Rightarrow> u64 run" where
  "load_le64 b off = do {
     w \<leftarrow> mem_read b off 8;
     Some (ucast (w ! 0) OR push_bit 8 (ucast (w ! 1)) OR
           push_bit 16 (ucast (w ! 2)) OR push_bit 24 (ucast (w ! 3)) OR
           push_bit 32 (ucast (w ! 4)) OR push_bit 40 (ucast (w ! 5)) OR
           push_bit 48 (ucast (w ! 6)) OR push_bit 56 (ucast (w ! 7))) }"

text \<open>The bytes an integer occupies in memory on such a host.\<close>

definition store_le16 :: "u16 \<Rightarrow> bytes" where
  "store_le16 v = [ucast v, ucast (drop_bit 8 v)]"

definition store_le32 :: "u32 \<Rightarrow> bytes" where
  "store_le32 v = [ucast v, ucast (drop_bit 8 v), ucast (drop_bit 16 v), ucast (drop_bit 24 v)]"

definition store_le64 :: "u64 \<Rightarrow> bytes" where
  "store_le64 v = [ucast v, ucast (drop_bit 8 v), ucast (drop_bit 16 v), ucast (drop_bit 24 v),
     ucast (drop_bit 32 v), ucast (drop_bit 40 v), ucast (drop_bit 48 v), ucast (drop_bit 56 v)]"

lemma take_bit_step:
  fixes v :: "'a::len word"
  shows "take_bit n v OR push_bit n (take_bit m (drop_bit n v)) = take_bit (n + m) v"
  by (rule bit_word_eqI) (auto simp: bit_simps not_less)

lemma ucast_byte_take_bit:
  fixes v :: "'a::len word"
  assumes "8 \<le> LENGTH('a)"
  shows "ucast (ucast v :: byte) = take_bit 8 v"
  by (rule bit_word_eqI) (use assms in \<open>auto simp: bit_simps\<close>)

lemma byte_bit_bound [bits_dest]: "bit (b :: byte) n \<Longrightarrow> n < 8"
  by (drule bit_imp_le_length) simp

lemma byte_of_shifted:
  fixes b :: byte
  assumes "8 dvd j" and "8 dvd k" and "j + 8 \<le> LENGTH('a::len)"
  shows "(ucast (drop_bit k (push_bit j (ucast b :: 'a word))) :: byte) = (if j = k then b else 0)"
proof (rule bit_word_eqI)
  fix n assume n: "n < LENGTH(8)"
  obtain p q where pq: "j = 8 * p" "k = 8 * q" using assms by (auto elim!: dvdE)
  consider "p = q" | "p < q" | "q < p" by linarith
  then show "bit (ucast (drop_bit k (push_bit j (ucast b :: 'a word))) :: byte) n
      = bit (if j = k then b else 0) n"
    by cases (use n assms pq in \<open>auto simp: bit_simps dest!: byte_bit_bound\<close>)
qed

lemma ucast_byte_back:
  fixes b :: byte
  assumes "8 \<le> LENGTH('a::len)"
  shows "ucast (ucast b :: 'a word) = b"
  by (rule bit_word_eqI) (use assms in \<open>auto simp: bit_simps\<close>)

lemmas byte_of_shifts = ucast_byte_back
  byte_of_shifted byte_of_shifted [of 0, simplified] byte_of_shifted [of _ 0, simplified]
  drop_bit_or unsigned_or_eq

lemma unat_byte_less [simp]: "unat (b :: byte) < 256"
  using unsigned_less [of b, where 'a = nat] by simp

lemma unat_byte_le [simp]: "unat (b :: byte) \<le> 255"
  using unat_byte_less [of b] by linarith

lemma unat_of_nat_byte [simp]: "n < 256 \<Longrightarrow> unat (of_nat n :: byte) = n"
  by (simp add: unat_of_nat take_bit_nat_eq_self)

lemma unat_u16_less [simp]: "unat (w :: u16) < 65536"
  using unsigned_less [of w, where 'a = nat] by simp

lemma unat_of_nat_u16 [simp]: "n < 65536 \<Longrightarrow> unat (of_nat n :: u16) = n"
  by (simp add: unat_of_nat take_bit_nat_eq_self)

lemma unat_u32_less [simp]: "unat (w :: u32) < 4294967296"
  using unsigned_less [of w, where 'a = nat] by simp

lemma unat_of_nat_u32 [simp]: "n < 4294967296 \<Longrightarrow> unat (of_nat n :: u32) = n"
  by (simp add: unat_of_nat take_bit_nat_eq_self)

subsection \<open>Lists of a known length\<close>

lemma length_2_conv: "length xs = 2 \<longleftrightarrow> (\<exists>a b. xs = [a, b])"
  by (auto simp: numeral_2_eq_2 length_Suc_conv)

lemma length_4_conv: "length xs = 4 \<longleftrightarrow> (\<exists>a b c d. xs = [a, b, c, d])"
  by (auto simp: eval_nat_numeral length_Suc_conv)

lemma length_8_conv:
  "length xs = 8 \<longleftrightarrow> (\<exists>a b c d e f g h. xs = [a, b, c, d, e, f, g, h])"
  by (auto simp: eval_nat_numeral length_Suc_conv)

lemma take_drop_Suc: "off < length xs \<Longrightarrow> take (Suc n) (drop off xs) = xs ! off # take n (drop (Suc off) xs)"
  by (metis Cons_nth_drop_Suc take_Suc_Cons)

subsection \<open>Characters\<close>

text \<open>A \<^verbatim>\<open>char\<close> read as \<^verbatim>\<open>unsigned char\<close>, and the ASCII classes of the C locale.\<close>

definition uchar :: "char \<Rightarrow> nat" where
  "uchar c = of_char c"

definition char_digit :: "char \<Rightarrow> bool" where
  "char_digit c \<longleftrightarrow> 48 \<le> uchar c \<and> uchar c \<le> 57"

definition char_upper :: "char \<Rightarrow> bool" where
  "char_upper c \<longleftrightarrow> 65 \<le> uchar c \<and> uchar c \<le> 90"

definition char_lower :: "char \<Rightarrow> bool" where
  "char_lower c \<longleftrightarrow> 97 \<le> uchar c \<and> uchar c \<le> 122"

definition char_alpha :: "char \<Rightarrow> bool" where
  "char_alpha c \<longleftrightarrow> char_upper c \<or> char_lower c"

definition char_alnum :: "char \<Rightarrow> bool" where
  "char_alnum c \<longleftrightarrow> char_alpha c \<or> char_digit c"

definition char_xdigit :: "char \<Rightarrow> bool" where
  "char_xdigit c \<longleftrightarrow>
     char_digit c \<or> (65 \<le> uchar c \<and> uchar c \<le> 70) \<or> (97 \<le> uchar c \<and> uchar c \<le> 102)"

definition char_space :: "char \<Rightarrow> bool" where
  "char_space c \<longleftrightarrow> uchar c = 32 \<or> (9 \<le> uchar c \<and> uchar c \<le> 13)"

lemma uchar_less [simp]: "uchar c < 256"
  by (simp add: uchar_def)

lemma uchar_inj: "uchar c = uchar d \<Longrightarrow> c = d"
  by (simp add: uchar_def)

lemma char_of_uchar [simp]: "char_of (uchar c) = c"
  by (simp add: uchar_def)

lemma uchar_char_of [simp]: "n < 256 \<Longrightarrow> uchar (char_of n) = n"
  by (simp add: uchar_def)

text \<open>Counting the elements of a list with a property, when one of them changes.\<close>

lemma count_update:
  "i < length xs \<Longrightarrow> length (filter P (xs[i := x])) + (if P (xs ! i) then 1 else 0)
     = length (filter P xs) + (if P x then 1 else 0)"
proof (induction xs arbitrary: i)
  case (Cons a xs)
  then show ?case by (cases i) auto
qed simp

lemma count_pos: "i < length xs \<Longrightarrow> P (xs ! i) \<Longrightarrow> 0 < length (filter P xs)"
  by (induction xs arbitrary: i) (auto simp: nth_Cons split: nat.splits)

end
