(* ===== verification/Wire.thy ===== *)
theory Wire
  imports Prelude
begin

text \<open>
  The two interfaces the byte-level components share. A \<open>wire_field\<close> is an integer field of
  a fixed width at an offset of a message; its laws are what a reader of a header relies on. A
  \<open>prefix_codec\<close> is a self-delimiting encoding, whose decoder returns the value and the bytes
  that follow it; its laws make sequences of encoded values decodable.
\<close>

locale wire_field =
  fixes put :: "'a \<Rightarrow> bytes"
    and get :: "bytes \<Rightarrow> nat \<Rightarrow> 'a run"
    and width :: nat
  assumes put_length: "length (put v) = width"
    and get_put: "get (put v) 0 = Some v"
    and get_window: "off + width \<le> length b \<Longrightarrow> get b off = get (take width (drop off b)) 0"
    and get_short: "length b < off + width \<Longrightarrow> get b off = None"
    and put_get: "length w = width \<Longrightarrow> \<exists>v. get w 0 = Some v \<and> put v = w"
begin

lemma field_at: "get (xs @ put v @ ys) (length xs) = Some v"
  using get_window [of "length xs" "xs @ put v @ ys"]
  by (simp add: put_length get_put)

lemma field_at_offset: "off = length xs \<Longrightarrow> get (xs @ put v @ ys) off = Some v"
  by (simp add: field_at)

lemma field_skip: "get (xs @ ys) (length xs + i) = get ys i"
proof (cases "i + width \<le> length ys")
  case True
  then show ?thesis
    using get_window [of "length xs + i" "xs @ ys"] get_window [of i ys] by simp
next
  case False
  then show ?thesis
    using get_short [of "xs @ ys" "length xs + i"] get_short [of ys i] by simp
qed

lemma field_prefix: "off + width \<le> length xs \<Longrightarrow> get (xs @ ys) off = get xs off"
  using get_window [of off "xs @ ys"] get_window [of off xs] by simp

lemma field_defined_iff: "(\<exists>v. get b off = Some v) \<longleftrightarrow> off + width \<le> length b"
proof
  assume "\<exists>v. get b off = Some v"
  then show "off + width \<le> length b"
    using get_short [of b off] by fastforce
next
  assume in_range: "off + width \<le> length b"
  then have "length (take width (drop off b)) = width" by simp
  from put_get [OF this] in_range show "\<exists>v. get b off = Some v"
    using get_window [OF in_range] by auto
qed

lemma field_written: "get b off = Some v \<Longrightarrow> put v = take width (drop off b)"
proof -
  assume got: "get b off = Some v"
  then have in_range: "off + width \<le> length b"
    using field_defined_iff by blast
  then have "length (take width (drop off b)) = width" by simp
  from put_get [OF this] obtain v' where
    "get (take width (drop off b)) 0 = Some v'" and "put v' = take width (drop off b)"
    by blast
  with got get_window [OF in_range] show ?thesis by simp
qed

lemma field_inj: "put v = put v' \<Longrightarrow> v = v'"
  by (metis get_put option.inject)

end

locale prefix_codec =
  fixes enc :: "'a \<Rightarrow> bytes"
    and dec :: "bytes \<Rightarrow> ('a \<times> bytes) option"
    and valid :: "'a \<Rightarrow> bool"
  assumes dec_enc: "valid x \<Longrightarrow> dec (enc x @ rest) = Some (x, rest)"
    and enc_nonempty: "valid x \<Longrightarrow> enc x \<noteq> []"
begin

lemma prefix_free:
  assumes "valid x" and "valid y" and "enc x @ xs = enc y @ ys"
  shows "x = y \<and> xs = ys"
proof -
  have "Some (x, xs) = dec (enc x @ xs)" by (simp add: dec_enc assms(1))
  also have "\<dots> = Some (y, ys)" by (simp only: assms(3) dec_enc [OF assms(2)])
  finally show ?thesis by simp
qed

primrec dec_seq :: "nat \<Rightarrow> bytes \<Rightarrow> ('a list \<times> bytes) option" where
  "dec_seq 0 b = Some ([], b)"
| "dec_seq (Suc n) b = do {
     (x, b') \<leftarrow> dec b;
     (xs, b'') \<leftarrow> dec_seq n b';
     Some (x # xs, b'') }"

lemma dec_seq_enc:
  "\<forall>x \<in> set xs. valid x \<Longrightarrow> dec_seq (length xs) (concat (map enc xs) @ rest) = Some (xs, rest)"
  by (induction xs) (simp_all add: dec_enc)

lemma enc_seq_inj:
  assumes "\<forall>x \<in> set xs. valid x" and "\<forall>y \<in> set ys. valid y"
    and "concat (map enc xs) = concat (map enc ys)"
  shows "xs = ys"
  using assms
proof (induction xs arbitrary: ys)
  case Nil
  then show ?case using enc_nonempty by (cases ys) auto
next
  case (Cons x xs)
  show ?case
  proof (cases ys)
    case Nil
    with Cons.prems(3) have "enc x = []" by simp
    moreover from Cons.prems(1) have "valid x" by simp
    ultimately show ?thesis using enc_nonempty by blast
  next
    case (Cons y ys')
    from Cons.prems(1) have valid_xs: "valid x" "\<forall>x \<in> set xs. valid x"
      by auto
    from Cons.prems(2) have valid_ys: "valid y" "\<forall>y \<in> set ys'. valid y"
      unfolding Cons by auto
    from Cons.prems(3) have "enc x @ concat (map enc xs) = enc y @ concat (map enc ys')"
      unfolding Cons list.map concat.simps .
    note split = prefix_free [OF valid_xs(1) valid_ys(1) this]
    with Cons.IH [OF valid_xs(2) valid_ys(2)] show ?thesis
      unfolding Cons by blast
  qed
qed

end

end
