(* ===== verification/Big_Endian.thy ===== *)
theory Big_Endian
  imports Wire
begin

text \<open>
  Network byte order: the readers and writers of \<^verbatim>\<open>core/mcbp/big_endian.cxx\<close>, the
  sequential \<^verbatim>\<open>buffer_writer\<close> of \<^verbatim>\<open>core/mcbp/buffer_writer.cxx\<close> and the
  \<^verbatim>\<open>byte_swap\<close> functions of \<^verbatim>\<open>core/utils/byteswap.hxx\<close>. The field readers
  interpret the interface \<open>wire_field\<close>, and the swap-after-load idiom that the rest of the
  client uses is shown equal to them.
\<close>

subsection \<open>Readers and writers\<close>

definition read_uint64 :: "bytes \<Rightarrow> nat \<Rightarrow> u64 run" where
  "read_uint64 buffer offset = do {
     b7 \<leftarrow> span_at buffer (offset + 7);
     b6 \<leftarrow> span_at buffer (offset + 6);
     b5 \<leftarrow> span_at buffer (offset + 5);
     b4 \<leftarrow> span_at buffer (offset + 4);
     b3 \<leftarrow> span_at buffer (offset + 3);
     b2 \<leftarrow> span_at buffer (offset + 2);
     b1 \<leftarrow> span_at buffer (offset + 1);
     b0 \<leftarrow> span_at buffer offset;
     Some (ucast b7 OR push_bit 8 (ucast b6) OR push_bit 16 (ucast b5) OR
           push_bit 24 (ucast b4) OR push_bit 32 (ucast b3) OR push_bit 40 (ucast b2) OR
           push_bit 48 (ucast b1) OR push_bit 56 (ucast b0)) }"

definition read_uint32 :: "bytes \<Rightarrow> nat \<Rightarrow> u32 run" where
  "read_uint32 buffer offset = do {
     b3 \<leftarrow> span_at buffer (offset + 3);
     b2 \<leftarrow> span_at buffer (offset + 2);
     b1 \<leftarrow> span_at buffer (offset + 1);
     b0 \<leftarrow> span_at buffer offset;
     Some (ucast b3 OR push_bit 8 (ucast b2) OR push_bit 16 (ucast b1) OR
           push_bit 24 (ucast b0)) }"

definition read_uint16 :: "bytes \<Rightarrow> nat \<Rightarrow> u16 run" where
  "read_uint16 buffer offset = do {
     b1 \<leftarrow> span_at buffer (offset + 1);
     b0 \<leftarrow> span_at buffer offset;
     Some (ucast ((ucast b1 :: u32) OR push_bit 8 (ucast b0))) }"

definition read_uint8 :: "bytes \<Rightarrow> nat \<Rightarrow> byte run" where
  "read_uint8 buffer offset = span_at buffer offset"

text \<open>\<^verbatim>\<open>big_endian::read\<close> copies with an unchecked \<^verbatim>\<open>memcpy\<close>.\<close>

definition be_read :: "bytes \<Rightarrow> nat \<Rightarrow> nat \<Rightarrow> bytes run" where
  "be_read buffer offset len = mem_read buffer offset len"

definition put_uint32 :: "bytes \<Rightarrow> u32 \<Rightarrow> bytes run" where
  "put_uint32 b v =
     (if 3 < length b
      then Some (b[0 := ucast (drop_bit 24 v), 1 := ucast (drop_bit 16 v),
                   2 := ucast (drop_bit 8 v), 3 := ucast v])
      else None)"

primrec put_uint64_loop :: "nat \<Rightarrow> u64 \<Rightarrow> bytes \<Rightarrow> bytes run" where
  "put_uint64_loop 0 v b = Some b"
| "put_uint64_loop (Suc n) v b =
     (let i = 7 - n in
      if i < length b
      then put_uint64_loop n v (b[i := ucast (drop_bit (56 - i * 8) v)]) else None)"

definition put_uint64 :: "bytes \<Rightarrow> u64 \<Rightarrow> bytes run" where
  "put_uint64 b v = put_uint64_loop 8 v b"

subsection \<open>The sequential writer\<close>

record buffer_writer =
  store :: bytes
  woffset :: nat

definition new_buffer_writer :: "nat \<Rightarrow> buffer_writer" where
  "new_buffer_writer sz = \<lparr>store = replicate sz 0, woffset = 0\<rparr>"

definition write_bytes :: "bytes \<Rightarrow> buffer_writer \<Rightarrow> buffer_writer run" where
  "write_bytes val w =
     (if val = [] then Some w
      else do {
        s \<leftarrow> mem_write (store w) (woffset w) val;
        Some (w\<lparr>store := s, woffset := woffset w + length val\<rparr>) })"

definition write_byte :: "byte \<Rightarrow> buffer_writer \<Rightarrow> buffer_writer run" where
  "write_byte val w =
     (if woffset w < length (store w)
      then Some (w\<lparr>store := (store w)[woffset w := val], woffset := woffset w + 1\<rparr>)
      else None)"

definition write_frame_header :: "byte \<Rightarrow> nat \<Rightarrow> buffer_writer \<Rightarrow> buffer_writer run" where
  "write_frame_header ftype len = write_byte (push_bit 4 ftype OR of_nat len)"

definition write_uint64 :: "u64 \<Rightarrow> buffer_writer \<Rightarrow> buffer_writer run" where
  "write_uint64 v w = do {
     w \<leftarrow> write_byte (ucast (drop_bit 56 v)) w;
     w \<leftarrow> write_byte (ucast (drop_bit 48 v)) w;
     w \<leftarrow> write_byte (ucast (drop_bit 40 v)) w;
     w \<leftarrow> write_byte (ucast (drop_bit 32 v)) w;
     w \<leftarrow> write_byte (ucast (drop_bit 24 v)) w;
     w \<leftarrow> write_byte (ucast (drop_bit 16 v)) w;
     w \<leftarrow> write_byte (ucast (drop_bit 8 v)) w;
     write_byte (ucast v) w }"

definition write_uint32 :: "u32 \<Rightarrow> buffer_writer \<Rightarrow> buffer_writer run" where
  "write_uint32 v w = do {
     w \<leftarrow> write_byte (ucast (drop_bit 24 v)) w;
     w \<leftarrow> write_byte (ucast (drop_bit 16 v)) w;
     w \<leftarrow> write_byte (ucast (drop_bit 8 v)) w;
     write_byte (ucast v) w }"

definition write_uint16 :: "u16 \<Rightarrow> buffer_writer \<Rightarrow> buffer_writer run" where
  "write_uint16 v w = do {
     w \<leftarrow> write_byte (ucast (drop_bit 8 v)) w;
     write_byte (ucast v) w }"

subsection \<open>Byte swapping\<close>

definition byte_swap16 :: "u16 \<Rightarrow> u16" where
  "byte_swap16 v = (let hi = push_bit 8 v; lo = drop_bit 8 v in hi OR lo)"

definition byte_swap32 :: "u32 \<Rightarrow> u32" where
  "byte_swap32 v =
     (let byte0 = v AND 0x000000ff; byte1 = v AND 0x0000ff00;
          byte2 = v AND 0x00ff0000; byte3 = v AND 0xff000000
      in push_bit 24 byte0 OR push_bit 8 byte1 OR drop_bit 8 byte2 OR drop_bit 24 byte3)"

definition byte_swap64 :: "u64 \<Rightarrow> u64" where
  "byte_swap64 v =
     (let hi = ucast (byte_swap32 (ucast v)) :: u64; lo = byte_swap32 (ucast (drop_bit 32 v))
      in push_bit 32 hi OR ucast lo)"

subsection \<open>The bytes of a value in network order\<close>

definition be16_bytes :: "u16 \<Rightarrow> bytes" where
  "be16_bytes v = [ucast (drop_bit 8 v), ucast v]"

definition be32_bytes :: "u32 \<Rightarrow> bytes" where
  "be32_bytes v = [ucast (drop_bit 24 v), ucast (drop_bit 16 v), ucast (drop_bit 8 v), ucast v]"

definition be64_bytes :: "u64 \<Rightarrow> bytes" where
  "be64_bytes v = [ucast (drop_bit 56 v), ucast (drop_bit 48 v), ucast (drop_bit 40 v),
     ucast (drop_bit 32 v), ucast (drop_bit 24 v), ucast (drop_bit 16 v), ucast (drop_bit 8 v),
     ucast v]"

lemma be16_bytes_length [simp]: "length (be16_bytes v) = 2"
  by (simp add: be16_bytes_def)

lemma be32_bytes_length [simp]: "length (be32_bytes v) = 4"
  by (simp add: be32_bytes_def)

lemma be64_bytes_length [simp]: "length (be64_bytes v) = 8"
  by (simp add: be64_bytes_def)

lemma be16_join:
  "ucast (ucast v :: byte) OR push_bit 8 (ucast (ucast (drop_bit 8 v) :: byte)) = (v :: u16)"
  using take_bit_step [of 8 v 8] by (simp add: ucast_byte_take_bit take_bit_word_eq_self)

lemma be32_join:
  "ucast (ucast v :: byte) OR push_bit 8 (ucast (ucast (drop_bit 8 v) :: byte)) OR
     push_bit 16 (ucast (ucast (drop_bit 16 v) :: byte)) OR
     push_bit 24 (ucast (ucast (drop_bit 24 v) :: byte)) = (v :: u32)"
  using take_bit_step [of 8 v 8] take_bit_step [of 16 v 8] take_bit_step [of 24 v 8]
  by (simp add: ucast_byte_take_bit take_bit_word_eq_self flip: or.assoc)

lemma be64_join:
  "ucast (ucast v :: byte) OR push_bit 8 (ucast (ucast (drop_bit 8 v) :: byte)) OR
     push_bit 16 (ucast (ucast (drop_bit 16 v) :: byte)) OR
     push_bit 24 (ucast (ucast (drop_bit 24 v) :: byte)) OR
     push_bit 32 (ucast (ucast (drop_bit 32 v) :: byte)) OR
     push_bit 40 (ucast (ucast (drop_bit 40 v) :: byte)) OR
     push_bit 48 (ucast (ucast (drop_bit 48 v) :: byte)) OR
     push_bit 56 (ucast (ucast (drop_bit 56 v) :: byte)) = (v :: u64)"
  using take_bit_step [of 8 v 8] take_bit_step [of 16 v 8] take_bit_step [of 24 v 8]
    take_bit_step [of 32 v 8] take_bit_step [of 40 v 8] take_bit_step [of 48 v 8]
    take_bit_step [of 56 v 8]
  by (simp add: ucast_byte_take_bit take_bit_word_eq_self flip: or.assoc)

text \<open>The narrowing through 32 bits in \<^verbatim>\<open>read_uint16\<close> loses nothing.\<close>

lemma read_uint16_narrow:
  "(ucast ((ucast (x :: byte) :: u32) OR push_bit 8 (ucast (y :: byte))) :: u16)
     = ucast x OR push_bit 8 (ucast y)"
  by (rule bit_word_eqI) (auto simp: bit_simps)

lemma read_uint16_window:
  "off + 2 \<le> length b \<Longrightarrow>
     read_uint16 b off = Some (ucast (b ! (off + 1)) OR push_bit 8 (ucast (b ! off)))"
  by (simp add: read_uint16_def span_at_def read_uint16_narrow)

lemma read_uint32_window:
  "off + 4 \<le> length b \<Longrightarrow>
     read_uint32 b off = Some (ucast (b ! (off + 3)) OR push_bit 8 (ucast (b ! (off + 2))) OR
       push_bit 16 (ucast (b ! (off + 1))) OR push_bit 24 (ucast (b ! off)))"
  by (simp add: read_uint32_def span_at_def)

lemma read_uint64_window:
  "off + 8 \<le> length b \<Longrightarrow>
     read_uint64 b off = Some (ucast (b ! (off + 7)) OR push_bit 8 (ucast (b ! (off + 6))) OR
       push_bit 16 (ucast (b ! (off + 5))) OR push_bit 24 (ucast (b ! (off + 4))) OR
       push_bit 32 (ucast (b ! (off + 3))) OR push_bit 40 (ucast (b ! (off + 2))) OR
       push_bit 48 (ucast (b ! (off + 1))) OR push_bit 56 (ucast (b ! off)))"
  by (simp add: read_uint64_def span_at_def)

lemmas read_uint_windows = read_uint16_window read_uint32_window read_uint64_window

interpretation be16: wire_field be16_bytes read_uint16 2
proof
  fix w :: bytes
  assume "length w = 2"
  then obtain a b where w: "w = [a, b]" by (auto simp: length_2_conv)
  show "\<exists>v. read_uint16 w 0 = Some v \<and> be16_bytes v = w"
    by (simp add: read_uint_windows w be16_bytes_def byte_of_shifts)
qed (auto simp: read_uint_windows be16_bytes_def be16_join span_at_def read_uint16_def
       read_uint16_narrow)

interpretation be32: wire_field be32_bytes read_uint32 4
proof
  fix w :: bytes
  assume "length w = 4"
  then obtain a b c d where w: "w = [a, b, c, d]" by (auto simp: length_4_conv)
  show "\<exists>v. read_uint32 w 0 = Some v \<and> be32_bytes v = w"
    by (simp add: read_uint_windows w be32_bytes_def byte_of_shifts)
qed (auto simp: read_uint_windows be32_bytes_def be32_join span_at_def read_uint32_def)

interpretation be64: wire_field be64_bytes read_uint64 8
proof
  fix w :: bytes
  assume "length w = 8"
  then obtain a b c d e f g h where w: "w = [a, b, c, d, e, f, g, h]"
    by (auto simp: length_8_conv)
  show "\<exists>v. read_uint64 w 0 = Some v \<and> be64_bytes v = w"
    by (simp add: read_uint_windows w be64_bytes_def byte_of_shifts)
qed (auto simp: read_uint_windows be64_bytes_def be64_join span_at_def read_uint64_def)

interpretation be8: wire_field "\<lambda>v. [v]" read_uint8 1
  by unfold_locales (auto simp: read_uint8_def span_at_def length_Suc_conv)

subsection \<open>The writer appends\<close>

text \<open>
  Every write is one \<^verbatim>\<open>write_bytes\<close> of the bytes of its argument, and writes compose by
  concatenation; a sequence of writes into a fresh writer is therefore the concatenation of their
  bytes, defined exactly when the buffer is large enough.
\<close>

definition written :: "buffer_writer \<Rightarrow> bytes" where
  "written w = take (woffset w) (store w)"

named_theorems writer_simps \<open>writes as appended bytes\<close>

lemma write_byte_bytes [writer_simps]: "write_byte b = write_bytes [b]"
  by (rule ext) (simp add: write_byte_def write_bytes_def mem_write_def upd_conv_take_nth_drop)

lemma write_bytes_append [writer_simps]:
  "write_bytes xs w \<bind> write_bytes ys = write_bytes (xs @ ys) w"
proof (cases "xs = []")
  case True
  then show ?thesis by (simp add: write_bytes_def)
next
  case False
  then obtain z zs where "xs = z # zs" by (cases xs) auto
  then show ?thesis
    by (cases "woffset w < length (store w)")
      (auto simp: write_bytes_def mem_write_def min_def ac_simps split: bind_splits)
qed

lemma write_bytes_append_bind [writer_simps]:
  "write_bytes xs w \<bind> (\<lambda>w. write_bytes ys w \<bind> f) = write_bytes (xs @ ys) w \<bind> f"
  by (simp flip: write_bytes_append Option.bind_assoc)

lemma write_bytes_Nil [simp]: "write_bytes [] = Some"
  by (rule ext) (simp add: write_bytes_def)

lemma write_uint16_bytes [writer_simps]: "write_uint16 v = write_bytes (be16_bytes v)"
  by (rule ext) (simp add: write_uint16_def be16_bytes_def writer_simps)

lemma write_uint32_bytes [writer_simps]: "write_uint32 v = write_bytes (be32_bytes v)"
  by (rule ext) (simp add: write_uint32_def be32_bytes_def writer_simps)

lemma write_uint64_bytes [writer_simps]: "write_uint64 v = write_bytes (be64_bytes v)"
  by (rule ext) (simp add: write_uint64_def be64_bytes_def writer_simps)

lemma write_frame_header_bytes [writer_simps]:
  "write_frame_header t n = write_bytes [push_bit 4 t OR of_nat n]"
  by (simp add: write_frame_header_def writer_simps)

lemma write_bytes_fits:
  assumes "woffset w + length xs \<le> length (store w)"
  obtains w' where "write_bytes xs w = Some w'" and "written w' = written w @ xs"
    and "length (store w') = length (store w)" and "woffset w' = woffset w + length xs"
proof
  show "write_bytes xs w = Some (w\<lparr>store := take (woffset w) (store w) @ xs @
      drop (woffset w + length xs) (store w), woffset := woffset w + length xs\<rparr>)"
    using assms by (simp add: write_bytes_def mem_write_def)
qed (use assms in \<open>simp_all add: written_def\<close>)

lemma write_bytes_overflow:
  "length (store w) < woffset w + length xs \<Longrightarrow> xs \<noteq> [] \<Longrightarrow> write_bytes xs w = None"
  by (simp add: write_bytes_def mem_write_def)

lemma write_bytes_new:
  "write_bytes xs (new_buffer_writer n) =
     (if length xs \<le> n
      then Some \<lparr>store = xs @ replicate (n - length xs) 0, woffset = length xs\<rparr> else None)"
  by (auto simp: write_bytes_def mem_write_def new_buffer_writer_def)

subsection \<open>Writing into the head of a vector\<close>

lemma put_uint32_bytes:
  "put_uint32 b v = (if 4 \<le> length b then Some (be32_bytes v @ drop 4 b) else None)"
proof -
  have "\<exists>a c d e r. b = a # c # d # e # r" if "4 \<le> length b"
    using that by (auto simp: eval_nat_numeral Suc_le_length_iff)
  then show ?thesis
    by (auto simp: put_uint32_def be32_bytes_def)
qed

lemma put_uint64_bytes:
  "put_uint64 b v = (if 8 \<le> length b then Some (be64_bytes v @ drop 8 b) else None)"
proof -
  have "\<exists>b0 b1 b2 b3 b4 b5 b6 b7 r. b = b0 # b1 # b2 # b3 # b4 # b5 # b6 # b7 # r"
    if "8 \<le> length b"
    using that by (auto simp: eval_nat_numeral Suc_le_length_iff)
  then show ?thesis
    by (auto simp: put_uint64_def be64_bytes_def eval_nat_numeral Let_def)
qed

subsection \<open>Swapping after a load\<close>

lemma mask_byte0: "(0x000000ff :: u32) = mask 8" by (simp add: mask_eq_exp_minus_1)
lemma mask_byte1: "(0x0000ff00 :: u32) = push_bit 8 (mask 8)" by (simp add: mask_eq_exp_minus_1)
lemma mask_byte2: "(0x00ff0000 :: u32) = push_bit 16 (mask 8)" by (simp add: mask_eq_exp_minus_1)
lemma mask_byte3: "(0xff000000 :: u32) = push_bit 24 (mask 8)" by (simp add: mask_eq_exp_minus_1)


lemma byte_swap16_bytes:
  "byte_swap16 (ucast (a :: byte) OR push_bit 8 (ucast (b :: byte)))
     = ucast b OR push_bit 8 (ucast a)"
proof (rule bit_word_eqI)
  fix n assume "n < LENGTH(16)"
  then consider "n < 8" | "8 \<le> n" "n < 16" by fastforce
  then show "bit (byte_swap16 (ucast a OR push_bit 8 (ucast b))) n
      = bit (ucast b OR push_bit 8 (ucast a) :: u16) n"
    unfolding byte_swap16_def Let_def
    by cases (auto simp: bit_simps dest: byte_bit_bound)
qed

lemma byte_swap32_bytes:
  "byte_swap32 (ucast (a :: byte) OR push_bit 8 (ucast (b :: byte)) OR
       push_bit 16 (ucast (c :: byte)) OR push_bit 24 (ucast (d :: byte)))
     = ucast d OR push_bit 8 (ucast c) OR push_bit 16 (ucast b) OR push_bit 24 (ucast a)"
proof (rule bit_word_eqI)
  fix n assume "n < LENGTH(32)"
  then consider "n < 8" | "8 \<le> n" "n < 16" | "16 \<le> n" "n < 24" | "24 \<le> n" "n < 32"
    by fastforce
  then show "bit (byte_swap32 (ucast a OR push_bit 8 (ucast b) OR push_bit 16 (ucast c) OR
        push_bit 24 (ucast d))) n
      = bit (ucast d OR push_bit 8 (ucast c) OR push_bit 16 (ucast b) OR
          push_bit 24 (ucast a) :: u32) n"
    unfolding byte_swap32_def Let_def mask_byte0 mask_byte1 mask_byte2 mask_byte3
    by cases (auto simp: bit_simps dest: byte_bit_bound)
qed

text \<open>A 64-bit swap is two 32-bit swaps of the halves.\<close>

lemma u64_low_half:
  "(ucast ((ucast (x :: u32) :: u64) OR push_bit 32 (ucast (y :: u32))) :: u32) = x"
  by (rule bit_word_eqI) (auto simp: bit_simps)

lemma u64_high_half:
  "(ucast (drop_bit 32 ((ucast (x :: u32) :: u64) OR push_bit 32 (ucast (y :: u32)))) :: u32) = y"
  by (rule bit_word_eqI) (auto simp: bit_simps dest: bit_imp_le_length)

lemma ucast_byte_push:
  "k + 8 \<le> 32 \<Longrightarrow> (ucast (push_bit k (ucast (x :: byte) :: u32)) :: u64) = push_bit k (ucast x)"
  by (rule bit_word_eqI) (auto simp: bit_simps dest: byte_bit_bound)

lemma ucast_byte_up: "(ucast (ucast (x :: byte) :: u32) :: u64) = ucast x"
  by (rule bit_word_eqI) (auto simp: bit_simps dest: byte_bit_bound)

lemma u64_halves:
  "(ucast (a :: byte) OR push_bit 8 (ucast (b :: byte)) OR push_bit 16 (ucast (c :: byte)) OR
      push_bit 24 (ucast (d :: byte)) OR push_bit 32 (ucast (e :: byte)) OR
      push_bit 40 (ucast (f :: byte)) OR push_bit 48 (ucast (g :: byte)) OR
      push_bit 56 (ucast (h :: byte)) :: u64)
   = ucast (ucast a OR push_bit 8 (ucast b) OR push_bit 16 (ucast c) OR push_bit 24 (ucast d) :: u32)
     OR push_bit 32 (ucast (ucast e OR push_bit 8 (ucast f) OR push_bit 16 (ucast g) OR
          push_bit 24 (ucast h) :: u32))"
  by (simp add: unsigned_or_eq push_bit_or ucast_byte_push ucast_byte_up or.assoc)

lemma byte_swap64_bytes:
  "byte_swap64 (ucast (a :: byte) OR push_bit 8 (ucast (b :: byte)) OR push_bit 16 (ucast (c :: byte)) OR
      push_bit 24 (ucast (d :: byte)) OR push_bit 32 (ucast (e :: byte)) OR
      push_bit 40 (ucast (f :: byte)) OR push_bit 48 (ucast (g :: byte)) OR
      push_bit 56 (ucast (h :: byte)))
   = ucast h OR push_bit 8 (ucast g) OR push_bit 16 (ucast f) OR push_bit 24 (ucast e) OR
      push_bit 32 (ucast d) OR push_bit 40 (ucast c) OR push_bit 48 (ucast b) OR push_bit 56 (ucast a)"
  unfolding u64_halves byte_swap64_def Let_def u64_low_half u64_high_half byte_swap32_bytes
  by (simp add: unsigned_or_eq push_bit_or ucast_byte_push ucast_byte_up ac_simps)

lemma swap_load16: "map_option byte_swap16 (load_le16 b off) = read_uint16 b off"
  by (simp add: load_le16_def mem_read_def read_uint16_window byte_swap16_bytes be16.get_short)

lemma swap_load32: "map_option byte_swap32 (load_le32 b off) = read_uint32 b off"
  by (simp add: load_le32_def mem_read_def read_uint32_window byte_swap32_bytes be32.get_short)

lemma swap_load64: "map_option byte_swap64 (load_le64 b off) = read_uint64 b off"
  by (simp add: load_le64_def mem_read_def read_uint64_window byte_swap64_bytes be64.get_short)

lemmas swap_loads = swap_load16 swap_load32 swap_load64

end
