(* ===== verification/Leb128.thy ===== *)
theory Leb128
  imports Big_Endian
begin

text \<open>
  The unsigned LEB128 code of collection identifiers, \<^verbatim>\<open>core/utils/unsigned_leb128.hxx\<close>.
  The template parameter \<^verbatim>\<open>T\<close> is the word type; the code instantiates it with
  \<^verbatim>\<open>std::uint32_t\<close>, and shifts by at least the width of \<^verbatim>\<open>T\<close> are undefined.
  The encoder is shown equal to the reference \<open>leb_bytes\<close> on natural numbers, and the codec
  interprets \<open>prefix_codec\<close>.
\<close>

subsection \<open>Decoding\<close>

fun leb128_shift_in :: "'a::len word \<Rightarrow> nat \<Rightarrow> bytes \<Rightarrow> ('a word \<times> bytes) option run" where
  "leb128_shift_in rv shift [] = Some None"
| "leb128_shift_in rv shift (b # bs) =
     (if shift < LENGTH('a)
      then let rv' = rv OR push_bit shift (ucast (b AND 0x7f)) in
           if b AND 0x80 = 0 then Some (Some (rv', bs)) else leb128_shift_in rv' (shift + 7) bs
      else None)"

text \<open>
  The second component is the remaining buffer; a default-constructed span, whose
  \<^verbatim>\<open>data()\<close> is a null pointer, is \<open>None\<close>.
\<close>

definition decode_unsigned_leb128_no_throw :: "bytes \<Rightarrow> ('a::len word \<times> bytes option) run" where
  "decode_unsigned_leb128_no_throw buf = do {
     b \<leftarrow> span_at buf 0;
     let rv = ucast (b AND 0x7f);
     if b AND 0x80 = 0x80
     then do {
       r \<leftarrow> leb128_shift_in rv 7 (drop 1 buf);
       (case r of None \<Rightarrow> Some (0, None) | Some (v, rest) \<Rightarrow> Some (v, Some rest)) }
     else Some (rv, Some (drop 1 buf)) }"

datatype leb128_error = leb128_invalid_argument

definition decode_unsigned_leb128 :: "bytes \<Rightarrow> (leb128_error + ('a::len word \<times> bytes)) run" where
  "decode_unsigned_leb128 buf =
     (if buf \<noteq> []
      then do {
        (v, rest) \<leftarrow> decode_unsigned_leb128_no_throw buf;
        (case rest of None \<Rightarrow> Some (Inl leb128_invalid_argument)
         | Some r \<Rightarrow> Some (Inr (v, r))) }
      else Some (Inl leb128_invalid_argument))"

subsection \<open>Encoding\<close>

definition leb128_max_size :: "nat \<Rightarrow> nat" where
  "leb128_max_size sizeof_T = sizeof_T + ((sizeof_T + 1) div 8 + 1)"

lemma drop_bit_7_less:
  assumes "in0 > (0 :: 'a::len word)"
  shows "unat (drop_bit 7 in0) < unat in0"
proof -
  have "0 < unat in0" using assms by (simp add: word_less_nat_alt)
  then have "unat in0 div 128 < unat in0" by simp
  then show ?thesis by (subst unat_drop_bit_eq) (simp add: drop_bit_eq_div)
qed

text \<open>The array \<^verbatim>\<open>encoded_data_\<close> has no bounds check: a store outside it is undefined.\<close>

function unsigned_leb128_loop :: "'a::len word \<Rightarrow> bytes \<Rightarrow> nat \<Rightarrow> (bytes \<times> nat) run" where
  "unsigned_leb128_loop in0 encoded_data encoded_size =
     (if in0 > 0
      then let b = (ucast in0 :: byte) AND 0x7f; in1 = drop_bit 7 in0 in
           if encoded_size - 1 < length encoded_data
           then if in1 > 0
                then unsigned_leb128_loop in1 (encoded_data[encoded_size - 1 := b OR 0x80])
                       (encoded_size + 1)
                else unsigned_leb128_loop in1 (encoded_data[encoded_size - 1 := b]) encoded_size
           else None
      else Some (encoded_data, encoded_size))"
  by pat_completeness auto
termination
  by (relation "measure (\<lambda>(v, _, _). unat v)") (simp_all add: drop_bit_7_less)

declare unsigned_leb128_loop.simps [simp del]

text \<open>The bytes from \<^verbatim>\<open>begin()\<close> to \<^verbatim>\<open>end()\<close>.\<close>

definition unsigned_leb128 :: "'a::len word \<Rightarrow> bytes run" where
  "unsigned_leb128 v = do {
     (data, n) \<leftarrow> unsigned_leb128_loop v (replicate (leb128_max_size (LENGTH('a) div 8)) 0) 1;
     Some (take n data) }"

subsection \<open>The reference encoding\<close>

fun leb_bytes :: "nat \<Rightarrow> bytes" where
  "leb_bytes n = (if n < 128 then [of_nat n] else of_nat (n mod 128 + 128) # leb_bytes (n div 128))"

declare leb_bytes.simps [simp del]

lemma leb_bytes_small: "n < 128 \<Longrightarrow> leb_bytes n = [of_nat n]"
  by (simp add: leb_bytes.simps)

lemma leb_bytes_large:
  "128 \<le> n \<Longrightarrow> leb_bytes n = of_nat (n mod 128 + 128) # leb_bytes (n div 128)"
  by (subst leb_bytes.simps) simp

lemma leb_bytes_nonempty [simp]: "leb_bytes n \<noteq> []"
  by (subst leb_bytes.simps) simp

lemma leb_bytes_length: "0 < k \<Longrightarrow> n < 2 ^ (7 * k) \<Longrightarrow> length (leb_bytes n) \<le> k"
proof (induction k arbitrary: n)
  case (Suc k)
  show ?case
  proof (cases "n < 128")
    case False
    then have "0 < k" using Suc.prems by (cases k) auto
    moreover have "n div 128 < 2 ^ (7 * k)"
      using Suc.prems by (simp add: less_mult_imp_div_less power_add)
    ultimately show ?thesis using Suc.IH False by (simp add: leb_bytes_large)
  qed (simp add: leb_bytes_small)
qed simp

subsection \<open>Continuation bits\<close>

lemma byte_cont_clear: "(b :: byte) AND 0x80 = 0 \<longleftrightarrow> \<not> bit b 7"
  using and_exp_eq_0_iff_not_bit [of b 7] by simp

lemma byte_cont_set: "(b :: byte) AND 0x80 = 0x80 \<longleftrightarrow> bit b 7"
proof
  assume "b AND 0x80 = 0x80"
  then have "b AND 0x80 \<noteq> 0" by simp
  then show "bit b 7" by (simp only: byte_cont_clear not_not)
next
  assume "bit b 7"
  then have "b AND 2 ^ 7 = 2 ^ 7"
    by (intro bit_word_eqI) (simp only: bit_and_iff bit_exp_iff, blast)
  then show "b AND 0x80 = 0x80" by simp
qed

lemma byte_low7: "(b :: byte) AND 0x7f = take_bit 7 b"
  by (simp add: take_bit_eq_mask mask_eq_exp_minus_1)

lemma cont_byte_bit: "m < 256 \<Longrightarrow> bit (of_nat m :: byte) 7 \<longleftrightarrow> 128 \<le> m"
proof -
  assume "m < 256"
  then have "odd (m div 128) \<longleftrightarrow> 128 \<le> m"
    by (cases "m < 128") (auto simp: div_eq_0_iff le_div_geq)
  then have "bit m 7 \<longleftrightarrow> 128 \<le> m" by (simp add: bit_nat_def)
  then show ?thesis by (simp add: bit_of_nat_iff)
qed

lemma cont_byte_or:
  assumes "m < 128"
  shows "(of_nat m :: byte) OR 0x80 = of_nat (m + 128)"
proof -
  have "\<not> bit (of_nat m :: byte) 7" using cont_byte_bit [of m] assms by simp
  then have "(of_nat m :: byte) AND 0x80 = 0" using byte_cont_clear by blast
  from disjunctive_add_eq_or [OF this] show ?thesis by simp
qed

lemma ucast_as_of_nat: "(ucast v :: 'b::len word) = of_nat (unat v)"
  by simp

lemma ucast_of_nat_byte: "n < 256 \<Longrightarrow> (ucast (of_nat n :: byte) :: 'a::len word) = of_nat n"
  by (subst ucast_as_of_nat) simp

lemma low7_of_nat: "(of_nat m :: byte) AND 0x7f = of_nat (m mod 128)"
  unfolding byte_low7 take_bit_of_nat by (simp add: take_bit_eq_mod)

lemma cont_low7: "n < 128 \<Longrightarrow> (of_nat (n + 128) :: byte) AND 0x7f = of_nat n"
  unfolding low7_of_nat by simp

lemma of_nat_join7:
  "(of_nat (n mod 128) :: 'a::len word) OR push_bit 7 (of_nat (n div 128)) = of_nat n"
proof -
  have "take_bit 7 n OR push_bit 7 (drop_bit 7 n) = n"
  proof (rule bit_eqI)
    show "bit (take_bit 7 n OR push_bit 7 (drop_bit 7 n)) m = bit n m" for m
      by (cases "m < 7") (simp_all add: bit_simps)
  qed
  then have "n mod 128 OR push_bit 7 (n div 128) = n"
    by (simp only: take_bit_eq_mod drop_bit_eq_div) simp
  then have "of_nat (n mod 128 OR push_bit 7 (n div 128)) = (of_nat n :: 'a word)"
    by (rule arg_cong)
  then show ?thesis
    by (simp only: of_nat_or_eq push_bit_of_nat)
qed

subsection \<open>The encoder is the reference, and never leaves its array\<close>

lemma unsigned_leb128_loop_ref:
  "v > 0 \<Longrightarrow> length (leb_bytes (unat v)) \<le> length tail \<Longrightarrow>
   unsigned_leb128_loop v (pre @ tail) (Suc (length pre)) =
     Some (pre @ leb_bytes (unat v) @ drop (length (leb_bytes (unat v))) tail,
           length pre + length (leb_bytes (unat v)))"
proof (induction "unat v" arbitrary: v pre tail rule: less_induct)
  case less
  obtain t ts where tail: "tail = t # ts"
    using less.prems by (cases tail) auto
  have byte: "(ucast v :: byte) AND 0x7f = of_nat (unat v mod 128)"
    unfolding ucast_as_of_nat low7_of_nat ..
  have shifted: "unat (drop_bit 7 v) = unat v div 128"
    by (subst unat_drop_bit_eq) (simp add: drop_bit_eq_div)
  show ?case
  proof (cases "unat v < 128")
    case True
    then have "drop_bit 7 v = 0" using shifted by (simp add: unat_eq_zero)
    then show ?thesis
      using less.prems True byte
      by (subst unsigned_leb128_loop.simps)
        (simp add: tail leb_bytes_small unsigned_leb128_loop.simps [of 0])
  next
    case False
    then have pos: "drop_bit 7 v > 0"
      using shifted by (simp add: word_less_nat_alt)
    have fits: "length (leb_bytes (unat (drop_bit 7 v))) \<le> length ts"
      using less.prems False by (simp add: shifted leb_bytes_large tail)
    have cont: "((ucast v :: byte) AND 0x7f) OR 0x80 = of_nat (unat v mod 128 + 128)"
      unfolding byte by (rule cont_byte_or) simp
    have "unsigned_leb128_loop v (pre @ tail) (Suc (length pre))
        = unsigned_leb128_loop (drop_bit 7 v)
            ((pre @ [of_nat (unat v mod 128 + 128)]) @ ts) (Suc (length pre + 1))"
      using less.prems(1) pos cont
      by (subst unsigned_leb128_loop.simps) (simp add: tail)
    then show ?thesis
      using less.hyps [OF drop_bit_7_less [OF less.prems(1)] pos fits,
          of "pre @ [of_nat (unat v mod 128 + 128)]"] False
      by (simp add: shifted leb_bytes_large tail)
  qed
qed

lemma leb_bytes_zero [simp]: "leb_bytes 0 = [0]"
  by (simp add: leb_bytes_small)

lemma unsigned_leb128_ref:
  fixes v :: "'a::len word"
  assumes "length (leb_bytes (unat v)) \<le> leb128_max_size (LENGTH('a) div 8)"
  shows "unsigned_leb128 v = Some (leb_bytes (unat v))"
proof (cases "v = 0")
  case True
  then show ?thesis
    by (simp add: unsigned_leb128_def unsigned_leb128_loop.simps [of 0] leb128_max_size_def)
next
  case False
  then have "v > 0" by (simp add: word_neq_0_conv)
  from unsigned_leb128_loop_ref [OF this,
      of "replicate (leb128_max_size (LENGTH('a) div 8)) 0" "[]"] assms
  show ?thesis by (simp add: unsigned_leb128_def)
qed

lemma leb_bytes_u32_length: "length (leb_bytes (unat (v :: u32))) \<le> 5"
  using unat_u32_less [of v] by (intro leb_bytes_length) (simp_all del: unat_u32_less)

lemma leb_bytes_u64_length: "length (leb_bytes (unat (v :: u64))) \<le> 10"
  using unsigned_less [of v, where 'a = nat] by (intro leb_bytes_length) simp_all

lemma unsigned_leb128_u32: "unsigned_leb128 (v :: u32) = Some (leb_bytes (unat v))"
  using leb_bytes_u32_length by (intro unsigned_leb128_ref) (simp add: leb128_max_size_def)

lemma unsigned_leb128_u64: "unsigned_leb128 (v :: u64) = Some (leb_bytes (unat v))"
  using leb_bytes_u64_length by (intro unsigned_leb128_ref) (simp add: leb128_max_size_def)

subsection \<open>Decoding what was encoded\<close>

lemma leb128_shift_in_ref:
  fixes rv :: "'a::len word"
  assumes "shift < LENGTH('a)" and "n < 2 ^ (LENGTH('a) - shift)"
  shows "leb128_shift_in rv shift (leb_bytes n @ rest)
    = Some (Some (rv OR push_bit shift (of_nat n), rest))"
  using assms
proof (induction n arbitrary: rv shift rule: leb_bytes.induct)
  case (1 n)
  show ?case
  proof (cases "n < 128")
    case True
    then have "(of_nat n :: byte) AND 0x80 = 0"
      using cont_byte_bit [of n] byte_cont_clear by simp
    then show ?thesis
      using 1(2) True low7_of_nat [of n] by (simp add: leb_bytes_small ucast_of_nat_byte)
  next
    case False
    let ?b = "of_nat (n mod 128 + 128) :: byte"
    have cont: "\<not> ?b AND 0x80 = 0"
      using cont_byte_bit [of "n mod 128 + 128"] byte_cont_clear [of ?b] by simp
    have low: "?b AND 0x7f = of_nat (n mod 128)"
      by (rule cont_low7) simp
    have up: "ucast (of_nat (n mod 128) :: byte) = (of_nat (n mod 128) :: 'a word)"
      by (rule ucast_of_nat_byte) (simp add: less_trans [OF mod_less_divisor])
    have "128 \<le> n" using False by simp
    with 1(3) have big: "(2 :: nat) ^ 7 < 2 ^ (LENGTH('a) - shift)" by simp
    then have "7 < LENGTH('a) - shift" by (rule power_less_imp_less_exp [rotated]) simp
    then have shift': "shift + 7 < LENGTH('a)" by simp
    have "(2 :: nat) ^ (LENGTH('a) - shift) = 2 ^ (LENGTH('a) - (shift + 7)) * 128"
      using shift' power_add [of "2 :: nat" "LENGTH('a) - (shift + 7)" 7] by simp
    then have n': "n div 128 < 2 ^ (LENGTH('a) - (shift + 7))"
      using 1(3) by (simp add: less_mult_imp_div_less)
    have "push_bit shift (of_nat (n mod 128)) OR push_bit (shift + 7) (of_nat (n div 128))
        = (push_bit shift (of_nat n) :: 'a word)"
      using arg_cong [OF of_nat_join7 [of n, where 'a = 'a], of "push_bit shift"]
      by (simp add: push_bit_or ac_simps)
    then show ?thesis
      using 1(1) [OF False shift' n'] 1(2) False cont low up
      by (simp add: leb_bytes_large or.assoc)
  qed
qed

lemma decode_leb_bytes:
  assumes "7 < LENGTH('a::len)" and "n < 2 ^ LENGTH('a)"
  shows "decode_unsigned_leb128 (leb_bytes n @ rest) = Some (Inr (of_nat n :: 'a word, rest))"
proof (cases "n < 128")
  case True
  then have "\<not> (of_nat n :: byte) AND 0x80 = 0x80"
    using cont_byte_bit [of n] byte_cont_set by simp
  then show ?thesis
    using True low7_of_nat [of n]
    by (simp add: decode_unsigned_leb128_def decode_unsigned_leb128_no_throw_def
          leb_bytes_small ucast_of_nat_byte)
next
  case False
  let ?b = "of_nat (n mod 128 + 128) :: byte"
  have cont: "?b AND 0x80 = 0x80"
    using cont_byte_bit [of "n mod 128 + 128"] byte_cont_set [of ?b] by simp
  have low: "?b AND 0x7f = of_nat (n mod 128)"
    by (rule cont_low7) simp
  have "(2 :: nat) ^ LENGTH('a) = 2 ^ (LENGTH('a) - 7) * 128"
    using assms(1) power_add [of "2 :: nat" "LENGTH('a) - 7" 7] by simp
  then have "n div 128 < 2 ^ (LENGTH('a) - 7)"
    using assms(2) by (simp add: less_mult_imp_div_less)
  from leb128_shift_in_ref [OF assms(1) this] show ?thesis
    using False cont low
    by (simp add: decode_unsigned_leb128_def decode_unsigned_leb128_no_throw_def leb_bytes_large
          ucast_of_nat_byte of_nat_join7 less_trans [OF mod_less_divisor])
qed

text \<open>The codec of a collection identifier is self-delimiting.\<close>

definition leb128_enc :: "u32 \<Rightarrow> bytes" where
  "leb128_enc v = (case unsigned_leb128 v of Some b \<Rightarrow> b | None \<Rightarrow> [])"

definition leb128_dec :: "bytes \<Rightarrow> (u32 \<times> bytes) option" where
  "leb128_dec b = (case decode_unsigned_leb128 b of Some (Inr r) \<Rightarrow> Some r | _ \<Rightarrow> None)"

interpretation leb128: prefix_codec leb128_enc leb128_dec "\<lambda>_. True"
  by unfold_locales
    (simp_all add: leb128_enc_def leb128_dec_def unsigned_leb128_u32 decode_leb_bytes)

text \<open>
  C38: encoding a 32-bit collection identifier never stores outside the five-byte array of the
  encoder, and decoding the bytes it returns, whatever follows them, gives the identifier and
  exactly the bytes that follow.
\<close>

theorem leb128_roundtrip:
  "\<exists>b. unsigned_leb128 (v :: u32) = Some b \<and> length b \<le> 5 \<and>
       decode_unsigned_leb128 (b @ rest) = Some (Inr (v, rest))"
  using leb_bytes_u32_length [of v] decode_leb_bytes [of "unat v" rest, where 'a = 32]
  by (auto simp: unsigned_leb128_u32)

subsection \<open>Which inputs shift too far\<close>

lemma leb128_shift_in_undefined:
  fixes rv :: "'a::len word"
  shows "leb128_shift_in rv shift bs = None \<longleftrightarrow>
    (LENGTH('a) - shift + 6) div 7 < length bs \<and>
    list_all (\<lambda>b. b AND 0x80 \<noteq> 0) (take ((LENGTH('a) - shift + 6) div 7) bs)"
proof (induction bs arbitrary: rv shift)
  case (Cons b bs)
  show ?case
  proof (cases "shift < LENGTH('a)")
    case True
    then obtain m where m: "LENGTH('a) - shift = Suc m" "LENGTH('a) - (shift + 7) = m - 6"
      using that [of "LENGTH('a) - shift - 1"] by simp
    then have "(LENGTH('a) - shift + 6) div 7 = Suc ((LENGTH('a) - (shift + 7) + 6) div 7)"
      by (cases "m < 6") (simp_all add: le_div_geq)
    then show ?thesis using True Cons.IH by (simp add: Let_def)
  qed simp
qed simp

text \<open>
  decoding a 32-bit identifier is undefined exactly on inputs of six or more bytes whose first
  five bytes all have the continuation bit: the sixth byte is shifted by 35, beyond the width of
  the type. On every other input the decoder returns a value or reports the error.
\<close>

theorem leb128_decode_undefined_iff:
  "(decode_unsigned_leb128 buf :: (leb128_error + (u32 \<times> bytes)) run) = None \<longleftrightarrow>
     6 \<le> length buf \<and> list_all (\<lambda>b. b AND 0x80 \<noteq> 0) (take 5 buf)"
proof (cases buf)
  case (Cons b bs)
  have "b AND 0x80 = 0x80 \<longleftrightarrow> b AND 0x80 \<noteq> 0"
    unfolding byte_cont_set byte_cont_clear by simp
  then show ?thesis
    using leb128_shift_in_undefined [of "ucast (b AND 0x7f) :: u32" 7 bs]
    by (auto simp: Cons decode_unsigned_leb128_def decode_unsigned_leb128_no_throw_def
          bind_eq_None_conv split: option.splits)
qed (simp add: decode_unsigned_leb128_def)

end
