(* ===== verification/Errors.thy ===== *)
theory Errors
  imports Prelude
begin

text \<open>
  The error codes of \<^verbatim>\<open>couchbase/error_codes.hxx\<close>: one datatype per enumeration, with the
  source's enumerators prefixed by their category, the integer of each enumerator, and the sum
  \<open>errc\<close> of the categories a \<^verbatim>\<open>std::error_code\<close> of the client can hold. A
  default-constructed \<^verbatim>\<open>std::error_code\<close> (no error) is \<open>None\<close> of \<open>errc option\<close>.
\<close>

datatype common_errc =
  common_request_canceled | common_invalid_argument | common_service_not_available
  | common_internal_server_failure | common_authentication_failure | common_temporary_failure
  | common_parsing_failure | common_cas_mismatch | common_bucket_not_found
  | common_collection_not_found | common_unsupported_operation | common_ambiguous_timeout
  | common_unambiguous_timeout | common_feature_not_available | common_scope_not_found
  | common_index_not_found | common_index_exists | common_encoding_failure
  | common_decoding_failure | common_rate_limited | common_quota_limited

primrec common_value :: "common_errc \<Rightarrow> int" where
  "common_value common_request_canceled = 2"
| "common_value common_invalid_argument = 3"
| "common_value common_service_not_available = 4"
| "common_value common_internal_server_failure = 5"
| "common_value common_authentication_failure = 6"
| "common_value common_temporary_failure = 7"
| "common_value common_parsing_failure = 8"
| "common_value common_cas_mismatch = 9"
| "common_value common_bucket_not_found = 10"
| "common_value common_collection_not_found = 11"
| "common_value common_unsupported_operation = 12"
| "common_value common_ambiguous_timeout = 13"
| "common_value common_unambiguous_timeout = 14"
| "common_value common_feature_not_available = 15"
| "common_value common_scope_not_found = 16"
| "common_value common_index_not_found = 17"
| "common_value common_index_exists = 18"
| "common_value common_encoding_failure = 19"
| "common_value common_decoding_failure = 20"
| "common_value common_rate_limited = 21"
| "common_value common_quota_limited = 22"

datatype key_value_errc =
  key_value_document_not_found | key_value_document_irretrievable | key_value_document_locked
  | key_value_value_too_large | key_value_document_exists
  | key_value_durability_level_not_available | key_value_durability_impossible
  | key_value_durability_ambiguous | key_value_durable_write_in_progress
  | key_value_durable_write_re_commit_in_progress | key_value_path_not_found
  | key_value_path_mismatch | key_value_path_invalid | key_value_path_too_big
  | key_value_path_too_deep | key_value_value_too_deep | key_value_value_invalid
  | key_value_document_not_json | key_value_number_too_big | key_value_delta_invalid
  | key_value_path_exists | key_value_xattr_unknown_macro | key_value_xattr_invalid_key_combo
  | key_value_xattr_unknown_virtual_attribute | key_value_xattr_cannot_modify_virtual_attribute
  | key_value_xattr_no_access | key_value_document_not_locked
  | key_value_cannot_revive_living_document | key_value_mutation_token_outdated
  | key_value_range_scan_completed

primrec key_value_value :: "key_value_errc \<Rightarrow> int" where
  "key_value_value key_value_document_not_found = 101"
| "key_value_value key_value_document_irretrievable = 102"
| "key_value_value key_value_document_locked = 103"
| "key_value_value key_value_value_too_large = 104"
| "key_value_value key_value_document_exists = 105"
| "key_value_value key_value_durability_level_not_available = 107"
| "key_value_value key_value_durability_impossible = 108"
| "key_value_value key_value_durability_ambiguous = 109"
| "key_value_value key_value_durable_write_in_progress = 110"
| "key_value_value key_value_durable_write_re_commit_in_progress = 111"
| "key_value_value key_value_path_not_found = 113"
| "key_value_value key_value_path_mismatch = 114"
| "key_value_value key_value_path_invalid = 115"
| "key_value_value key_value_path_too_big = 116"
| "key_value_value key_value_path_too_deep = 117"
| "key_value_value key_value_value_too_deep = 118"
| "key_value_value key_value_value_invalid = 119"
| "key_value_value key_value_document_not_json = 120"
| "key_value_value key_value_number_too_big = 121"
| "key_value_value key_value_delta_invalid = 122"
| "key_value_value key_value_path_exists = 123"
| "key_value_value key_value_xattr_unknown_macro = 124"
| "key_value_value key_value_xattr_invalid_key_combo = 126"
| "key_value_value key_value_xattr_unknown_virtual_attribute = 127"
| "key_value_value key_value_xattr_cannot_modify_virtual_attribute = 128"
| "key_value_value key_value_xattr_no_access = 130"
| "key_value_value key_value_document_not_locked = 131"
| "key_value_value key_value_cannot_revive_living_document = 132"
| "key_value_value key_value_mutation_token_outdated = 133"
| "key_value_value key_value_range_scan_completed = 134"

datatype query_errc =
  query_planning_failure | query_index_failure | query_prepared_statement_failure
  | query_dml_failure

primrec query_value :: "query_errc \<Rightarrow> int" where
  "query_value query_planning_failure = 201"
| "query_value query_index_failure = 202"
| "query_value query_prepared_statement_failure = 203"
| "query_value query_dml_failure = 204"

datatype analytics_errc =
  analytics_compilation_failure | analytics_job_queue_full | analytics_dataset_not_found
  | analytics_dataverse_not_found | analytics_dataset_exists | analytics_dataverse_exists
  | analytics_link_not_found | analytics_link_exists

primrec analytics_value :: "analytics_errc \<Rightarrow> int" where
  "analytics_value analytics_compilation_failure = 301"
| "analytics_value analytics_job_queue_full = 302"
| "analytics_value analytics_dataset_not_found = 303"
| "analytics_value analytics_dataverse_not_found = 304"
| "analytics_value analytics_dataset_exists = 305"
| "analytics_value analytics_dataverse_exists = 306"
| "analytics_value analytics_link_not_found = 307"
| "analytics_value analytics_link_exists = 308"

datatype search_errc =
  search_index_not_ready | search_consistency_mismatch

primrec search_value :: "search_errc \<Rightarrow> int" where
  "search_value search_index_not_ready = 401"
| "search_value search_consistency_mismatch = 402"

datatype view_errc =
  view_view_not_found | view_design_document_not_found

primrec view_value :: "view_errc \<Rightarrow> int" where
  "view_value view_view_not_found = 501"
| "view_value view_design_document_not_found = 502"

datatype management_errc =
  management_collection_exists | management_scope_exists | management_user_not_found
  | management_group_not_found | management_bucket_exists | management_user_exists
  | management_bucket_not_flushable | management_eventing_function_not_found
  | management_eventing_function_not_deployed | management_eventing_function_compilation_failure
  | management_eventing_function_identical_keyspace
  | management_eventing_function_not_bootstrapped | management_eventing_function_deployed
  | management_eventing_function_paused

primrec management_value :: "management_errc \<Rightarrow> int" where
  "management_value management_collection_exists = 601"
| "management_value management_scope_exists = 602"
| "management_value management_user_not_found = 603"
| "management_value management_group_not_found = 604"
| "management_value management_bucket_exists = 605"
| "management_value management_user_exists = 606"
| "management_value management_bucket_not_flushable = 607"
| "management_value management_eventing_function_not_found = 608"
| "management_value management_eventing_function_not_deployed = 609"
| "management_value management_eventing_function_compilation_failure = 610"
| "management_value management_eventing_function_identical_keyspace = 611"
| "management_value management_eventing_function_not_bootstrapped = 612"
| "management_value management_eventing_function_deployed = 613"
| "management_value management_eventing_function_paused = 614"

datatype network_errc =
  network_resolve_failure | network_no_endpoints_left | network_handshake_failure
  | network_protocol_error | network_configuration_not_available | network_cluster_closed
  | network_end_of_stream | network_need_more_data | network_operation_queue_closed
  | network_operation_queue_full | network_request_already_queued | network_request_cancelled
  | network_bucket_closed

primrec network_value :: "network_errc \<Rightarrow> int" where
  "network_value network_resolve_failure = 1001"
| "network_value network_no_endpoints_left = 1002"
| "network_value network_handshake_failure = 1003"
| "network_value network_protocol_error = 1004"
| "network_value network_configuration_not_available = 1005"
| "network_value network_cluster_closed = 1006"
| "network_value network_end_of_stream = 1007"
| "network_value network_need_more_data = 1008"
| "network_value network_operation_queue_closed = 1009"
| "network_value network_operation_queue_full = 1010"
| "network_value network_request_already_queued = 1011"
| "network_value network_request_cancelled = 1012"
| "network_value network_bucket_closed = 1013"

datatype streaming_json_lexer_errc =
  streaming_json_lexer_garbage_trailing | streaming_json_lexer_special_expected
  | streaming_json_lexer_special_incomplete | streaming_json_lexer_stray_token
  | streaming_json_lexer_missing_token | streaming_json_lexer_cannot_insert
  | streaming_json_lexer_escape_outside_string | streaming_json_lexer_key_outside_object
  | streaming_json_lexer_string_outside_container | streaming_json_lexer_found_null_byte
  | streaming_json_lexer_levels_exceeded | streaming_json_lexer_bracket_mismatch
  | streaming_json_lexer_object_key_expected | streaming_json_lexer_weird_whitespace
  | streaming_json_lexer_unicode_escape_is_too_short | streaming_json_lexer_escape_invalid
  | streaming_json_lexer_trailing_comma | streaming_json_lexer_invalid_number
  | streaming_json_lexer_value_expected | streaming_json_lexer_percent_bad_hex
  | streaming_json_lexer_json_pointer_bad_path
  | streaming_json_lexer_json_pointer_duplicated_slash
  | streaming_json_lexer_json_pointer_missing_root | streaming_json_lexer_not_enough_memory
  | streaming_json_lexer_invalid_codepoint | streaming_json_lexer_generic
  | streaming_json_lexer_root_is_not_an_object
  | streaming_json_lexer_root_does_not_match_json_pointer

primrec streaming_json_lexer_value :: "streaming_json_lexer_errc \<Rightarrow> int" where
  "streaming_json_lexer_value streaming_json_lexer_garbage_trailing = 1101"
| "streaming_json_lexer_value streaming_json_lexer_special_expected = 1102"
| "streaming_json_lexer_value streaming_json_lexer_special_incomplete = 1103"
| "streaming_json_lexer_value streaming_json_lexer_stray_token = 1104"
| "streaming_json_lexer_value streaming_json_lexer_missing_token = 1105"
| "streaming_json_lexer_value streaming_json_lexer_cannot_insert = 1106"
| "streaming_json_lexer_value streaming_json_lexer_escape_outside_string = 1107"
| "streaming_json_lexer_value streaming_json_lexer_key_outside_object = 1108"
| "streaming_json_lexer_value streaming_json_lexer_string_outside_container = 1109"
| "streaming_json_lexer_value streaming_json_lexer_found_null_byte = 1110"
| "streaming_json_lexer_value streaming_json_lexer_levels_exceeded = 1111"
| "streaming_json_lexer_value streaming_json_lexer_bracket_mismatch = 1112"
| "streaming_json_lexer_value streaming_json_lexer_object_key_expected = 1113"
| "streaming_json_lexer_value streaming_json_lexer_weird_whitespace = 1114"
| "streaming_json_lexer_value streaming_json_lexer_unicode_escape_is_too_short = 1115"
| "streaming_json_lexer_value streaming_json_lexer_escape_invalid = 1116"
| "streaming_json_lexer_value streaming_json_lexer_trailing_comma = 1117"
| "streaming_json_lexer_value streaming_json_lexer_invalid_number = 1118"
| "streaming_json_lexer_value streaming_json_lexer_value_expected = 1119"
| "streaming_json_lexer_value streaming_json_lexer_percent_bad_hex = 1120"
| "streaming_json_lexer_value streaming_json_lexer_json_pointer_bad_path = 1121"
| "streaming_json_lexer_value streaming_json_lexer_json_pointer_duplicated_slash = 1122"
| "streaming_json_lexer_value streaming_json_lexer_json_pointer_missing_root = 1123"
| "streaming_json_lexer_value streaming_json_lexer_not_enough_memory = 1124"
| "streaming_json_lexer_value streaming_json_lexer_invalid_codepoint = 1125"
| "streaming_json_lexer_value streaming_json_lexer_generic = 1126"
| "streaming_json_lexer_value streaming_json_lexer_root_is_not_an_object = 1127"
| "streaming_json_lexer_value streaming_json_lexer_root_does_not_match_json_pointer = 1128"

datatype transaction_errc =
  transaction_failed | transaction_expired | transaction_failed_post_commit
  | transaction_ambiguous

primrec transaction_value :: "transaction_errc \<Rightarrow> int" where
  "transaction_value transaction_failed = 1200"
| "transaction_value transaction_expired = 1201"
| "transaction_value transaction_failed_post_commit = 1202"
| "transaction_value transaction_ambiguous = 1203"

datatype transaction_op_errc =
  transaction_op_generic | transaction_op_active_transaction_record_entry_not_found
  | transaction_op_active_transaction_record_full
  | transaction_op_active_transaction_record_not_found
  | transaction_op_document_already_in_transaction | transaction_op_document_exists
  | transaction_op_document_not_found | transaction_op_feature_not_available
  | transaction_op_transaction_aborted_externally | transaction_op_previous_operation_failed
  | transaction_op_forward_compatibility_failure | transaction_op_parsing_failure
  | transaction_op_illegal_state | transaction_op_service_not_available
  | transaction_op_request_canceled
  | transaction_op_concurrent_operations_detected_on_same_document
  | transaction_op_commit_not_permitted | transaction_op_rollback_not_permitted
  | transaction_op_transaction_already_aborted | transaction_op_transaction_already_committed
  | transaction_op_document_unretrievable | transaction_op_transaction_op_failed

primrec transaction_op_value :: "transaction_op_errc \<Rightarrow> int" where
  "transaction_op_value transaction_op_generic = 1300"
| "transaction_op_value transaction_op_active_transaction_record_entry_not_found = 1301"
| "transaction_op_value transaction_op_active_transaction_record_full = 1302"
| "transaction_op_value transaction_op_active_transaction_record_not_found = 1303"
| "transaction_op_value transaction_op_document_already_in_transaction = 1304"
| "transaction_op_value transaction_op_document_exists = 1305"
| "transaction_op_value transaction_op_document_not_found = 1306"
| "transaction_op_value transaction_op_feature_not_available = 1307"
| "transaction_op_value transaction_op_transaction_aborted_externally = 1308"
| "transaction_op_value transaction_op_previous_operation_failed = 1309"
| "transaction_op_value transaction_op_forward_compatibility_failure = 1310"
| "transaction_op_value transaction_op_parsing_failure = 1311"
| "transaction_op_value transaction_op_illegal_state = 1312"
| "transaction_op_value transaction_op_service_not_available = 1313"
| "transaction_op_value transaction_op_request_canceled = 1314"
| "transaction_op_value transaction_op_concurrent_operations_detected_on_same_document = 1315"
| "transaction_op_value transaction_op_commit_not_permitted = 1316"
| "transaction_op_value transaction_op_rollback_not_permitted = 1317"
| "transaction_op_value transaction_op_transaction_already_aborted = 1318"
| "transaction_op_value transaction_op_transaction_already_committed = 1319"
| "transaction_op_value transaction_op_document_unretrievable = 1320"
| "transaction_op_value transaction_op_transaction_op_failed = 1399"

datatype field_level_encryption_errc =
  field_level_encryption_generic_cryptography_failure | field_level_encryption_encryption_failure
  | field_level_encryption_decryption_failure | field_level_encryption_crypto_key_not_found
  | field_level_encryption_invalid_crypto_key | field_level_encryption_decrypter_not_found
  | field_level_encryption_encrypter_not_found | field_level_encryption_invalid_ciphertext

primrec field_level_encryption_value :: "field_level_encryption_errc \<Rightarrow> int" where
  "field_level_encryption_value field_level_encryption_generic_cryptography_failure = 700"
| "field_level_encryption_value field_level_encryption_encryption_failure = 701"
| "field_level_encryption_value field_level_encryption_decryption_failure = 702"
| "field_level_encryption_value field_level_encryption_crypto_key_not_found = 703"
| "field_level_encryption_value field_level_encryption_invalid_crypto_key = 704"
| "field_level_encryption_value field_level_encryption_decrypter_not_found = 705"
| "field_level_encryption_value field_level_encryption_encrypter_not_found = 706"
| "field_level_encryption_value field_level_encryption_invalid_ciphertext = 707"

datatype errc =
    errc_common common_errc
  | errc_key_value key_value_errc
  | errc_query query_errc
  | errc_analytics analytics_errc
  | errc_search search_errc
  | errc_view view_errc
  | errc_management management_errc
  | errc_network network_errc
  | errc_streaming_json_lexer streaming_json_lexer_errc
  | errc_transaction transaction_errc
  | errc_transaction_op transaction_op_errc
  | errc_field_level_encryption field_level_encryption_errc

text \<open>\<^verbatim>\<open>make_error_code\<close>: the value and the category, which is the constructor.\<close>

primrec errc_value :: "errc \<Rightarrow> int" where
  "errc_value (errc_common e) = common_value e"
| "errc_value (errc_key_value e) = key_value_value e"
| "errc_value (errc_query e) = query_value e"
| "errc_value (errc_analytics e) = analytics_value e"
| "errc_value (errc_search e) = search_value e"
| "errc_value (errc_view e) = view_value e"
| "errc_value (errc_management e) = management_value e"
| "errc_value (errc_network e) = network_value e"
| "errc_value (errc_streaming_json_lexer e) = streaming_json_lexer_value e"
| "errc_value (errc_transaction e) = transaction_value e"
| "errc_value (errc_transaction_op e) = transaction_op_value e"
| "errc_value (errc_field_level_encryption e) = field_level_encryption_value e"

end
