(* ===== verification/Protocol.thy ===== *)
theory Protocol
  imports Errors
begin

text \<open>
  The vocabulary of the key-value protocol: the enumerations of \<^verbatim>\<open>core/protocol\<close> and
  \<^verbatim>\<open>core/mcbp\<close>, their validity tests, and the mapping of response statuses to error codes.
  A C++ enumeration with a fixed underlying type holds every value of that type, and the codec
  casts raw bytes to enumerations; an enumeration is therefore the word type, its enumerators are
  abbreviations for their values, and its list of enumerators is a definition.
\<close>

type_synonym magic = byte
type_synonym client_opcode = byte
type_synonym subdoc_opcode = byte
type_synonym key_value_status_code = u16
type_synonym hello_feature = u16
type_synonym frame_type = byte
type_synonym durability_level = byte

subsection \<open>Magic bytes\<close>

abbreviation (input) magic_invalid :: magic where "magic_invalid \<equiv> 0x00"
abbreviation (input) magic_client_request :: magic where "magic_client_request \<equiv> 0x80"
abbreviation (input) magic_alt_client_request :: magic where "magic_alt_client_request \<equiv> 0x08"
abbreviation (input) magic_client_response :: magic where "magic_client_response \<equiv> 0x81"
abbreviation (input) magic_alt_client_response :: magic where "magic_alt_client_response \<equiv> 0x18"
abbreviation (input) magic_server_request :: magic where "magic_server_request \<equiv> 0x82"
abbreviation (input) magic_server_response :: magic where "magic_server_response \<equiv> 0x83"

definition magics :: "magic list" where
  "magics = [
     magic_invalid, magic_client_request, magic_alt_client_request, magic_client_response,
     magic_alt_client_response, magic_server_request, magic_server_response]"

definition is_valid_magic :: "byte \<Rightarrow> bool" where
  "is_valid_magic code \<longleftrightarrow> code \<in> set [
     magic_client_request, magic_alt_client_request, magic_client_response,
     magic_alt_client_response, magic_server_request, magic_server_response]"

subsection \<open>Operation codes\<close>

abbreviation (input) opcode_get :: client_opcode where "opcode_get \<equiv> 0x00"
abbreviation (input) opcode_upsert :: client_opcode where "opcode_upsert \<equiv> 0x01"
abbreviation (input) opcode_insert :: client_opcode where "opcode_insert \<equiv> 0x02"
abbreviation (input) opcode_replace :: client_opcode where "opcode_replace \<equiv> 0x03"
abbreviation (input) opcode_remove :: client_opcode where "opcode_remove \<equiv> 0x04"
abbreviation (input) opcode_increment :: client_opcode where "opcode_increment \<equiv> 0x05"
abbreviation (input) opcode_decrement :: client_opcode where "opcode_decrement \<equiv> 0x06"
abbreviation (input) opcode_noop :: client_opcode where "opcode_noop \<equiv> 0x0a"
abbreviation (input) opcode_version :: client_opcode where "opcode_version \<equiv> 0x0b"
abbreviation (input) opcode_append :: client_opcode where "opcode_append \<equiv> 0x0e"
abbreviation (input) opcode_prepend :: client_opcode where "opcode_prepend \<equiv> 0x0f"
abbreviation (input) opcode_stat :: client_opcode where "opcode_stat \<equiv> 0x10"
abbreviation (input) opcode_verbosity :: client_opcode where "opcode_verbosity \<equiv> 0x1b"
abbreviation (input) opcode_touch :: client_opcode where "opcode_touch \<equiv> 0x1c"
abbreviation (input) opcode_get_and_touch :: client_opcode where "opcode_get_and_touch \<equiv> 0x1d"
abbreviation (input) opcode_hello :: client_opcode where "opcode_hello \<equiv> 0x1f"
abbreviation (input) opcode_sasl_list_mechs :: client_opcode where "opcode_sasl_list_mechs \<equiv> 0x20"
abbreviation (input) opcode_sasl_auth :: client_opcode where "opcode_sasl_auth \<equiv> 0x21"
abbreviation (input) opcode_sasl_step :: client_opcode where "opcode_sasl_step \<equiv> 0x22"
abbreviation (input) opcode_get_all_vbucket_seqnos :: client_opcode where "opcode_get_all_vbucket_seqnos \<equiv> 0x48"
abbreviation (input) opcode_dcp_open :: client_opcode where "opcode_dcp_open \<equiv> 0x50"
abbreviation (input) opcode_dcp_add_stream :: client_opcode where "opcode_dcp_add_stream \<equiv> 0x51"
abbreviation (input) opcode_dcp_close_stream :: client_opcode where "opcode_dcp_close_stream \<equiv> 0x52"
abbreviation (input) opcode_dcp_stream_request :: client_opcode where "opcode_dcp_stream_request \<equiv> 0x53"
abbreviation (input) opcode_dcp_get_failover_log :: client_opcode where "opcode_dcp_get_failover_log \<equiv> 0x54"
abbreviation (input) opcode_dcp_stream_end :: client_opcode where "opcode_dcp_stream_end \<equiv> 0x55"
abbreviation (input) opcode_dcp_snapshot_marker :: client_opcode where "opcode_dcp_snapshot_marker \<equiv> 0x56"
abbreviation (input) opcode_dcp_mutation :: client_opcode where "opcode_dcp_mutation \<equiv> 0x57"
abbreviation (input) opcode_dcp_deletion :: client_opcode where "opcode_dcp_deletion \<equiv> 0x58"
abbreviation (input) opcode_dcp_expiration :: client_opcode where "opcode_dcp_expiration \<equiv> 0x59"
abbreviation (input) opcode_dcp_set_vbucket_state :: client_opcode where "opcode_dcp_set_vbucket_state \<equiv> 0x5b"
abbreviation (input) opcode_dcp_noop :: client_opcode where "opcode_dcp_noop \<equiv> 0x5c"
abbreviation (input) opcode_dcp_buffer_acknowledgement :: client_opcode where "opcode_dcp_buffer_acknowledgement \<equiv> 0x5d"
abbreviation (input) opcode_dcp_control :: client_opcode where "opcode_dcp_control \<equiv> 0x5e"
abbreviation (input) opcode_dcp_system_event :: client_opcode where "opcode_dcp_system_event \<equiv> 0x5f"
abbreviation (input) opcode_dcp_prepare :: client_opcode where "opcode_dcp_prepare \<equiv> 0x60"
abbreviation (input) opcode_dcp_seqno_acknowledged :: client_opcode where "opcode_dcp_seqno_acknowledged \<equiv> 0x61"
abbreviation (input) opcode_dcp_commit :: client_opcode where "opcode_dcp_commit \<equiv> 0x62"
abbreviation (input) opcode_dcp_abort :: client_opcode where "opcode_dcp_abort \<equiv> 0x63"
abbreviation (input) opcode_dcp_seqno_advanced :: client_opcode where "opcode_dcp_seqno_advanced \<equiv> 0x64"
abbreviation (input) opcode_dcp_oso_snapshot :: client_opcode where "opcode_dcp_oso_snapshot \<equiv> 0x65"
abbreviation (input) opcode_get_replica :: client_opcode where "opcode_get_replica \<equiv> 0x83"
abbreviation (input) opcode_list_buckets :: client_opcode where "opcode_list_buckets \<equiv> 0x87"
abbreviation (input) opcode_select_bucket :: client_opcode where "opcode_select_bucket \<equiv> 0x89"
abbreviation (input) opcode_observe_seqno :: client_opcode where "opcode_observe_seqno \<equiv> 0x91"
abbreviation (input) opcode_observe :: client_opcode where "opcode_observe \<equiv> 0x92"
abbreviation (input) opcode_evict_key :: client_opcode where "opcode_evict_key \<equiv> 0x93"
abbreviation (input) opcode_get_and_lock :: client_opcode where "opcode_get_and_lock \<equiv> 0x94"
abbreviation (input) opcode_unlock :: client_opcode where "opcode_unlock \<equiv> 0x95"
abbreviation (input) opcode_get_failover_log :: client_opcode where "opcode_get_failover_log \<equiv> 0x96"
abbreviation (input) opcode_last_closed_checkpoint :: client_opcode where "opcode_last_closed_checkpoint \<equiv> 0x97"
abbreviation (input) opcode_get_meta :: client_opcode where "opcode_get_meta \<equiv> 0xa0"
abbreviation (input) opcode_upsert_with_meta :: client_opcode where "opcode_upsert_with_meta \<equiv> 0xa2"
abbreviation (input) opcode_insert_with_meta :: client_opcode where "opcode_insert_with_meta \<equiv> 0xa4"
abbreviation (input) opcode_remove_with_meta :: client_opcode where "opcode_remove_with_meta \<equiv> 0xa8"
abbreviation (input) opcode_create_checkpoint :: client_opcode where "opcode_create_checkpoint \<equiv> 0xaa"
abbreviation (input) opcode_checkpoint_persistence :: client_opcode where "opcode_checkpoint_persistence \<equiv> 0xb1"
abbreviation (input) opcode_return_meta :: client_opcode where "opcode_return_meta \<equiv> 0xb2"
abbreviation (input) opcode_get_random_key :: client_opcode where "opcode_get_random_key \<equiv> 0xb6"
abbreviation (input) opcode_seqno_persistence :: client_opcode where "opcode_seqno_persistence \<equiv> 0xb7"
abbreviation (input) opcode_get_keys :: client_opcode where "opcode_get_keys \<equiv> 0xb8"
abbreviation (input) opcode_set_collections_manifest :: client_opcode where "opcode_set_collections_manifest \<equiv> 0xb9"
abbreviation (input) opcode_get_collections_manifest :: client_opcode where "opcode_get_collections_manifest \<equiv> 0xba"
abbreviation (input) opcode_get_collection_id :: client_opcode where "opcode_get_collection_id \<equiv> 0xbb"
abbreviation (input) opcode_get_scope_id :: client_opcode where "opcode_get_scope_id \<equiv> 0xbc"
abbreviation (input) opcode_subdoc_multi_lookup :: client_opcode where "opcode_subdoc_multi_lookup \<equiv> 0xd0"
abbreviation (input) opcode_subdoc_multi_mutation :: client_opcode where "opcode_subdoc_multi_mutation \<equiv> 0xd1"
abbreviation (input) opcode_get_cluster_config :: client_opcode where "opcode_get_cluster_config \<equiv> 0xb5"
abbreviation (input) opcode_get_error_map :: client_opcode where "opcode_get_error_map \<equiv> 0xfe"
abbreviation (input) opcode_range_scan_create :: client_opcode where "opcode_range_scan_create \<equiv> 0xda"
abbreviation (input) opcode_range_scan_continue :: client_opcode where "opcode_range_scan_continue \<equiv> 0xdb"
abbreviation (input) opcode_range_scan_cancel :: client_opcode where "opcode_range_scan_cancel \<equiv> 0xdc"
abbreviation (input) opcode_invalid :: client_opcode where "opcode_invalid \<equiv> 0xff"

definition client_opcodes :: "client_opcode list" where
  "client_opcodes = [
     opcode_get, opcode_upsert, opcode_insert, opcode_replace, opcode_remove, opcode_increment,
     opcode_decrement, opcode_noop, opcode_version, opcode_append, opcode_prepend, opcode_stat,
     opcode_verbosity, opcode_touch, opcode_get_and_touch, opcode_hello, opcode_sasl_list_mechs,
     opcode_sasl_auth, opcode_sasl_step, opcode_get_all_vbucket_seqnos, opcode_dcp_open,
     opcode_dcp_add_stream, opcode_dcp_close_stream, opcode_dcp_stream_request,
     opcode_dcp_get_failover_log, opcode_dcp_stream_end, opcode_dcp_snapshot_marker,
     opcode_dcp_mutation, opcode_dcp_deletion, opcode_dcp_expiration,
     opcode_dcp_set_vbucket_state, opcode_dcp_noop, opcode_dcp_buffer_acknowledgement,
     opcode_dcp_control, opcode_dcp_system_event, opcode_dcp_prepare,
     opcode_dcp_seqno_acknowledged, opcode_dcp_commit, opcode_dcp_abort,
     opcode_dcp_seqno_advanced, opcode_dcp_oso_snapshot, opcode_get_replica, opcode_list_buckets,
     opcode_select_bucket, opcode_observe_seqno, opcode_observe, opcode_evict_key,
     opcode_get_and_lock, opcode_unlock, opcode_get_failover_log, opcode_last_closed_checkpoint,
     opcode_get_meta, opcode_upsert_with_meta, opcode_insert_with_meta, opcode_remove_with_meta,
     opcode_create_checkpoint, opcode_checkpoint_persistence, opcode_return_meta,
     opcode_get_random_key, opcode_seqno_persistence, opcode_get_keys,
     opcode_set_collections_manifest, opcode_get_collections_manifest, opcode_get_collection_id,
     opcode_get_scope_id, opcode_subdoc_multi_lookup, opcode_subdoc_multi_mutation,
     opcode_get_cluster_config, opcode_get_error_map, opcode_range_scan_create,
     opcode_range_scan_continue, opcode_range_scan_cancel, opcode_invalid]"

abbreviation (input) subdoc_get_doc :: subdoc_opcode where "subdoc_get_doc \<equiv> 0x00"
abbreviation (input) subdoc_set_doc :: subdoc_opcode where "subdoc_set_doc \<equiv> 0x01"
abbreviation (input) subdoc_remove_doc :: subdoc_opcode where "subdoc_remove_doc \<equiv> 0x04"
abbreviation (input) subdoc_get :: subdoc_opcode where "subdoc_get \<equiv> 0xc5"
abbreviation (input) subdoc_exists :: subdoc_opcode where "subdoc_exists \<equiv> 0xc6"
abbreviation (input) subdoc_dict_add :: subdoc_opcode where "subdoc_dict_add \<equiv> 0xc7"
abbreviation (input) subdoc_dict_upsert :: subdoc_opcode where "subdoc_dict_upsert \<equiv> 0xc8"
abbreviation (input) subdoc_remove :: subdoc_opcode where "subdoc_remove \<equiv> 0xc9"
abbreviation (input) subdoc_replace :: subdoc_opcode where "subdoc_replace \<equiv> 0xca"
abbreviation (input) subdoc_array_push_last :: subdoc_opcode where "subdoc_array_push_last \<equiv> 0xcb"
abbreviation (input) subdoc_array_push_first :: subdoc_opcode where "subdoc_array_push_first \<equiv> 0xcc"
abbreviation (input) subdoc_array_insert :: subdoc_opcode where "subdoc_array_insert \<equiv> 0xcd"
abbreviation (input) subdoc_array_add_unique :: subdoc_opcode where "subdoc_array_add_unique \<equiv> 0xce"
abbreviation (input) subdoc_counter :: subdoc_opcode where "subdoc_counter \<equiv> 0xcf"
abbreviation (input) subdoc_get_count :: subdoc_opcode where "subdoc_get_count \<equiv> 0xd2"
abbreviation (input) subdoc_replace_body_with_xattr :: subdoc_opcode where "subdoc_replace_body_with_xattr \<equiv> 0xd3"

definition subdoc_opcodes :: "subdoc_opcode list" where
  "subdoc_opcodes = [
     subdoc_get_doc, subdoc_set_doc, subdoc_remove_doc, subdoc_get, subdoc_exists,
     subdoc_dict_add, subdoc_dict_upsert, subdoc_remove, subdoc_replace, subdoc_array_push_last,
     subdoc_array_push_first, subdoc_array_insert, subdoc_array_add_unique, subdoc_counter,
     subdoc_get_count, subdoc_replace_body_with_xattr]"

definition is_valid_client_opcode :: "byte \<Rightarrow> bool" where
  "is_valid_client_opcode code \<longleftrightarrow> code \<in> set [
     opcode_get, opcode_upsert, opcode_insert, opcode_replace, opcode_remove, opcode_hello,
     opcode_sasl_list_mechs, opcode_sasl_auth, opcode_sasl_step, opcode_select_bucket,
     opcode_subdoc_multi_lookup, opcode_subdoc_multi_mutation, opcode_get_cluster_config,
     opcode_get_error_map, opcode_invalid, opcode_get_collections_manifest, opcode_touch,
     opcode_observe, opcode_get_and_lock, opcode_unlock, opcode_get_and_touch, opcode_increment,
     opcode_decrement, opcode_get_collection_id, opcode_noop, opcode_version, opcode_append,
     opcode_prepend, opcode_stat, opcode_verbosity, opcode_get_all_vbucket_seqnos,
     opcode_dcp_open, opcode_dcp_add_stream, opcode_dcp_close_stream, opcode_dcp_stream_request,
     opcode_dcp_get_failover_log, opcode_dcp_stream_end, opcode_dcp_snapshot_marker,
     opcode_dcp_mutation, opcode_dcp_deletion, opcode_dcp_expiration,
     opcode_dcp_set_vbucket_state, opcode_dcp_noop, opcode_dcp_buffer_acknowledgement,
     opcode_dcp_control, opcode_dcp_system_event, opcode_dcp_prepare,
     opcode_dcp_seqno_acknowledged, opcode_dcp_commit, opcode_dcp_abort,
     opcode_dcp_seqno_advanced, opcode_dcp_oso_snapshot, opcode_get_replica, opcode_list_buckets,
     opcode_observe_seqno, opcode_evict_key, opcode_get_failover_log,
     opcode_last_closed_checkpoint, opcode_get_meta, opcode_upsert_with_meta,
     opcode_insert_with_meta, opcode_remove_with_meta, opcode_create_checkpoint,
     opcode_checkpoint_persistence, opcode_return_meta, opcode_get_random_key,
     opcode_seqno_persistence, opcode_get_keys, opcode_set_collections_manifest,
     opcode_get_scope_id, opcode_range_scan_create, opcode_range_scan_continue,
     opcode_range_scan_cancel]"

definition is_valid_subdoc_opcode :: "byte \<Rightarrow> bool" where
  "is_valid_subdoc_opcode code \<longleftrightarrow> code \<in> set [
     subdoc_get, subdoc_exists, subdoc_dict_add, subdoc_dict_upsert, subdoc_remove,
     subdoc_replace, subdoc_array_push_last, subdoc_array_push_first, subdoc_array_insert,
     subdoc_array_add_unique, subdoc_counter, subdoc_get_count, subdoc_get_doc, subdoc_set_doc,
     subdoc_remove_doc, subdoc_replace_body_with_xattr]"

definition is_idempotent :: "client_opcode \<Rightarrow> bool" where
  "is_idempotent opcode \<longleftrightarrow> opcode \<in> set [
     opcode_get, opcode_noop, opcode_get_replica, opcode_observe_seqno, opcode_observe,
     opcode_get_meta, opcode_stat, opcode_get_cluster_config, opcode_get_random_key,
     opcode_get_collections_manifest, opcode_get_collection_id, opcode_subdoc_multi_lookup]"

definition supports_collection_id :: "client_opcode \<Rightarrow> bool" where
  "supports_collection_id command \<longleftrightarrow> command \<in> set [
     opcode_get, opcode_upsert, opcode_insert, opcode_replace, opcode_remove, opcode_increment,
     opcode_decrement, opcode_append, opcode_prepend, opcode_touch, opcode_get_and_touch,
     opcode_dcp_mutation, opcode_dcp_deletion, opcode_dcp_expiration, opcode_get_replica,
     opcode_get_and_lock, opcode_unlock, opcode_get_meta, opcode_upsert_with_meta,
     opcode_remove_with_meta, opcode_subdoc_multi_lookup, opcode_subdoc_multi_mutation]"

subsection \<open>Features negotiated by HELLO\<close>

abbreviation (input) feature_tls :: hello_feature where "feature_tls \<equiv> 0x02"
abbreviation (input) feature_tcp_nodelay :: hello_feature where "feature_tcp_nodelay \<equiv> 0x03"
abbreviation (input) feature_mutation_seqno :: hello_feature where "feature_mutation_seqno \<equiv> 0x04"
abbreviation (input) feature_tcp_delay :: hello_feature where "feature_tcp_delay \<equiv> 0x05"
abbreviation (input) feature_xattr :: hello_feature where "feature_xattr \<equiv> 0x06"
abbreviation (input) feature_xerror :: hello_feature where "feature_xerror \<equiv> 0x07"
abbreviation (input) feature_select_bucket :: hello_feature where "feature_select_bucket \<equiv> 0x08"
abbreviation (input) feature_snappy :: hello_feature where "feature_snappy \<equiv> 0x0a"
abbreviation (input) feature_json :: hello_feature where "feature_json \<equiv> 0x0b"
abbreviation (input) feature_duplex :: hello_feature where "feature_duplex \<equiv> 0x0c"
abbreviation (input) feature_clustermap_change_notification :: hello_feature where "feature_clustermap_change_notification \<equiv> 0x0d"
abbreviation (input) feature_unordered_execution :: hello_feature where "feature_unordered_execution \<equiv> 0x0e"
abbreviation (input) feature_tracing :: hello_feature where "feature_tracing \<equiv> 0x0f"
abbreviation (input) feature_alt_request_support :: hello_feature where "feature_alt_request_support \<equiv> 0x10"
abbreviation (input) feature_sync_replication :: hello_feature where "feature_sync_replication \<equiv> 0x11"
abbreviation (input) feature_collections :: hello_feature where "feature_collections \<equiv> 0x12"
abbreviation (input) feature_open_tracing :: hello_feature where "feature_open_tracing \<equiv> 0x13"
abbreviation (input) feature_preserve_ttl :: hello_feature where "feature_preserve_ttl \<equiv> 0x14"
abbreviation (input) feature_vattr :: hello_feature where "feature_vattr \<equiv> 0x15"
abbreviation (input) feature_point_in_time_recovery :: hello_feature where "feature_point_in_time_recovery \<equiv> 0x16"
abbreviation (input) feature_subdoc_create_as_deleted :: hello_feature where "feature_subdoc_create_as_deleted \<equiv> 0x17"
abbreviation (input) feature_subdoc_document_macro_support :: hello_feature where "feature_subdoc_document_macro_support \<equiv> 0x18"
abbreviation (input) feature_replace_body_with_xattr :: hello_feature where "feature_replace_body_with_xattr \<equiv> 0x19"
abbreviation (input) feature_resource_units :: hello_feature where "feature_resource_units \<equiv> 0x1a"
abbreviation (input) feature_subdoc_replica_read :: hello_feature where "feature_subdoc_replica_read \<equiv> 0x1c"
abbreviation (input) feature_deduplicate_not_my_vbucket_clustermap :: hello_feature where "feature_deduplicate_not_my_vbucket_clustermap \<equiv> 0x1e"
abbreviation (input) feature_subdoc_binary_xattr :: hello_feature where "feature_subdoc_binary_xattr \<equiv> 0x21"

definition hello_features :: "hello_feature list" where
  "hello_features = [
     feature_tls, feature_tcp_nodelay, feature_mutation_seqno, feature_tcp_delay, feature_xattr,
     feature_xerror, feature_select_bucket, feature_snappy, feature_json, feature_duplex,
     feature_clustermap_change_notification, feature_unordered_execution, feature_tracing,
     feature_alt_request_support, feature_sync_replication, feature_collections,
     feature_open_tracing, feature_preserve_ttl, feature_vattr, feature_point_in_time_recovery,
     feature_subdoc_create_as_deleted, feature_subdoc_document_macro_support,
     feature_replace_body_with_xattr, feature_resource_units, feature_subdoc_replica_read,
     feature_deduplicate_not_my_vbucket_clustermap, feature_subdoc_binary_xattr]"

definition is_valid_hello_feature :: "u16 \<Rightarrow> bool" where
  "is_valid_hello_feature code \<longleftrightarrow> code \<in> set [
     feature_tls, feature_tcp_nodelay, feature_mutation_seqno, feature_xattr, feature_xerror,
     feature_select_bucket, feature_snappy, feature_json, feature_duplex,
     feature_clustermap_change_notification, feature_unordered_execution,
     feature_alt_request_support, feature_sync_replication, feature_vattr, feature_collections,
     feature_open_tracing, feature_preserve_ttl, feature_point_in_time_recovery,
     feature_tcp_delay, feature_tracing, feature_subdoc_create_as_deleted,
     feature_subdoc_document_macro_support, feature_replace_body_with_xattr,
     feature_resource_units, feature_subdoc_replica_read,
     feature_deduplicate_not_my_vbucket_clustermap, feature_subdoc_binary_xattr]"

subsection \<open>Response statuses\<close>

abbreviation (input) status_success :: key_value_status_code where "status_success \<equiv> 0x00"
abbreviation (input) status_not_found :: key_value_status_code where "status_not_found \<equiv> 0x01"
abbreviation (input) status_exists :: key_value_status_code where "status_exists \<equiv> 0x02"
abbreviation (input) status_too_big :: key_value_status_code where "status_too_big \<equiv> 0x03"
abbreviation (input) status_invalid :: key_value_status_code where "status_invalid \<equiv> 0x04"
abbreviation (input) status_not_stored :: key_value_status_code where "status_not_stored \<equiv> 0x05"
abbreviation (input) status_delta_bad_value :: key_value_status_code where "status_delta_bad_value \<equiv> 0x06"
abbreviation (input) status_not_my_vbucket :: key_value_status_code where "status_not_my_vbucket \<equiv> 0x07"
abbreviation (input) status_no_bucket :: key_value_status_code where "status_no_bucket \<equiv> 0x08"
abbreviation (input) status_dcp_stream_not_found :: key_value_status_code where "status_dcp_stream_not_found \<equiv> 0x0a"
abbreviation (input) status_opaque_no_match :: key_value_status_code where "status_opaque_no_match \<equiv> 0x0b"
abbreviation (input) status_locked :: key_value_status_code where "status_locked \<equiv> 0x09"
abbreviation (input) status_not_locked :: key_value_status_code where "status_not_locked \<equiv> 0x0e"
abbreviation (input) status_config_only :: key_value_status_code where "status_config_only \<equiv> 0x0d"
abbreviation (input) status_auth_stale :: key_value_status_code where "status_auth_stale \<equiv> 0x1f"
abbreviation (input) status_auth_error :: key_value_status_code where "status_auth_error \<equiv> 0x20"
abbreviation (input) status_auth_continue :: key_value_status_code where "status_auth_continue \<equiv> 0x21"
abbreviation (input) status_range_error :: key_value_status_code where "status_range_error \<equiv> 0x22"
abbreviation (input) status_rollback :: key_value_status_code where "status_rollback \<equiv> 0x23"
abbreviation (input) status_no_access :: key_value_status_code where "status_no_access \<equiv> 0x24"
abbreviation (input) status_not_initialized :: key_value_status_code where "status_not_initialized \<equiv> 0x25"
abbreviation (input) status_rate_limited_network_ingress :: key_value_status_code where "status_rate_limited_network_ingress \<equiv> 0x30"
abbreviation (input) status_rate_limited_network_egress :: key_value_status_code where "status_rate_limited_network_egress \<equiv> 0x31"
abbreviation (input) status_rate_limited_max_connections :: key_value_status_code where "status_rate_limited_max_connections \<equiv> 0x32"
abbreviation (input) status_rate_limited_max_commands :: key_value_status_code where "status_rate_limited_max_commands \<equiv> 0x33"
abbreviation (input) status_scope_size_limit_exceeded :: key_value_status_code where "status_scope_size_limit_exceeded \<equiv> 0x34"
abbreviation (input) status_unknown_frame_info :: key_value_status_code where "status_unknown_frame_info \<equiv> 0x80"
abbreviation (input) status_unknown_command :: key_value_status_code where "status_unknown_command \<equiv> 0x81"
abbreviation (input) status_no_memory :: key_value_status_code where "status_no_memory \<equiv> 0x82"
abbreviation (input) status_not_supported :: key_value_status_code where "status_not_supported \<equiv> 0x83"
abbreviation (input) status_internal :: key_value_status_code where "status_internal \<equiv> 0x84"
abbreviation (input) status_busy :: key_value_status_code where "status_busy \<equiv> 0x85"
abbreviation (input) status_temporary_failure :: key_value_status_code where "status_temporary_failure \<equiv> 0x86"
abbreviation (input) status_xattr_invalid :: key_value_status_code where "status_xattr_invalid \<equiv> 0x87"
abbreviation (input) status_unknown_collection :: key_value_status_code where "status_unknown_collection \<equiv> 0x88"
abbreviation (input) status_no_collections_manifest :: key_value_status_code where "status_no_collections_manifest \<equiv> 0x89"
abbreviation (input) status_cannot_apply_collections_manifest :: key_value_status_code where "status_cannot_apply_collections_manifest \<equiv> 0x8a"
abbreviation (input) status_collections_manifest_is_ahead :: key_value_status_code where "status_collections_manifest_is_ahead \<equiv> 0x8b"
abbreviation (input) status_unknown_scope :: key_value_status_code where "status_unknown_scope \<equiv> 0x8c"
abbreviation (input) status_dcp_stream_id_invalid :: key_value_status_code where "status_dcp_stream_id_invalid \<equiv> 0x8d"
abbreviation (input) status_durability_invalid_level :: key_value_status_code where "status_durability_invalid_level \<equiv> 0xa0"
abbreviation (input) status_durability_impossible :: key_value_status_code where "status_durability_impossible \<equiv> 0xa1"
abbreviation (input) status_sync_write_in_progress :: key_value_status_code where "status_sync_write_in_progress \<equiv> 0xa2"
abbreviation (input) status_sync_write_ambiguous :: key_value_status_code where "status_sync_write_ambiguous \<equiv> 0xa3"
abbreviation (input) status_sync_write_re_commit_in_progress :: key_value_status_code where "status_sync_write_re_commit_in_progress \<equiv> 0xa4"
abbreviation (input) status_subdoc_path_not_found :: key_value_status_code where "status_subdoc_path_not_found \<equiv> 0xc0"
abbreviation (input) status_subdoc_path_mismatch :: key_value_status_code where "status_subdoc_path_mismatch \<equiv> 0xc1"
abbreviation (input) status_subdoc_path_invalid :: key_value_status_code where "status_subdoc_path_invalid \<equiv> 0xc2"
abbreviation (input) status_subdoc_path_too_big :: key_value_status_code where "status_subdoc_path_too_big \<equiv> 0xc3"
abbreviation (input) status_subdoc_doc_too_deep :: key_value_status_code where "status_subdoc_doc_too_deep \<equiv> 0xc4"
abbreviation (input) status_subdoc_value_cannot_insert :: key_value_status_code where "status_subdoc_value_cannot_insert \<equiv> 0xc5"
abbreviation (input) status_subdoc_doc_not_json :: key_value_status_code where "status_subdoc_doc_not_json \<equiv> 0xc6"
abbreviation (input) status_subdoc_num_range_error :: key_value_status_code where "status_subdoc_num_range_error \<equiv> 0xc7"
abbreviation (input) status_subdoc_delta_invalid :: key_value_status_code where "status_subdoc_delta_invalid \<equiv> 0xc8"
abbreviation (input) status_subdoc_path_exists :: key_value_status_code where "status_subdoc_path_exists \<equiv> 0xc9"
abbreviation (input) status_subdoc_value_too_deep :: key_value_status_code where "status_subdoc_value_too_deep \<equiv> 0xca"
abbreviation (input) status_subdoc_invalid_combo :: key_value_status_code where "status_subdoc_invalid_combo \<equiv> 0xcb"
abbreviation (input) status_subdoc_multi_path_failure :: key_value_status_code where "status_subdoc_multi_path_failure \<equiv> 0xcc"
abbreviation (input) status_subdoc_success_deleted :: key_value_status_code where "status_subdoc_success_deleted \<equiv> 0xcd"
abbreviation (input) status_subdoc_xattr_invalid_flag_combo :: key_value_status_code where "status_subdoc_xattr_invalid_flag_combo \<equiv> 0xce"
abbreviation (input) status_subdoc_xattr_invalid_key_combo :: key_value_status_code where "status_subdoc_xattr_invalid_key_combo \<equiv> 0xcf"
abbreviation (input) status_subdoc_xattr_unknown_macro :: key_value_status_code where "status_subdoc_xattr_unknown_macro \<equiv> 0xd0"
abbreviation (input) status_subdoc_xattr_unknown_vattr :: key_value_status_code where "status_subdoc_xattr_unknown_vattr \<equiv> 0xd1"
abbreviation (input) status_subdoc_xattr_cannot_modify_vattr :: key_value_status_code where "status_subdoc_xattr_cannot_modify_vattr \<equiv> 0xd2"
abbreviation (input) status_subdoc_multi_path_failure_deleted :: key_value_status_code where "status_subdoc_multi_path_failure_deleted \<equiv> 0xd3"
abbreviation (input) status_subdoc_invalid_xattr_order :: key_value_status_code where "status_subdoc_invalid_xattr_order \<equiv> 0xd4"
abbreviation (input) status_subdoc_xattr_unknown_vattr_macro :: key_value_status_code where "status_subdoc_xattr_unknown_vattr_macro \<equiv> 0xd5"
abbreviation (input) status_subdoc_can_only_revive_deleted_documents :: key_value_status_code where "status_subdoc_can_only_revive_deleted_documents \<equiv> 0xd6"
abbreviation (input) status_subdoc_deleted_document_cannot_have_value :: key_value_status_code where "status_subdoc_deleted_document_cannot_have_value \<equiv> 0xd7"
abbreviation (input) status_range_scan_cancelled :: key_value_status_code where "status_range_scan_cancelled \<equiv> 0xa5"
abbreviation (input) status_range_scan_more :: key_value_status_code where "status_range_scan_more \<equiv> 0xa6"
abbreviation (input) status_range_scan_complete :: key_value_status_code where "status_range_scan_complete \<equiv> 0xa7"
abbreviation (input) status_range_scan_vb_uuid_not_equal :: key_value_status_code where "status_range_scan_vb_uuid_not_equal \<equiv> 0xa8"
abbreviation (input) status_unknown :: key_value_status_code where "status_unknown \<equiv> 0xffff"

definition key_value_status_codes :: "key_value_status_code list" where
  "key_value_status_codes = [
     status_success, status_not_found, status_exists, status_too_big, status_invalid,
     status_not_stored, status_delta_bad_value, status_not_my_vbucket, status_no_bucket,
     status_dcp_stream_not_found, status_opaque_no_match, status_locked, status_not_locked,
     status_config_only, status_auth_stale, status_auth_error, status_auth_continue,
     status_range_error, status_rollback, status_no_access, status_not_initialized,
     status_rate_limited_network_ingress, status_rate_limited_network_egress,
     status_rate_limited_max_connections, status_rate_limited_max_commands,
     status_scope_size_limit_exceeded, status_unknown_frame_info, status_unknown_command,
     status_no_memory, status_not_supported, status_internal, status_busy,
     status_temporary_failure, status_xattr_invalid, status_unknown_collection,
     status_no_collections_manifest, status_cannot_apply_collections_manifest,
     status_collections_manifest_is_ahead, status_unknown_scope, status_dcp_stream_id_invalid,
     status_durability_invalid_level, status_durability_impossible,
     status_sync_write_in_progress, status_sync_write_ambiguous,
     status_sync_write_re_commit_in_progress, status_subdoc_path_not_found,
     status_subdoc_path_mismatch, status_subdoc_path_invalid, status_subdoc_path_too_big,
     status_subdoc_doc_too_deep, status_subdoc_value_cannot_insert, status_subdoc_doc_not_json,
     status_subdoc_num_range_error, status_subdoc_delta_invalid, status_subdoc_path_exists,
     status_subdoc_value_too_deep, status_subdoc_invalid_combo, status_subdoc_multi_path_failure,
     status_subdoc_success_deleted, status_subdoc_xattr_invalid_flag_combo,
     status_subdoc_xattr_invalid_key_combo, status_subdoc_xattr_unknown_macro,
     status_subdoc_xattr_unknown_vattr, status_subdoc_xattr_cannot_modify_vattr,
     status_subdoc_multi_path_failure_deleted, status_subdoc_invalid_xattr_order,
     status_subdoc_xattr_unknown_vattr_macro, status_subdoc_can_only_revive_deleted_documents,
     status_subdoc_deleted_document_cannot_have_value, status_range_scan_cancelled,
     status_range_scan_more, status_range_scan_complete, status_range_scan_vb_uuid_not_equal,
     status_unknown]"

definition is_valid_status :: "u16 \<Rightarrow> bool" where
  "is_valid_status code \<longleftrightarrow> code \<in> set [
     status_success, status_not_found, status_exists, status_too_big, status_invalid,
     status_not_stored, status_delta_bad_value, status_not_my_vbucket, status_no_bucket,
     status_locked, status_not_locked, status_auth_stale, status_auth_error,
     status_auth_continue, status_range_error, status_rollback, status_no_access,
     status_not_initialized, status_unknown_frame_info, status_unknown_command, status_no_memory,
     status_not_supported, status_internal, status_busy, status_temporary_failure,
     status_xattr_invalid, status_unknown_collection, status_no_collections_manifest,
     status_cannot_apply_collections_manifest, status_collections_manifest_is_ahead,
     status_unknown_scope, status_dcp_stream_id_invalid, status_durability_invalid_level,
     status_durability_impossible, status_sync_write_in_progress, status_sync_write_ambiguous,
     status_sync_write_re_commit_in_progress, status_subdoc_path_not_found,
     status_subdoc_path_mismatch, status_subdoc_path_invalid, status_subdoc_path_too_big,
     status_subdoc_doc_too_deep, status_subdoc_value_cannot_insert, status_subdoc_doc_not_json,
     status_subdoc_num_range_error, status_subdoc_delta_invalid, status_subdoc_path_exists,
     status_subdoc_value_too_deep, status_subdoc_invalid_combo, status_subdoc_multi_path_failure,
     status_subdoc_success_deleted, status_subdoc_xattr_invalid_flag_combo,
     status_subdoc_xattr_invalid_key_combo, status_subdoc_xattr_unknown_macro,
     status_subdoc_xattr_unknown_vattr, status_subdoc_xattr_cannot_modify_vattr,
     status_subdoc_multi_path_failure_deleted, status_subdoc_invalid_xattr_order,
     status_dcp_stream_not_found, status_opaque_no_match, status_rate_limited_network_ingress,
     status_rate_limited_network_egress, status_rate_limited_max_connections,
     status_rate_limited_max_commands, status_scope_size_limit_exceeded,
     status_subdoc_xattr_unknown_vattr_macro, status_subdoc_can_only_revive_deleted_documents,
     status_subdoc_deleted_document_cannot_have_value, status_range_scan_cancelled,
     status_range_scan_more, status_range_scan_complete, status_range_scan_vb_uuid_not_equal,
     status_config_only]"

definition map_status_code :: "client_opcode \<Rightarrow> u16 \<Rightarrow> errc option" where
  "map_status_code opcode status =
     (if status \<in> set [
             status_success, status_subdoc_multi_path_failure, status_subdoc_success_deleted,
             status_subdoc_multi_path_failure_deleted, status_range_scan_complete,
             status_range_scan_more]
      then None
      else if status = status_not_found
      then Some (errc_key_value key_value_document_not_found)
      else if status = status_not_stored
      then (if opcode = opcode_insert then Some (errc_key_value key_value_document_exists) else Some (errc_key_value key_value_document_not_found))
      else if status = status_exists
      then (if opcode = opcode_insert then Some (errc_key_value key_value_document_exists) else Some (errc_common common_cas_mismatch))
      else if status = status_too_big
      then Some (errc_key_value key_value_value_too_large)
      else if status \<in> set [
             status_invalid, status_xattr_invalid, status_subdoc_invalid_combo,
             status_subdoc_invalid_xattr_order, status_subdoc_deleted_document_cannot_have_value]
      then Some (errc_common common_invalid_argument)
      else if status = status_delta_bad_value
      then Some (errc_key_value key_value_delta_invalid)
      else if status = status_no_bucket
      then Some (errc_common common_bucket_not_found)
      else if status = status_locked
      then (if opcode = opcode_unlock then Some (errc_common common_cas_mismatch) else Some (errc_key_value key_value_document_locked))
      else if status = status_not_locked
      then Some (errc_key_value key_value_document_not_locked)
      else if status \<in> set [status_auth_stale, status_auth_error, status_no_access]
      then Some (errc_common common_authentication_failure)
      else if status \<in> set [status_not_supported, status_unknown_command]
      then Some (errc_common common_unsupported_operation)
      else if status = status_internal
      then Some (errc_common common_internal_server_failure)
      else if status \<in> set [
             status_busy, status_temporary_failure, status_no_memory, status_not_initialized]
      then Some (errc_common common_temporary_failure)
      else if status = status_unknown_collection
      then Some (errc_common common_collection_not_found)
      else if status = status_unknown_scope
      then Some (errc_common common_scope_not_found)
      else if status = status_durability_invalid_level
      then Some (errc_key_value key_value_durability_level_not_available)
      else if status = status_durability_impossible
      then Some (errc_key_value key_value_durability_impossible)
      else if status = status_sync_write_in_progress
      then Some (errc_key_value key_value_durable_write_in_progress)
      else if status = status_sync_write_ambiguous
      then Some (errc_key_value key_value_durability_ambiguous)
      else if status = status_sync_write_re_commit_in_progress
      then Some (errc_key_value key_value_durable_write_re_commit_in_progress)
      else if status = status_subdoc_path_not_found
      then Some (errc_key_value key_value_path_not_found)
      else if status = status_subdoc_path_mismatch
      then Some (errc_key_value key_value_path_mismatch)
      else if status = status_subdoc_path_invalid
      then Some (errc_key_value key_value_path_invalid)
      else if status = status_subdoc_path_too_big
      then Some (errc_key_value key_value_path_too_big)
      else if status = status_subdoc_doc_too_deep
      then Some (errc_key_value key_value_path_too_deep)
      else if status = status_subdoc_value_cannot_insert
      then Some (errc_key_value key_value_value_invalid)
      else if status = status_subdoc_doc_not_json
      then Some (errc_key_value key_value_document_not_json)
      else if status = status_subdoc_num_range_error
      then Some (errc_key_value key_value_number_too_big)
      else if status = status_subdoc_delta_invalid
      then Some (errc_key_value key_value_delta_invalid)
      else if status = status_subdoc_path_exists
      then Some (errc_key_value key_value_path_exists)
      else if status = status_subdoc_value_too_deep
      then Some (errc_key_value key_value_value_too_deep)
      else if status \<in> set [
             status_subdoc_xattr_invalid_flag_combo, status_subdoc_xattr_invalid_key_combo]
      then Some (errc_key_value key_value_xattr_invalid_key_combo)
      else if status \<in> set [
             status_subdoc_xattr_unknown_macro, status_subdoc_xattr_unknown_vattr_macro]
      then Some (errc_key_value key_value_xattr_unknown_macro)
      else if status = status_subdoc_xattr_unknown_vattr
      then Some (errc_key_value key_value_xattr_unknown_virtual_attribute)
      else if status = status_subdoc_xattr_cannot_modify_vattr
      then Some (errc_key_value key_value_xattr_cannot_modify_virtual_attribute)
      else if status = status_subdoc_can_only_revive_deleted_documents
      then Some (errc_key_value key_value_cannot_revive_living_document)
      else if status \<in> set [
             status_rate_limited_network_ingress, status_rate_limited_network_egress,
             status_rate_limited_max_connections, status_rate_limited_max_commands]
      then Some (errc_common common_rate_limited)
      else if status = status_scope_size_limit_exceeded
      then Some (errc_common common_quota_limited)
      else if status \<in> set [
             status_not_my_vbucket, status_auth_continue, status_range_error, status_rollback,
             status_unknown_frame_info, status_no_collections_manifest,
             status_cannot_apply_collections_manifest, status_collections_manifest_is_ahead,
             status_dcp_stream_id_invalid, status_dcp_stream_not_found, status_opaque_no_match,
             status_range_scan_cancelled]
      then Some (errc_common common_request_canceled)
      else if status = status_range_scan_vb_uuid_not_equal
      then Some (errc_key_value key_value_mutation_token_outdated)
      else Some (errc_network network_protocol_error))"

subsection \<open>Frame extras and durability\<close>

abbreviation (input) request_barrier :: frame_type where "request_barrier \<equiv> 0"
abbreviation (input) request_sync_durability :: frame_type where "request_sync_durability \<equiv> 1"
abbreviation (input) request_stream_id :: frame_type where "request_stream_id \<equiv> 2"
abbreviation (input) request_open_tracing :: frame_type where "request_open_tracing \<equiv> 3"
abbreviation (input) request_user_impersonation :: frame_type where "request_user_impersonation \<equiv> 4"
abbreviation (input) request_preserve_expiry :: frame_type where "request_preserve_expiry \<equiv> 5"

abbreviation (input) response_server_duration :: frame_type where "response_server_duration \<equiv> 0"
abbreviation (input) response_read_units :: frame_type where "response_read_units \<equiv> 1"
abbreviation (input) response_write_units :: frame_type where "response_write_units \<equiv> 2"

abbreviation (input) durability_majority :: durability_level where
  "durability_majority \<equiv> 0x01"
abbreviation (input) durability_majority_and_persist_to_active :: durability_level where
  "durability_majority_and_persist_to_active \<equiv> 0x02"
abbreviation (input) durability_persist_to_majority :: durability_level where
  "durability_persist_to_majority \<equiv> 0x03"

subsection \<open>Datatype flags\<close>

abbreviation (input) datatype_raw :: byte where "datatype_raw \<equiv> 0x00"
abbreviation (input) datatype_json :: byte where "datatype_json \<equiv> 0x01"
abbreviation (input) datatype_snappy :: byte where "datatype_snappy \<equiv> 0x02"
abbreviation (input) datatype_xattr :: byte where "datatype_xattr \<equiv> 0x04"

definition has_flag :: "byte \<Rightarrow> byte \<Rightarrow> bool" where
  "has_flag value flag \<longleftrightarrow> value AND flag = flag"

definition set_flag :: "byte \<Rightarrow> byte \<Rightarrow> byte" where
  "set_flag value flag = value OR flag"

definition clear_flag :: "byte \<Rightarrow> byte \<Rightarrow> byte" where
  "clear_flag value flag = value AND NOT flag"

definition is_valid_datatype :: "byte \<Rightarrow> bool" where
  "is_valid_datatype code \<longleftrightarrow>
     code \<in> set [datatype_raw, datatype_json, datatype_snappy, datatype_xattr]"

definition has_json_datatype :: "byte \<Rightarrow> bool" where
  "has_json_datatype code = has_flag code datatype_json"

subsection \<open>The validity tests accept the enumerators\<close>

lemma is_valid_magic_iff: "is_valid_magic c \<longleftrightarrow> c \<in> set magics \<and> c \<noteq> magic_invalid"
  by (auto simp: is_valid_magic_def magics_def)

lemma is_valid_client_opcode_iff: "is_valid_client_opcode c \<longleftrightarrow> c \<in> set client_opcodes"
  unfolding is_valid_client_opcode_def client_opcodes_def by auto

lemma is_valid_status_iff:
  "is_valid_status c \<longleftrightarrow> c \<in> set key_value_status_codes \<and> c \<noteq> status_unknown"
  unfolding is_valid_status_def key_value_status_codes_def by auto

lemma is_valid_hello_feature_iff: "is_valid_hello_feature c \<longleftrightarrow> c \<in> set hello_features"
  unfolding is_valid_hello_feature_def hello_features_def by auto

lemma is_valid_subdoc_opcode_iff: "is_valid_subdoc_opcode c \<longleftrightarrow> c \<in> set subdoc_opcodes"
  unfolding is_valid_subdoc_opcode_def subdoc_opcodes_def by auto

lemma enumerators_distinct:
  "distinct magics" "distinct client_opcodes" "distinct subdoc_opcodes" "distinct hello_features"
  "distinct key_value_status_codes"
  by (simp_all add: magics_def client_opcodes_def subdoc_opcodes_def hello_features_def
        key_value_status_codes_def)

subsection \<open>Statuses and errors\<close>

lemma map_status_code_success_iff:
  "map_status_code opcode status = None \<longleftrightarrow>
     status \<in> set [status_success, status_subdoc_multi_path_failure, status_subdoc_success_deleted,
       status_subdoc_multi_path_failure_deleted, status_range_scan_complete,
       status_range_scan_more]"
  unfolding map_status_code_def by (simp split: if_splits)

text \<open>
  the status mapping reports a protocol error exactly for the statuses the protocol does not
  define and for \<^verbatim>\<open>config_only\<close>; every other status the server can send has a more specific
  result.
\<close>

theorem map_status_code_protocol_error_iff:
  "map_status_code opcode status = Some (errc_network network_protocol_error) \<longleftrightarrow>
     \<not> (is_valid_status status \<and> status \<noteq> status_config_only)"
  unfolding map_status_code_def is_valid_status_def by (auto split: if_splits)

text \<open>
  the result of the mapping depends on the operation only for three statuses: an insert turns
  \<^verbatim>\<open>not_stored\<close> and \<^verbatim>\<open>exists\<close> into \<^verbatim>\<open>document_exists\<close>, and an unlock turns
  \<^verbatim>\<open>locked\<close> into \<^verbatim>\<open>cas_mismatch\<close>.
\<close>

theorem map_status_code_opcode_dependence:
  "map_status_code opcode status =
     (if opcode = opcode_insert \<and> status \<in> {status_not_stored, status_exists}
      then Some (errc_key_value key_value_document_exists)
      else if opcode = opcode_unlock \<and> status = status_locked
      then Some (errc_common common_cas_mismatch)
      else map_status_code opcode_get status)"
  unfolding map_status_code_def by simp

subsection \<open>Flags of the datatype byte\<close>

lemma has_flag_set_flag [simp]: "has_flag (set_flag v f) f"
  by (simp add: has_flag_def set_flag_def bit_eq_iff bit_simps)

lemma has_flag_clear_flag: "has_flag (clear_flag v f) f \<longleftrightarrow> f = 0"
  by (simp add: has_flag_def clear_flag_def and.assoc)

lemma set_flag_keeps: "has_flag v g \<Longrightarrow> has_flag (set_flag v f) g"
  by (auto simp: has_flag_def set_flag_def bit_eq_iff bit_simps)

lemma clear_flag_keeps: "f AND g = 0 \<Longrightarrow> has_flag (clear_flag v f) g \<longleftrightarrow> has_flag v g"
  by (auto simp: has_flag_def clear_flag_def bit_eq_iff bit_simps)

end
