(* ===== verification/Mcbp_Codec.thy ===== *)
theory Mcbp_Codec
  imports Leb128 Protocol
begin

text \<open>
  The packet codec, \<^verbatim>\<open>core/mcbp/codec.cxx\<close>, with the packet of
  \<^verbatim>\<open>core/mcbp/packet.hxx\<close>. The encoder writes through the \<^verbatim>\<open>buffer_writer\<close> whose
  stores have no bounds check, so \<open>None\<close> is an encoder that writes outside its buffer; the
  decoder is \<open>None\<close> when it reads outside the body.

  The encoding of server durations calls \<^verbatim>\<open>std::pow\<close> on doubles. Its integer parts are
  parameters, the record \<open>libm\<close>; no theorem assumes anything about them.
\<close>

subsection \<open>Packets\<close>

record packet =
  pkt_magic :: magic
  pkt_command :: client_opcode
  pkt_datatype :: byte
  pkt_status :: u16
  pkt_status_code :: key_value_status_code
  pkt_vbucket :: u16
  pkt_opaque :: u32
  pkt_cas :: u64
  pkt_collection_id :: u32
  pkt_key :: bytes
  pkt_extras :: bytes
  pkt_value :: bytes
  pkt_barrier :: bool
  pkt_durability_level :: "durability_level option"
  pkt_durability_timeout :: "int option"
  pkt_stream_id :: "u16 option"
  pkt_open_tracing :: "bytes option"
  pkt_server_duration :: "int option"
  pkt_user_impersonation :: "bytes option"
  pkt_preserve_expiry :: bool
  pkt_read_units :: "u16 option"
  pkt_write_units :: "u16 option"
  pkt_unsupported_frames :: "(frame_type \<times> bytes) list"

definition default_packet :: packet where
  "default_packet = \<lparr>
     pkt_magic = magic_invalid, pkt_command = opcode_invalid, pkt_datatype = 0, pkt_status = 0,
     pkt_status_code = status_success, pkt_vbucket = 0, pkt_opaque = 0, pkt_cas = 0,
     pkt_collection_id = 0, pkt_key = [], pkt_extras = [], pkt_value = [],
     pkt_barrier = False, pkt_durability_level = None, pkt_durability_timeout = None,
     pkt_stream_id = None, pkt_open_tracing = None, pkt_server_duration = None,
     pkt_user_impersonation = None, pkt_preserve_expiry = False, pkt_read_units = None,
     pkt_write_units = None, pkt_unsupported_frames = []\<rparr>"

subsection \<open>Server durations\<close>

text \<open>
  \<open>pow_inv x\<close> is the integer part of \<^verbatim>\<open>std::pow(x, 1.0 / 1.74)\<close> and \<open>pow_fwd x\<close> that of
  \<^verbatim>\<open>std::pow(x, 1.74)\<close>, for non-negative arguments; durations are not negative.
\<close>

record libm =
  pow_inv :: "int \<Rightarrow> int"
  pow_fwd :: "int \<Rightarrow> int"

definition encode_server_duration :: "libm \<Rightarrow> int \<Rightarrow> u16" where
  "encode_server_duration m duration =
     (let encoded = pow_inv m (duration * 2) in
      if encoded > 65535 then 65535 else word_of_int encoded)"

definition decode_server_duration :: "libm \<Rightarrow> u16 \<Rightarrow> int" where
  "decode_server_duration m encoded = pow_fwd m (uint encoded) div 2"

subsection \<open>The codec\<close>

record codec =
  enabled_features :: "hello_feature set"
  collections_enabled :: bool

definition new_codec :: "hello_feature set \<Rightarrow> codec" where
  "new_codec features =
     \<lparr>enabled_features = features, collections_enabled = (feature_collections \<in> features)\<rparr>"

definition enable_feature :: "hello_feature \<Rightarrow> codec \<Rightarrow> codec" where
  "enable_feature feature c =
     (let c' = c\<lparr>enabled_features := insert feature (enabled_features c)\<rparr> in
      if feature = feature_collections then c'\<lparr>collections_enabled := True\<rparr> else c')"

definition is_feature_enabled :: "codec \<Rightarrow> hello_feature \<Rightarrow> bool" where
  "is_feature_enabled c feature \<longleftrightarrow> feature \<in> enabled_features c"

subsection \<open>Encoding\<close>

text \<open>The key with its collection prefix, and the extras.\<close>

definition encode_key :: "codec \<Rightarrow> packet \<Rightarrow> (errc + (bytes \<times> bytes)) run" where
  "encode_key c p =
     (if collections_enabled c
      then if pkt_command p = opcode_observe
           then fails (errc_common common_unsupported_operation)
           else if supports_collection_id (pkt_command p)
           then returns (do {
                  encoded \<leftarrow> unsigned_leb128 (pkt_collection_id p);
                  Some (encoded @ pkt_key p, pkt_extras p) })
           else if pkt_command p = opcode_get_random_key
           then returns (do {
                  extras \<leftarrow> put_uint32 (vec_resize 4 (pkt_extras p)) (pkt_collection_id p);
                  Some (pkt_key p, extras) })
           else if pkt_collection_id p > 0
           then fails (errc_common common_invalid_argument)
           else Some (Inr (pkt_key p, pkt_extras p))
      else Some (Inr (pkt_key p, pkt_extras p)))"

definition long_frame_len :: "nat \<Rightarrow> nat" where
  "long_frame_len n = (if n < 15 then n + 1 else n + 2)"

text \<open>
  The length of the frames, accumulated in the order of the source. The open tracing frame
  assigns to the accumulator instead of adding to it.
\<close>

definition frames_length :: "packet \<Rightarrow> nat" where
  "frames_length p =
     (let n = (if pkt_barrier p then 1 else 0);
          n = (case pkt_durability_level p of None \<Rightarrow> n
               | Some _ \<Rightarrow> n + 2 + (if pkt_durability_timeout p \<noteq> None then 2 else 0));
          n = (if pkt_stream_id p \<noteq> None then n + 3 else n);
          n = (case pkt_open_tracing p of None \<Rightarrow> n | Some ctx \<Rightarrow> long_frame_len (length ctx));
          n = (if pkt_server_duration p \<noteq> None then n + 3 else n);
          n = (case pkt_user_impersonation p of None \<Rightarrow> n
               | Some user \<Rightarrow> n + long_frame_len (length user))
      in if pkt_preserve_expiry p then n + 1 else n)"

definition upgrade_magic :: "codec \<Rightarrow> packet \<Rightarrow> nat \<Rightarrow> errc + magic" where
  "upgrade_magic c p frames_len =
     (if frames_len > 0
      then if pkt_magic p = magic_client_request
           then if \<not> is_feature_enabled c feature_alt_request_support
                then Inl (errc_common common_unsupported_operation)
                else Inr magic_alt_client_request
           else if pkt_magic p = magic_client_response then Inr magic_alt_client_response
           else Inl (errc_common common_unsupported_operation)
      else Inr (pkt_magic p))"

definition write_lengths :: "nat \<Rightarrow> nat \<Rightarrow> buffer_writer \<Rightarrow> buffer_writer run" where
  "write_lengths frames_len key_len w =
     (if frames_len > 0
      then do { w \<leftarrow> write_byte (of_nat frames_len) w; write_byte (of_nat key_len) w }
      else write_uint16 (of_nat key_len) w)"

definition write_status_or_vbucket ::
  "packet \<Rightarrow> buffer_writer \<Rightarrow> (errc + buffer_writer) run" where
  "write_status_or_vbucket p w =
     (if pkt_magic p = magic_client_request \<or> pkt_magic p = magic_alt_client_request
      then if pkt_status p \<noteq> 0 then fails (errc_common common_invalid_argument)
           else returns (write_uint16 (pkt_vbucket p) w)
      else if pkt_magic p = magic_client_response \<or> pkt_magic p = magic_alt_client_response
      then if pkt_vbucket p \<noteq> 0 then fails (errc_common common_invalid_argument)
           else returns (write_uint16 (pkt_status p) w)
      else fails (errc_common common_invalid_argument))"

definition write_barrier :: "packet \<Rightarrow> buffer_writer \<Rightarrow> (errc + buffer_writer) run" where
  "write_barrier p w =
     (if pkt_barrier p
      then if pkt_magic p \<noteq> magic_client_request
           then fails (errc_common common_invalid_argument)
           else returns (write_frame_header request_barrier 0 w)
      else Some (Inr w))"

definition write_durability ::
  "codec \<Rightarrow> packet \<Rightarrow> buffer_writer \<Rightarrow> (errc + buffer_writer) run" where
  "write_durability c p w =
     (case pkt_durability_level p of
        None \<Rightarrow> Some (Inr w)
      | Some level \<Rightarrow>
          if pkt_magic p \<noteq> magic_client_request
          then fails (errc_common common_invalid_argument)
          else if \<not> is_feature_enabled c feature_sync_replication
          then fails (errc_common common_feature_not_available)
          else (case pkt_durability_timeout p of
                  Some timeout \<Rightarrow> returns (do {
                    w \<leftarrow> write_frame_header request_sync_durability 3 w;
                    w \<leftarrow> write_byte level w;
                    write_uint16 (word_of_int (min timeout 65535)) w })
                | None \<Rightarrow> returns (do {
                    w \<leftarrow> write_frame_header request_sync_durability 1 w;
                    write_byte level w })))"

definition write_stream_id :: "packet \<Rightarrow> buffer_writer \<Rightarrow> (errc + buffer_writer) run" where
  "write_stream_id p w =
     (case pkt_stream_id p of
        None \<Rightarrow> Some (Inr w)
      | Some stream_id \<Rightarrow>
          if pkt_magic p \<noteq> magic_client_request
          then fails (errc_common common_invalid_argument)
          else returns (do {
            w \<leftarrow> write_frame_header request_stream_id 2 w;
            write_uint16 stream_id w }))"

text \<open>The two frames that carry a string escape lengths of 15 and more.\<close>

definition write_long_frame ::
  "frame_type \<Rightarrow> bytes \<Rightarrow> buffer_writer \<Rightarrow> buffer_writer run" where
  "write_long_frame ftype data w =
     (if length data < 15
      then do { w \<leftarrow> write_frame_header ftype (length data) w; write_bytes data w }
      else do {
        w \<leftarrow> write_frame_header ftype 15 w;
        w \<leftarrow> write_byte (of_nat (length data - 15)) w;
        write_bytes data w })"

definition write_open_tracing ::
  "codec \<Rightarrow> packet \<Rightarrow> buffer_writer \<Rightarrow> (errc + buffer_writer) run" where
  "write_open_tracing c p w =
     (case pkt_open_tracing p of
        None \<Rightarrow> Some (Inr w)
      | Some trace_context \<Rightarrow>
          if pkt_magic p \<noteq> magic_client_request
          then fails (errc_common common_invalid_argument)
          else if \<not> is_feature_enabled c feature_open_tracing
          then fails (errc_common common_feature_not_available)
          else returns (write_long_frame request_open_tracing trace_context w))"

definition write_server_duration ::
  "libm \<Rightarrow> codec \<Rightarrow> packet \<Rightarrow> buffer_writer \<Rightarrow> (errc + buffer_writer) run" where
  "write_server_duration m c p w =
     (case pkt_server_duration p of
        None \<Rightarrow> Some (Inr w)
      | Some duration \<Rightarrow>
          if pkt_magic p \<noteq> magic_client_response
          then fails (errc_common common_invalid_argument)
          else if \<not> is_feature_enabled c feature_tracing
          then returns (do {
            w \<leftarrow> write_frame_header response_server_duration 2 w;
            write_uint16 (encode_server_duration m duration) w })
          else Some (Inr w))"

definition write_user_impersonation ::
  "packet \<Rightarrow> buffer_writer \<Rightarrow> (errc + buffer_writer) run" where
  "write_user_impersonation p w =
     (case pkt_user_impersonation p of
        None \<Rightarrow> Some (Inr w)
      | Some user \<Rightarrow>
          if pkt_magic p \<noteq> magic_client_request
          then fails (errc_common common_invalid_argument)
          else returns (write_long_frame request_user_impersonation user w))"

definition write_preserve_expiry ::
  "codec \<Rightarrow> packet \<Rightarrow> buffer_writer \<Rightarrow> (errc + buffer_writer) run" where
  "write_preserve_expiry c p w =
     (if pkt_preserve_expiry p
      then if pkt_magic p \<noteq> magic_client_request
           then fails (errc_common common_invalid_argument)
           else if \<not> is_feature_enabled c feature_preserve_ttl
           then fails (errc_common common_feature_not_available)
           else returns (write_frame_header request_preserve_expiry 0 w)
      else Some (Inr w))"

definition write_frames ::
  "libm \<Rightarrow> codec \<Rightarrow> packet \<Rightarrow> buffer_writer \<Rightarrow> (errc + buffer_writer) run" where
  "write_frames m c p w =
     and_then (write_barrier p w) (\<lambda>w.
     and_then (write_durability c p w) (\<lambda>w.
     and_then (write_stream_id p w) (\<lambda>w.
     and_then (write_open_tracing c p w) (\<lambda>w.
     and_then (write_server_duration m c p w) (\<lambda>w.
     and_then (write_user_impersonation p w) (\<lambda>w.
     and_then (write_preserve_expiry c p w) (\<lambda>w.
       if pkt_unsupported_frames p \<noteq> [] then fails (errc_common common_invalid_argument)
       else Some (Inr w))))))))"

definition write_packet ::
  "libm \<Rightarrow> codec \<Rightarrow> packet \<Rightarrow> magic \<Rightarrow> nat \<Rightarrow> bytes \<Rightarrow> bytes \<Rightarrow> (errc + bytes) run" where
  "write_packet m c p packet_magic frames_len encoded_key extras =
     (let ext_len = length extras; key_len = length encoded_key;
          val_len = length (pkt_value p);
          packet_len = 24 + ext_len + frames_len + key_len + val_len
      in and_then (returns (do {
           w \<leftarrow> write_byte packet_magic (new_buffer_writer packet_len);
           w \<leftarrow> write_byte (pkt_command p) w;
           w \<leftarrow> write_lengths frames_len key_len w;
           w \<leftarrow> write_byte (of_nat ext_len) w;
           write_byte (pkt_datatype p) w })) (\<lambda>w.
         and_then (write_status_or_vbucket p w) (\<lambda>w.
         and_then (returns (do {
           w \<leftarrow> write_uint32 (of_nat (key_len + ext_len + val_len + frames_len)) w;
           w \<leftarrow> write_uint32 (pkt_opaque p) w;
           write_uint64 (pkt_cas p) w })) (\<lambda>w.
         and_then (write_frames m c p w) (\<lambda>w.
         and_then (returns (do {
           w \<leftarrow> write_bytes extras w;
           w \<leftarrow> write_bytes encoded_key w;
           write_bytes (pkt_value p) w })) (\<lambda>w.
         Some (Inr (store w))))))))"

definition encode_packet :: "libm \<Rightarrow> codec \<Rightarrow> packet \<Rightarrow> (errc + bytes) run" where
  "encode_packet m c p =
     and_then (encode_key c p) (\<lambda>(encoded_key, extras).
       (case upgrade_magic c p (frames_length p) of
          Inl e \<Rightarrow> fails e
        | Inr packet_magic \<Rightarrow>
            write_packet m c p packet_magic (frames_length p) encoded_key extras))"

subsection \<open>Decoding\<close>

text \<open>
  One frame: the type and length nibbles with their escapes. The result is the type, the length
  and the offset of the frame's data.
\<close>

definition frame_header_at :: "bytes \<Rightarrow> nat \<Rightarrow> (frame_type \<times> nat \<times> nat) run" where
  "frame_header_at body off = do {
     frame_header \<leftarrow> span_at body off;
     let off = off + 1;
     let ftype = drop_bit 4 (frame_header AND 0xf0);
     (ftype, off) \<leftarrow> (if ftype = 0x0f
                     then do { b \<leftarrow> span_at body off; Some (ftype + b, off + 1) }
                     else Some (ftype, off));
     let flen = unat (frame_header AND 0x0f);
     (flen, off) \<leftarrow> (if flen = 0x0f
                    then do { b \<leftarrow> span_at body off; Some (flen + unat b, off + 1) }
                    else Some (flen, off));
     Some (ftype, flen, off) }"

definition unsupported_frame_at :: "bytes \<Rightarrow> nat \<Rightarrow> frame_type \<Rightarrow> nat \<Rightarrow> packet \<Rightarrow> packet run" where
  "unsupported_frame_at body off ftype flen pkt = do {
     data \<leftarrow> be_read body off flen;
     Some (pkt\<lparr>pkt_unsupported_frames := pkt_unsupported_frames pkt @ [(ftype, data)]\<rparr>) }"

definition decode_request_frame ::
  "bytes \<Rightarrow> nat \<Rightarrow> frame_type \<Rightarrow> nat \<Rightarrow> packet \<Rightarrow> packet run" where
  "decode_request_frame body off ftype flen pkt =
     (if ftype = request_barrier \<and> flen = 0
      then Some (pkt\<lparr>pkt_barrier := True\<rparr>)
      else if ftype = request_sync_durability \<and> (flen = 1 \<or> flen = 3)
      then do {
        level \<leftarrow> span_at body off;
        let pkt = pkt\<lparr>pkt_durability_level := Some level\<rparr>;
        if flen = 3
        then do {
          timeout \<leftarrow> read_uint16 body (off + 1);
          Some (pkt\<lparr>pkt_durability_timeout := Some (uint timeout)\<rparr>) }
        else Some (pkt\<lparr>pkt_durability_timeout := None\<rparr>) }
      else if ftype = request_stream_id \<and> flen = 2
      then do {
        stream_id \<leftarrow> read_uint16 body off;
        Some (pkt\<lparr>pkt_stream_id := Some stream_id\<rparr>) }
      else if ftype = request_open_tracing \<and> flen > 0
      then do {
        trace_context \<leftarrow> be_read body off flen;
        Some (pkt\<lparr>pkt_open_tracing := Some trace_context\<rparr>) }
      else if ftype = request_preserve_expiry \<and> flen = 0
      then Some (pkt\<lparr>pkt_preserve_expiry := True\<rparr>)
      else if ftype = request_user_impersonation \<and> flen > 0
      then do {
        user \<leftarrow> be_read body off flen;
        Some (pkt\<lparr>pkt_user_impersonation := Some user\<rparr>) }
      else unsupported_frame_at body off ftype flen pkt)"

definition decode_response_frame ::
  "libm \<Rightarrow> bytes \<Rightarrow> nat \<Rightarrow> frame_type \<Rightarrow> nat \<Rightarrow> packet \<Rightarrow> packet run" where
  "decode_response_frame m body off ftype flen pkt =
     (if ftype = response_server_duration \<and> flen = 2
      then do {
        encoded \<leftarrow> read_uint16 body off;
        Some (pkt\<lparr>pkt_server_duration := Some (decode_server_duration m encoded)\<rparr>) }
      else if ftype = response_read_units \<and> flen = 2
      then do {
        units \<leftarrow> read_uint16 body off;
        Some (pkt\<lparr>pkt_read_units := Some units\<rparr>) }
      else if ftype = response_write_units \<and> flen = 2
      then do {
        units \<leftarrow> read_uint16 body off;
        Some (pkt\<lparr>pkt_write_units := Some units\<rparr>) }
      else unsupported_frame_at body off ftype flen pkt)"

lemma frame_header_at_advances:
  "frame_header_at body off = Some (ftype, flen, off') \<Longrightarrow> off < off'"
  by (auto simp: frame_header_at_def Let_def split: bind_splits if_splits)

text \<open>The loop over the frames ends because every frame has a header byte.\<close>

function decode_frames ::
  "libm \<Rightarrow> magic \<Rightarrow> nat \<Rightarrow> bytes \<Rightarrow> nat \<Rightarrow> packet \<Rightarrow> (errc + packet) run" where
  "decode_frames m mgc frames_len body off pkt =
     (if off < frames_len
      then (case frame_header_at body off of
              None \<Rightarrow> None
            | Some (ftype, flen, off') \<Rightarrow>
                if mgc = magic_alt_client_request
                then (case decode_request_frame body off' ftype flen pkt of
                        None \<Rightarrow> None
                      | Some pkt' \<Rightarrow> decode_frames m mgc frames_len body (off' + flen) pkt')
                else if mgc = magic_alt_client_response
                then (case decode_response_frame m body off' ftype flen pkt of
                        None \<Rightarrow> None
                      | Some pkt' \<Rightarrow> decode_frames m mgc frames_len body (off' + flen) pkt')
                else fails (errc_network network_protocol_error))
      else Some (Inr pkt))"
  by pat_completeness auto
termination
  by (relation "measure (\<lambda>(_, _, frames_len, _, off, _). frames_len - off)")
    (auto dest: frame_header_at_advances)

declare decode_frames.simps [simp del]

definition decode_collection_id :: "codec \<Rightarrow> packet \<Rightarrow> nat \<Rightarrow> (errc + packet) run" where
  "decode_collection_id c pkt key_len =
     (if collections_enabled c
      then if pkt_command pkt = opcode_observe
           then fails (errc_common common_feature_not_available)
           else if key_len > 0 \<and> supports_collection_id (pkt_command pkt)
           then (case decode_unsigned_leb128_no_throw (pkt_key pkt) of
                   None \<Rightarrow> None
                 | Some (cid, remaining) \<Rightarrow>
                     (case remaining of
                        None \<Rightarrow> fails (errc_network network_protocol_error)
                      | Some r \<Rightarrow>
                          if r = [] then fails (errc_network network_protocol_error)
                          else let prefix_length = length (pkt_key pkt) - length r in
                               Some (Inr (pkt\<lparr>pkt_collection_id := cid,
                                              pkt_key := drop prefix_length (pkt_key pkt)\<rparr>))))
           else Some (Inr pkt)
      else Some (Inr pkt))"

text \<open>The magic, and the status or the vbucket.\<close>

definition decode_magic :: "bytes \<Rightarrow> packet \<Rightarrow> (errc + packet) run" where
  "decode_magic header pkt =
     (case span_at header 0 of
        None \<Rightarrow> None
      | Some mgc \<Rightarrow>
          if mgc = magic_client_request \<or> mgc = magic_alt_client_request
          then returns (do {
            vbucket \<leftarrow> read_uint16 header 6;
            Some (pkt\<lparr>pkt_magic := magic_client_request, pkt_vbucket := vbucket\<rparr>) })
          else if mgc = magic_client_response \<or> mgc = magic_alt_client_response
          then returns (do {
            status \<leftarrow> read_uint16 header 6;
            Some (pkt\<lparr>pkt_magic := magic_client_response, pkt_status := status,
                       pkt_status_code := (if is_valid_status status then status
                                           else status_unknown)\<rparr>) })
          else fails (errc_network network_protocol_error))"

text \<open>The extras, the key and the value, each copied only when it is not empty.\<close>

definition read_unless_empty :: "bytes \<Rightarrow> nat \<Rightarrow> nat \<Rightarrow> bytes run" where
  "read_unless_empty body off len = (if len > 0 then be_read body off len else Some [])"

definition decode_body ::
  "libm \<Rightarrow> codec \<Rightarrow> magic \<Rightarrow> bytes \<Rightarrow> nat \<Rightarrow> nat \<Rightarrow> nat \<Rightarrow> packet \<Rightarrow> (errc + packet) run" where
  "decode_body m c mgc body frames_len ext_len key_len pkt =
     (let value_len = length body - (frames_len + ext_len + key_len) in
      and_then (if frames_len > 0 then decode_frames m mgc frames_len body 0 pkt
                else Some (Inr pkt)) (\<lambda>pkt.
      and_then (returns (do {
        extras \<leftarrow> read_unless_empty body frames_len ext_len;
        key \<leftarrow> read_unless_empty body (frames_len + ext_len) key_len;
        val \<leftarrow> read_unless_empty body (frames_len + ext_len + key_len) value_len;
        Some (pkt\<lparr>pkt_extras := extras, pkt_key := key, pkt_value := val\<rparr>) })) (\<lambda>pkt.
      decode_collection_id c pkt key_len)))"

text \<open>The lengths of the key and of the frames, which share a 16-bit field.\<close>

definition decode_lengths :: "magic \<Rightarrow> bytes \<Rightarrow> (nat \<times> nat) run" where
  "decode_lengths mgc header = do {
     key_len \<leftarrow> read_uint16 header 2;
     if mgc = magic_alt_client_request \<or> mgc = magic_alt_client_response
     then do {
       key_len \<leftarrow> read_uint8 header 3;
       frames_len \<leftarrow> read_uint8 header 2;
       Some (unat key_len, unat frames_len) }
     else Some (unat key_len, 0) }"

definition decode_header_body ::
  "libm \<Rightarrow> codec \<Rightarrow> bytes \<Rightarrow> bytes \<Rightarrow> (errc + (packet \<times> nat)) run" where
  "decode_header_body m c header body =
     (case (span_at header 0, span_at header 1) of
        (Some mgc, Some command) \<Rightarrow>
          and_then (decode_magic header (default_packet\<lparr>pkt_command := command\<rparr>)) (\<lambda>pkt.
          and_then (returns (do {
            dtype \<leftarrow> span_at header 5;
            opq \<leftarrow> read_uint32 header 12;
            cas \<leftarrow> read_uint64 header 16;
            ext_len \<leftarrow> read_uint8 header 4;
            (key_len, frames_len) \<leftarrow> decode_lengths mgc header;
            Some (pkt\<lparr>pkt_datatype := dtype, pkt_opaque := opq, pkt_cas := cas\<rparr>,
                  unat ext_len, key_len, frames_len) })) (\<lambda>(pkt, ext_len, key_len, frames_len).
          if frames_len + ext_len + key_len > length body
          then fails (errc_network network_protocol_error)
          else and_then (decode_body m c mgc body frames_len ext_len key_len pkt) (\<lambda>pkt.
            Some (Inr (pkt, length header + length body)))))
      | _ \<Rightarrow> None)"

text \<open>The source returns a default packet and no length beside every error.\<close>

definition decode_packet :: "libm \<Rightarrow> codec \<Rightarrow> bytes \<Rightarrow> (errc + (packet \<times> nat)) run" where
  "decode_packet m c input =
     (if input = [] then fails (errc_network network_end_of_stream)
      else if length input < 24 then fails (errc_network network_need_more_data)
      else let header = take 24 input in
        (case read_uint32 header 8 of
           None \<Rightarrow> None
         | Some body_len \<Rightarrow>
             if length input < 24 + unat body_len then fails (errc_network network_need_more_data)
             else decode_header_body m c header (take (unat body_len) (drop 24 input))))"

subsection \<open>The encoder as a sequence of checked writes\<close>

type_synonym stage = "errc option \<times> bytes"

definition run_stage :: "stage \<Rightarrow> buffer_writer \<Rightarrow> (errc + buffer_writer) run" where
  "run_stage s w = (case fst s of Some e \<Rightarrow> fails e | None \<Rightarrow> returns (write_bytes (snd s) w))"

primrec run_stages :: "stage list \<Rightarrow> buffer_writer \<Rightarrow> (errc + buffer_writer) run" where
  "run_stages [] w = Some (Inr w)"
| "run_stages (s # ss) w = and_then (run_stage s w) (run_stages ss)"

lemma run_stage_pass [simp]: "run_stage (None, bs) w = returns (write_bytes bs w)"
  by (simp add: run_stage_def)

lemma run_stage_fail [simp]: "run_stage (Some e, bs) w = fails e"
  by (simp add: run_stage_def)

lemma run_stages_append: "run_stages (xs @ ys) w = and_then (run_stages xs w) (run_stages ys)"
proof (induction xs arbitrary: w)
  case (Cons s xs)
  then have "run_stages (xs @ ys) = (\<lambda>w. and_then (run_stages xs w) (run_stages ys))"
    by (rule ext)
  then show ?case by (simp add: and_then_assoc)
qed simp

lemma run_stages_pass:
  "list_all (\<lambda>s. fst s = None) ss \<Longrightarrow>
     run_stages ss w = returns (write_bytes (concat (map snd ss)) w)"
proof (induction ss arbitrary: w)
  case (Cons s ss)
  then have "run_stages ss = (\<lambda>w. returns (write_bytes (concat (map snd ss)) w))"
    by (intro ext) simp
  with Cons.prems show ?case
    by (cases "write_bytes (snd s) w") (simp_all add: run_stage_def flip: write_bytes_append)
qed simp

lemma run_stages_safe:
  "woffset w + length (concat (map snd ss)) \<le> length (store w) \<Longrightarrow> run_stages ss w \<noteq> None"
proof (induction ss arbitrary: w)
  case (Cons s ss)
  show ?case
  proof (cases "fst s")
    case None
    have "woffset w + length (snd s) \<le> length (store w)" using Cons.prems by simp
    then obtain w' where w': "write_bytes (snd s) w = Some w'"
        "length (store w') = length (store w)" "woffset w' = woffset w + length (snd s)"
      by (rule write_bytes_fits)
    then have "run_stages ss w' \<noteq> None" using Cons by simp
    then show ?thesis using None w' by (simp add: run_stage_def)
  qed (simp add: run_stage_def fails_def)
qed simp

subsection \<open>Frames\<close>

type_synonym frame = "frame_type \<times> bytes"

fun frame_bytes :: "frame \<Rightarrow> bytes" where
  "frame_bytes (t, d) =
     (if length d < 15 then (push_bit 4 t OR of_nat (length d)) # d
      else (push_bit 4 t OR 15) # of_nat (length d - 15) # d)"

abbreviation frames_bytes :: "frame list \<Rightarrow> bytes" where
  "frames_bytes fs \<equiv> concat (map frame_bytes fs)"

definition barrier_frames :: "packet \<Rightarrow> frame list" where
  "barrier_frames p = (if pkt_barrier p then [(request_barrier, [])] else [])"

definition durability_frames :: "packet \<Rightarrow> frame list" where
  "durability_frames p =
     (case pkt_durability_level p of None \<Rightarrow> []
      | Some level \<Rightarrow> [(request_sync_durability, level #
          (case pkt_durability_timeout p of None \<Rightarrow> []
           | Some t \<Rightarrow> be16_bytes (word_of_int (min t 65535))))])"

definition stream_id_frames :: "packet \<Rightarrow> frame list" where
  "stream_id_frames p =
     (case pkt_stream_id p of None \<Rightarrow> [] | Some sid \<Rightarrow> [(request_stream_id, be16_bytes sid)])"

definition open_tracing_frames :: "packet \<Rightarrow> frame list" where
  "open_tracing_frames p =
     (case pkt_open_tracing p of None \<Rightarrow> [] | Some ctx \<Rightarrow> [(request_open_tracing, ctx)])"

definition server_duration_frames :: "libm \<Rightarrow> codec \<Rightarrow> packet \<Rightarrow> frame list" where
  "server_duration_frames m c p =
     (case pkt_server_duration p of None \<Rightarrow> []
      | Some d \<Rightarrow> if is_feature_enabled c feature_tracing then []
          else [(response_server_duration, be16_bytes (encode_server_duration m d))])"

definition user_impersonation_frames :: "packet \<Rightarrow> frame list" where
  "user_impersonation_frames p =
     (case pkt_user_impersonation p of None \<Rightarrow> []
      | Some user \<Rightarrow> [(request_user_impersonation, user)])"

definition preserve_expiry_frames :: "packet \<Rightarrow> frame list" where
  "preserve_expiry_frames p =
     (if pkt_preserve_expiry p then [(request_preserve_expiry, [])] else [])"

lemmas packet_frame_defs = barrier_frames_def durability_frames_def stream_id_frames_def
  open_tracing_frames_def server_duration_frames_def user_impersonation_frames_def
  preserve_expiry_frames_def

definition packet_frames :: "libm \<Rightarrow> codec \<Rightarrow> packet \<Rightarrow> frame list" where
  "packet_frames m c p = barrier_frames p @ durability_frames p @ stream_id_frames p @
     open_tracing_frames p @ server_duration_frames m c p @ user_impersonation_frames p @
     preserve_expiry_frames p"

text \<open>The check that guards a request frame, given the feature it needs.\<close>

definition request_check :: "packet \<Rightarrow> bool \<Rightarrow> bool \<Rightarrow> errc option" where
  "request_check p present feature_on =
     (if present
      then if pkt_magic p \<noteq> magic_client_request then Some (errc_common common_invalid_argument)
           else if \<not> feature_on then Some (errc_common common_feature_not_available)
           else None
      else None)"

definition frame_stages :: "libm \<Rightarrow> codec \<Rightarrow> packet \<Rightarrow> stage list" where
  "frame_stages m c p = [
     (request_check p (pkt_barrier p) True, frames_bytes (barrier_frames p)),
     (request_check p (pkt_durability_level p \<noteq> None)
        (is_feature_enabled c feature_sync_replication), frames_bytes (durability_frames p)),
     (request_check p (pkt_stream_id p \<noteq> None) True, frames_bytes (stream_id_frames p)),
     (request_check p (pkt_open_tracing p \<noteq> None)
        (is_feature_enabled c feature_open_tracing), frames_bytes (open_tracing_frames p)),
     (if pkt_server_duration p \<noteq> None \<and> pkt_magic p \<noteq> magic_client_response
      then Some (errc_common common_invalid_argument) else None,
      frames_bytes (server_duration_frames m c p)),
     (request_check p (pkt_user_impersonation p \<noteq> None) True,
        frames_bytes (user_impersonation_frames p)),
     (request_check p (pkt_preserve_expiry p) (is_feature_enabled c feature_preserve_ttl),
        frames_bytes (preserve_expiry_frames p)),
     (if pkt_unsupported_frames p \<noteq> [] then Some (errc_common common_invalid_argument)
      else None, [])]"

lemma frame_stages_bytes: "concat (map snd (frame_stages m c p)) = frames_bytes (packet_frames m c p)"
  by (simp add: frame_stages_def packet_frames_def)

lemma check_stage:
  "(if P then fails e else Some (Inr w)) = run_stage (if P then Some e else None, []) w"
  by simp

lemma write_long_frame_bytes: "write_long_frame t d = write_bytes (frame_bytes (t, d))"
  by (rule ext) (simp add: write_long_frame_def writer_simps)

lemma write_barrier_stage:
  "write_barrier p w = run_stage (request_check p (pkt_barrier p) True,
     frames_bytes (barrier_frames p)) w"
  by (simp add: write_barrier_def request_check_def barrier_frames_def writer_simps)

lemma write_durability_stage:
  "write_durability c p w = run_stage (request_check p (pkt_durability_level p \<noteq> None)
     (is_feature_enabled c feature_sync_replication), frames_bytes (durability_frames p)) w"
  by (simp add: write_durability_def request_check_def durability_frames_def writer_simps
        split: option.splits)

lemma write_stream_id_stage:
  "write_stream_id p w = run_stage (request_check p (pkt_stream_id p \<noteq> None) True,
     frames_bytes (stream_id_frames p)) w"
  by (simp add: write_stream_id_def request_check_def stream_id_frames_def writer_simps
        split: option.splits)

lemma write_open_tracing_stage:
  "write_open_tracing c p w = run_stage (request_check p (pkt_open_tracing p \<noteq> None)
     (is_feature_enabled c feature_open_tracing), frames_bytes (open_tracing_frames p)) w"
  by (simp add: write_open_tracing_def request_check_def open_tracing_frames_def
        write_long_frame_bytes split: option.splits)

lemma write_server_duration_stage:
  "write_server_duration m c p w = run_stage
     (if pkt_server_duration p \<noteq> None \<and> pkt_magic p \<noteq> magic_client_response
      then Some (errc_common common_invalid_argument) else None,
      frames_bytes (server_duration_frames m c p)) w"
  by (simp add: write_server_duration_def server_duration_frames_def writer_simps
        split: option.splits)

lemma write_user_impersonation_stage:
  "write_user_impersonation p w = run_stage (request_check p (pkt_user_impersonation p \<noteq> None) True,
     frames_bytes (user_impersonation_frames p)) w"
  by (simp add: write_user_impersonation_def request_check_def user_impersonation_frames_def
        write_long_frame_bytes split: option.splits)

lemma write_preserve_expiry_stage:
  "write_preserve_expiry c p w = run_stage (request_check p (pkt_preserve_expiry p)
     (is_feature_enabled c feature_preserve_ttl), frames_bytes (preserve_expiry_frames p)) w"
  by (simp add: write_preserve_expiry_def request_check_def preserve_expiry_frames_def
        writer_simps)

lemmas frame_stage_lemmas = write_barrier_stage write_durability_stage write_stream_id_stage
  write_open_tracing_stage write_server_duration_stage write_user_impersonation_stage
  write_preserve_expiry_stage

lemma write_frames_stages: "write_frames m c p w = run_stages (frame_stages m c p) w"
  unfolding write_frames_def frame_stages_def frame_stage_lemmas run_stages.simps check_stage
    and_then_Inr ..

subsection \<open>The whole packet\<close>

abbreviation is_request_magic :: "magic \<Rightarrow> bool" where
  "is_request_magic g \<equiv> g = magic_client_request \<or> g = magic_alt_client_request"

abbreviation is_response_magic :: "magic \<Rightarrow> bool" where
  "is_response_magic g \<equiv> g = magic_client_response \<or> g = magic_alt_client_response"

definition status_check :: "packet \<Rightarrow> errc option" where
  "status_check p =
     (if is_request_magic (pkt_magic p) \<and> pkt_status p = 0 \<or>
         is_response_magic (pkt_magic p) \<and> pkt_vbucket p = 0
      then None else Some (errc_common common_invalid_argument))"

definition status_field :: "packet \<Rightarrow> u16" where
  "status_field p = (if is_request_magic (pkt_magic p) then pkt_vbucket p else pkt_status p)"

definition lengths_bytes :: "nat \<Rightarrow> nat \<Rightarrow> bytes" where
  "lengths_bytes frames_len key_len =
     (if frames_len > 0 then [of_nat frames_len, of_nat key_len] else be16_bytes (of_nat key_len))"

definition packet_stages ::
  "libm \<Rightarrow> codec \<Rightarrow> packet \<Rightarrow> magic \<Rightarrow> nat \<Rightarrow> bytes \<Rightarrow> bytes \<Rightarrow> stage list" where
  "packet_stages m c p mgc frames_len key extras =
     [(None, [mgc, pkt_command p] @ lengths_bytes frames_len (length key) @
             [of_nat (length extras), pkt_datatype p]),
      (status_check p, be16_bytes (status_field p)),
      (None, be32_bytes (of_nat (length key + length extras + length (pkt_value p) + frames_len)) @
             be32_bytes (pkt_opaque p) @ be64_bytes (pkt_cas p))] @
     frame_stages m c p @
     [(None, extras @ key @ pkt_value p)]"

lemma lengths_bytes_length [simp]: "length (lengths_bytes a b) = 2"
  by (simp add: lengths_bytes_def)

lemma packet_stages_length:
  "length (concat (map snd (packet_stages m c p mgc frames_len key extras))) =
     24 + length (frames_bytes (packet_frames m c p)) + length extras + length key +
     length (pkt_value p)"
proof -
  have "length (concat (map snd (frame_stages m c p))) = length (frames_bytes (packet_frames m c p))"
    by (simp only: frame_stages_bytes)
  then show ?thesis by (simp add: packet_stages_def)
qed

lemma write_lengths_bytes: "write_lengths a b w = write_bytes (lengths_bytes a b) w"
  by (simp add: write_lengths_def lengths_bytes_def writer_simps)

lemma write_status_stage:
  "write_status_or_vbucket p w = run_stage (status_check p, be16_bytes (status_field p)) w"
  by (auto simp: write_status_or_vbucket_def status_check_def status_field_def writer_simps)

lemma write_packet_stages:
  "write_packet m c p mgc frames_len key extras =
     and_then (run_stages (packet_stages m c p mgc frames_len key extras)
         (new_buffer_writer (24 + length extras + frames_len + length key + length (pkt_value p))))
       (\<lambda>w. Some (Inr (store w)))"
  unfolding write_packet_def packet_stages_def run_stages_append write_frames_stages
    write_status_stage Let_def
  by (simp add: writer_simps write_lengths_bytes and_then_assoc)

lemma long_frame_length: "length (frame_bytes (t, d)) = long_frame_len (length d)"
  by (simp add: long_frame_len_def)

text \<open>
  The counted length is the written length, unless an open tracing frame follows a barrier,
  durability or stream frame, or a server duration is counted and not written.
\<close>

definition tracing_conflict :: "packet \<Rightarrow> bool" where
  "tracing_conflict p \<longleftrightarrow> pkt_open_tracing p \<noteq> None \<and>
     (pkt_barrier p \<or> pkt_durability_level p \<noteq> None \<or> pkt_stream_id p \<noteq> None)"

definition skipped_duration :: "codec \<Rightarrow> packet \<Rightarrow> bool" where
  "skipped_duration c p \<longleftrightarrow>
     pkt_server_duration p \<noteq> None \<and> is_feature_enabled c feature_tracing"

lemma frames_length_count:
  "length (frames_bytes (packet_frames m c p)) + (if skipped_duration c p then 3 else 0) =
     frames_length p + (if pkt_open_tracing p \<noteq> None
       then length (frames_bytes (barrier_frames p @ durability_frames p @ stream_id_frames p))
       else 0)"
  unfolding packet_frames_def packet_frame_defs frames_length_def Let_def skipped_duration_def
  by (auto simp: long_frame_len_def split: option.splits)

subsection \<open>Memory safety of the encoder\<close>

lemma encode_key_defined: "encode_key c p \<noteq> None"
  by (simp add: encode_key_def fails_def unsigned_leb128_u32 put_uint32_bytes)

lemma write_packet_safe:
  assumes "\<not> tracing_conflict p"
  shows "write_packet m c p mgc (frames_length p) key extras \<noteq> None"
proof -
  have "(if pkt_open_tracing p \<noteq> None
       then length (frames_bytes (barrier_frames p @ durability_frames p @ stream_id_frames p))
       else 0) = 0"
    using assms by (auto simp: tracing_conflict_def packet_frame_defs)
  then have "length (frames_bytes (packet_frames m c p)) \<le> frames_length p"
    using frames_length_count [of m c p] by (simp split: if_splits)
  then have "run_stages (packet_stages m c p mgc (frames_length p) key extras)
      (new_buffer_writer (24 + length extras + frames_length p + length key +
         length (pkt_value p))) \<noteq> None"
    by (intro run_stages_safe) (simp only: packet_stages_length, simp add: new_buffer_writer_def)
  then show ?thesis
    by (auto simp: write_packet_stages and_then_def split: option.splits sum.splits)
qed

text \<open>
  C12: encoding a packet never stores outside the buffer it allocates, whatever the packet's
  fields, lengths and frames are, except when an open tracing frame is combined with a barrier,
  durability or stream frame.
\<close>

theorem encode_packet_safe:
  assumes "\<not> tracing_conflict p"
  shows "encode_packet m c p \<noteq> None"
proof -
  obtain r where "encode_key c p = Some r" using encode_key_defined by blast
  then show ?thesis
    using write_packet_safe [OF assms, of m c]
    by (cases r) (auto simp: encode_packet_def fails_def split: sum.splits)
qed

lemma run_stages_Inr:
  "run_stages ss w = Some (Inr w') \<Longrightarrow> list_all (\<lambda>s. fst s = None) ss"
proof (induction ss arbitrary: w)
  case (Cons s ss)
  then show ?case
    by (auto simp: run_stage_def and_then_def fails_def returns_def
        split: option.splits sum.splits)
qed simp

lemma frame_stages_pass_tracing:
  "list_all (\<lambda>s. fst s = None) (frame_stages m c p) \<Longrightarrow> pkt_open_tracing p \<noteq> None \<Longrightarrow>
     pkt_server_duration p = None"
  by (auto simp: frame_stages_def request_check_def split: if_splits)

lemma write_packet_conflict:
  assumes "tracing_conflict p"
  shows "write_packet m c p mgc (frames_length p) key extras \<noteq> Some (Inr bs)"
proof
  let ?ss = "packet_stages m c p mgc (frames_length p) key extras"
  let ?w = "new_buffer_writer (24 + length extras + frames_length p + length key +
    length (pkt_value p))"
  assume "write_packet m c p mgc (frames_length p) key extras = Some (Inr bs)"
  then obtain w where run: "run_stages ?ss ?w = Some (Inr w)"
    by (auto simp: write_packet_stages and_then_def split: option.splits sum.splits)
  then have pass: "list_all (\<lambda>s. fst s = None) ?ss" by (rule run_stages_Inr)
  then have "list_all (\<lambda>s. fst s = None) (frame_stages m c p)"
    by (simp add: packet_stages_def)
  then have "\<not> skipped_duration c p"
    using assms frame_stages_pass_tracing by (auto simp: tracing_conflict_def skipped_duration_def)
  then have "frames_length p < length (frames_bytes (packet_frames m c p))"
    using frames_length_count [of m c p] assms
    by (auto simp: tracing_conflict_def packet_frame_defs)
  then have "write_bytes (concat (map snd ?ss)) ?w = None"
    unfolding write_bytes_new packet_stages_length by simp
  then show False using run run_stages_pass [OF pass, of ?w] by simp
qed

text \<open>
  a packet that combines an open tracing frame with a barrier, durability or stream frame is
  never encoded: the length of the earlier frames is not counted, and unless a check rejects the
  packet the writes run past the end of the buffer.
\<close>

theorem encode_packet_tracing_conflict:
  assumes "tracing_conflict p"
  shows "encode_packet m c p \<noteq> Some (Inr bs)"
  using write_packet_conflict [OF assms, of m c]
  by (auto simp: encode_packet_def and_then_def fails_def split: option.splits sum.splits)

text \<open>Concrete packets at which the two theorems apply.\<close>

definition sample_libm :: libm where
  "sample_libm = \<lparr>pow_inv = (\<lambda>x. x div 4), pow_fwd = (\<lambda>x. x * 8)\<rparr>"

definition sample_codec :: codec where
  "sample_codec = new_codec {feature_collections, feature_alt_request_support,
     feature_sync_replication, feature_open_tracing, feature_preserve_ttl}"

definition sample_request :: packet where
  "sample_request = default_packet\<lparr>pkt_magic := magic_client_request, pkt_command := opcode_upsert,
     pkt_vbucket := 7, pkt_opaque := 42, pkt_cas := 9, pkt_collection_id := 300,
     pkt_key := [107], pkt_extras := [1, 2], pkt_value := [3, 4, 5],
     pkt_durability_level := Some durability_majority, pkt_durability_timeout := Some 1500,
     pkt_preserve_expiry := True\<rparr>"

theorem encode_packet_safe_witness:
  "encode_packet sample_libm sample_codec sample_request \<noteq> None"
  by (rule encode_packet_safe) (simp add: tracing_conflict_def sample_request_def default_packet_def)

theorem encode_packet_tracing_conflict_witness:
  "encode_packet sample_libm sample_codec (sample_request\<lparr>pkt_open_tracing := Some [1, 2]\<rparr>)
     \<noteq> Some (Inr [])"
  by (rule encode_packet_tracing_conflict)
    (simp add: tracing_conflict_def sample_request_def default_packet_def)

end
