(* ===== verification/Mcbp_Roundtrip.thy ===== *)
theory Mcbp_Roundtrip
  imports Mcbp_Codec
begin

text \<open>
  The decoder against the encoder. A sequence of frames decodes to the effect of each frame on the
  packet, the header fields are read back through the \<open>wire_field\<close> interface, and every packet
  that satisfies \<open>packet_ok\<close> survives encoding and decoding, whatever follows it in the stream.
\<close>

subsection \<open>Decoding a sequence of frames\<close>

lemma low_nibble_bit: "unat (t :: byte) < 16 \<Longrightarrow> bit t i \<Longrightarrow> i < 4"
proof -
  assume "unat t < 16" and i: "bit t i"
  then have "take_bit 4 t = t"
    by (intro word_unat_eq_iff [THEN iffD2])
      (simp add: unsigned_take_bit_eq take_bit_nat_eq_self)
  then show "i < 4" using i by (metis bit_take_bit_iff)
qed

lemma high_mask: "(0xf0 :: byte) = push_bit 4 (mask 4)" by (simp add: mask_eq_exp_minus_1)
lemma low_mask: "(0x0f :: byte) = mask 4" by (simp add: mask_eq_exp_minus_1)

lemma nibbles:
  fixes t n :: byte
  assumes "unat t < 16" and "unat n < 16"
  shows "drop_bit 4 ((push_bit 4 t OR n) AND 0xf0) = t" and "(push_bit 4 t OR n) AND 0x0f = n"
proof -
  note bits = low_nibble_bit [OF assms(1)] low_nibble_bit [OF assms(2)]
  show "drop_bit 4 ((push_bit 4 t OR n) AND 0xf0) = t"
    unfolding high_mask by (rule bit_word_eqI) (auto simp: bit_simps dest: bits)
  show "(push_bit 4 t OR n) AND 0x0f = n"
    unfolding low_mask by (rule bit_word_eqI) (auto simp: bit_simps dest: bits)
qed

definition frame_ok :: "frame \<Rightarrow> bool" where
  "frame_ok f \<longleftrightarrow> unat (fst f) < 15 \<and> length (snd f) < 271"

lemma frame_header_at_frame:
  assumes "frame_ok (t, d)"
  shows "frame_header_at (pre @ frame_bytes (t, d) @ rest) (length pre) =
    Some (t, length d, length pre + (if length d < 15 then 1 else 2))"
proof -
  have t: "unat t < 16" "t \<noteq> 15" using assms by (auto simp: frame_ok_def)
  show ?thesis
  proof (cases "length d < 15")
    case True
    then have n: "unat (of_nat (length d) :: byte) < 16" by simp
    show ?thesis using True t nibbles [OF t(1) n] span_at_shift [of pre _ 0]
      by (simp add: frame_header_at_def)
  next
    case False
    have n: "unat (15 :: byte) < 16" by simp
    obtain k where k: "length d = 15 + k" using False le_Suc_ex [of 15 "length d"] by auto
    have "k < 256" using assms k by (simp add: frame_ok_def)
    moreover have "span_at (pre @ (push_bit 4 t OR 15) # of_nat k # d @ rest) (Suc (length pre))
        = Some (of_nat k)"
      using span_at_shift [of pre _ 1] by simp
    ultimately show ?thesis using t nibbles [OF t(1) n] span_at_shift [of pre _ 0]
      by (simp add: frame_header_at_def k)
  qed
qed

declare frame_bytes.simps [simp del]

lemma be_read_middle: "be_read (pre @ d @ rest) (length pre) (length d) = Some d"
  by (simp add: be_read_def mem_read_middle)

lemma be_read_own: "be_read d 0 (length d) = Some d"
  by (simp add: be_read_def)

lemma span_at_middle: "0 < length d \<Longrightarrow> span_at (pre @ d @ rest) (length pre) = span_at d 0"
  using span_at_shift [of pre "d @ rest" 0] by (simp add: span_at_append_left)

lemma read_uint16_middle:
  "i + 2 \<le> length d \<Longrightarrow> read_uint16 (pre @ d @ rest) (length pre + i) = read_uint16 d i"
  by (simp add: be16.field_skip be16.field_prefix)

lemma request_frame_window:
  "decode_request_frame (pre @ d @ rest) (length pre) t (length d) pkt =
     decode_request_frame d 0 t (length d) pkt"
  unfolding decode_request_frame_def unsupported_frame_at_def be_read_middle be_read_own
  using read_uint16_middle [of 0 d pre rest] read_uint16_middle [of 1 d pre rest]
  by (intro if_cong refl) (auto simp: span_at_middle)

lemma response_frame_window:
  "decode_response_frame m (pre @ d @ rest) (length pre) t (length d) pkt =
     decode_response_frame m d 0 t (length d) pkt"
proof -
  have "read_uint16 (pre @ d @ rest) (length pre) = read_uint16 d 0" if "2 \<le> length d"
    using that be16.field_skip [of pre "d @ rest" 0] by (simp add: be16.field_prefix)
  then show ?thesis
    by (simp add: decode_response_frame_def unsupported_frame_at_def be_read_middle be_read_own)
qed

text \<open>What a list of frames does to a packet, without offsets.\<close>

fun apply_frame :: "libm \<Rightarrow> magic \<Rightarrow> frame \<Rightarrow> packet \<Rightarrow> packet run" where
  "apply_frame m mgc (t, d) pkt =
     (if mgc = magic_alt_client_request then decode_request_frame d 0 t (length d) pkt
      else decode_response_frame m d 0 t (length d) pkt)"

declare apply_frame.simps [simp del]

primrec apply_frames :: "libm \<Rightarrow> magic \<Rightarrow> frame list \<Rightarrow> packet \<Rightarrow> packet run" where
  "apply_frames m mgc [] pkt = Some pkt"
| "apply_frames m mgc (f # fs) pkt = do { pkt \<leftarrow> apply_frame m mgc f pkt; apply_frames m mgc fs pkt }"

lemma apply_frames_append:
  "apply_frames m mgc (xs @ ys) pkt = do { pkt \<leftarrow> apply_frames m mgc xs pkt; apply_frames m mgc ys pkt }"
  by (induction xs arbitrary: pkt) (simp_all cong: bind_option_cong)

lemma frame_bytes_nonempty: "0 < length (frame_bytes f)"
  by (cases f) (simp add: frame_bytes.simps)

lemma decode_frames_step:
  assumes "mgc = magic_alt_client_request \<or> mgc = magic_alt_client_response"
    and "off < L" and "frame_header_at body off = Some (t, n, off')"
  shows "decode_frames m mgc L body off pkt =
    (case (if mgc = magic_alt_client_request then decode_request_frame body off' t n pkt
           else decode_response_frame m body off' t n pkt) of
       None \<Rightarrow> None | Some pkt' \<Rightarrow> decode_frames m mgc L body (off' + n) pkt')"
  by (subst decode_frames.simps) (use assms in auto)

lemma frame_window:
  "(if mgc = magic_alt_client_request
    then decode_request_frame (pre @ d @ rest) (length pre) t (length d) pkt
    else decode_response_frame m (pre @ d @ rest) (length pre) t (length d) pkt)
   = apply_frame m mgc (t, d) pkt"
  by (simp add: request_frame_window response_frame_window apply_frame.simps)

lemma frame_bytes_split:
  "\<exists>hd. frame_bytes (t, d) = hd @ d \<and> length hd = (if length d < 15 then 1 else 2)"
proof (cases "length d < 15")
  case True
  then show ?thesis by (intro exI [of _ "[push_bit 4 t OR of_nat (length d)]"]) (simp add: frame_bytes.simps)
next
  case False
  then show ?thesis
    by (intro exI [of _ "[push_bit 4 t OR 15, of_nat (length d - 15)]"]) (simp add: frame_bytes.simps)
qed

lemma decode_frames_list:
  assumes "mgc = magic_alt_client_request \<or> mgc = magic_alt_client_response"
    and "list_all frame_ok fs"
  shows "decode_frames m mgc (length pre + length (frames_bytes fs)) (pre @ frames_bytes fs @ rest)
      (length pre) pkt = returns (apply_frames m mgc fs pkt)"
  using assms(2)
proof (induction fs arbitrary: pre pkt)
  case (Cons f fs)
  obtain t d where f: "f = (t, d)" by (cases f)
  obtain hd where fb: "frame_bytes f = hd @ d"
      and hd: "length hd = (if length d < 15 then 1 else 2)"
    using frame_bytes_split [of t d] unfolding f by blast
  let ?body = "pre @ hd @ d @ frames_bytes fs @ rest"
  let ?L = "length pre + (length hd + length d + length (frames_bytes fs))"
  have "frame_header_at ?body (length pre) = Some (t, length d, length (pre @ hd))"
    using Cons.prems frame_header_at_frame [of t d pre "frames_bytes fs @ rest"] hd fb
    by (simp add: f)
  note step = decode_frames_step [OF assms(1) _ this, of ?L m pkt]
  have "length pre < ?L" using hd by (simp split: if_splits)
  note step [OF this]
  also have "(if mgc = magic_alt_client_request
        then decode_request_frame ?body (length (pre @ hd)) t (length d) pkt
        else decode_response_frame m ?body (length (pre @ hd)) t (length d) pkt)
      = apply_frame m mgc f pkt"
    using frame_window [of mgc "pre @ hd" d "frames_bytes fs @ rest" t pkt m]
    unfolding f append_assoc .
  finally have "decode_frames m mgc ?L ?body (length pre) pkt =
      (case apply_frame m mgc f pkt of None \<Rightarrow> None
       | Some pkt' \<Rightarrow> decode_frames m mgc ?L ?body (length (pre @ hd) + length d) pkt')" .
  moreover have "decode_frames m mgc ?L ?body (length (pre @ hd) + length d) pkt' =
      returns (apply_frames m mgc fs pkt')" for pkt'
    using Cons.IH [of "pre @ hd @ d" pkt'] Cons.prems by (simp add: add.assoc)
  ultimately show ?case
    by (simp add: fb returns_def add.assoc split: option.splits)
qed (simp add: decode_frames.simps)

subsection \<open>Reading the header back\<close>

definition packet_header ::
  "magic \<Rightarrow> client_opcode \<Rightarrow> bytes \<Rightarrow> byte \<Rightarrow> byte \<Rightarrow> u16 \<Rightarrow> u32 \<Rightarrow> u32 \<Rightarrow> u64 \<Rightarrow> bytes" where
  "packet_header mgc cmd lens ext dt st blen opq cas =
     [mgc, cmd] @ lens @ [ext, dt] @ be16_bytes st @ be32_bytes blen @ be32_bytes opq @
     be64_bytes cas"

lemma packet_header_fields:
  fixes mgc cmd ext dt st blen opq cas
  assumes "lens = [l0, l1]"
  defines "h \<equiv> packet_header mgc cmd lens ext dt st blen opq cas"
  shows "length h = 24" and "span_at h 0 = Some mgc" and "span_at h (Suc 0) = Some cmd"
    and "span_at h 2 = Some l0" and "span_at h 3 = Some l1"
    and "span_at h 4 = Some ext" and "span_at h 5 = Some dt"
    and "read_uint16 h 2 = read_uint16 lens 0" and "read_uint16 h 6 = Some st"
    and "read_uint32 h 8 = Some blen" and "read_uint32 h 12 = Some opq"
    and "read_uint64 h 16 = Some cas"
proof -
  show "length h = 24" "span_at h 0 = Some mgc" "span_at h (Suc 0) = Some cmd"
    "span_at h 2 = Some l0" "span_at h 3 = Some l1" "span_at h 4 = Some ext"
    "span_at h 5 = Some dt"
    by (simp_all add: h_def assms(1) packet_header_def)
  show "read_uint16 h 2 = read_uint16 lens 0"
    using be16.field_skip [of "[mgc, cmd]" "lens @ [ext, dt] @ be16_bytes st @ be32_bytes blen @
        be32_bytes opq @ be64_bytes cas" 0]
      be16.field_prefix [of 0 lens]
    by (simp add: numeral_2_eq_2 h_def assms(1) packet_header_def)
  show "read_uint16 h 6 = Some st"
    using be16.field_at_offset [of 6 "[mgc, cmd, l0, l1, ext, dt]" st]
    by (simp add: h_def assms(1) packet_header_def)
  show "read_uint32 h 8 = Some blen"
    using be32.field_at_offset [of 8 "[mgc, cmd, l0, l1, ext, dt] @ be16_bytes st" blen]
    by (simp add: h_def assms(1) packet_header_def)
  show "read_uint32 h 12 = Some opq"
    using be32.field_at_offset [of 12 "[mgc, cmd, l0, l1, ext, dt] @ be16_bytes st @
        be32_bytes blen" opq]
    by (simp add: h_def assms(1) packet_header_def)
  show "read_uint64 h 16 = Some cas"
    using be64.field_at_offset [of 16 "[mgc, cmd, l0, l1, ext, dt] @ be16_bytes st @
        be32_bytes blen @ be32_bytes opq" cas "[]"]
    by (simp add: h_def assms(1) packet_header_def)
qed

subsection \<open>Reading the frames back\<close>

lemma apply_barrier:
  "pkt_barrier pkt = False \<Longrightarrow>
     apply_frames m magic_alt_client_request (barrier_frames p) pkt =
       Some (pkt\<lparr>pkt_barrier := pkt_barrier p\<rparr>)"
  by (cases pkt) (simp add: barrier_frames_def apply_frame.simps decode_request_frame_def)

definition durability_ok :: "packet \<Rightarrow> bool" where
  "durability_ok p \<longleftrightarrow>
     (case pkt_durability_timeout p of None \<Rightarrow> True
      | Some t \<Rightarrow> pkt_durability_level p \<noteq> None \<and> 0 \<le> t \<and> t \<le> 65535)"

lemma read_be16: "read_uint16 (be16_bytes v) 0 = Some v" "read_uint16 (x # be16_bytes v) 1 = Some v"
  using be16.get_put [of v] be16.field_at_offset [of 1 "[x]" v "[]"] by simp_all

lemma apply_durability:
  assumes "pkt_durability_level pkt = None" and "pkt_durability_timeout pkt = None"
    and "durability_ok p"
  shows "apply_frames m magic_alt_client_request (durability_frames p) pkt =
    Some (pkt\<lparr>pkt_durability_level := pkt_durability_level p,
              pkt_durability_timeout := pkt_durability_timeout p\<rparr>)"
proof (cases "pkt_durability_timeout p")
  case None
  with assms show ?thesis
    by (cases pkt) (simp add: durability_frames_def apply_frame.simps decode_request_frame_def
          split: option.splits)
next
  case (Some t)
  with assms(3) obtain l where "pkt_durability_level p = Some l" "0 \<le> t" "t \<le> 65535"
    by (auto simp: durability_ok_def)
  with assms Some show ?thesis
    using read_be16(2) [of l "word_of_int t"]
    by (cases pkt) (simp add: durability_frames_def apply_frame.simps decode_request_frame_def
          take_bit_int_eq_self unsigned_of_int min_def)
qed

lemma apply_stream_id:
  "pkt_stream_id pkt = None \<Longrightarrow>
     apply_frames m magic_alt_client_request (stream_id_frames p) pkt =
       Some (pkt\<lparr>pkt_stream_id := pkt_stream_id p\<rparr>)"
  by (cases pkt) (simp add: stream_id_frames_def apply_frame.simps decode_request_frame_def
        read_be16 split: option.splits)

lemma apply_open_tracing:
  "pkt_open_tracing pkt = None \<Longrightarrow> pkt_open_tracing p \<noteq> Some [] \<Longrightarrow>
     apply_frames m magic_alt_client_request (open_tracing_frames p) pkt =
       Some (pkt\<lparr>pkt_open_tracing := pkt_open_tracing p\<rparr>)"
  by (cases pkt) (auto simp: open_tracing_frames_def apply_frame.simps decode_request_frame_def
        be_read_own split: option.splits)

lemma apply_user_impersonation:
  "pkt_user_impersonation pkt = None \<Longrightarrow> pkt_user_impersonation p \<noteq> Some [] \<Longrightarrow>
     apply_frames m magic_alt_client_request (user_impersonation_frames p) pkt =
       Some (pkt\<lparr>pkt_user_impersonation := pkt_user_impersonation p\<rparr>)"
  by (cases pkt) (auto simp: user_impersonation_frames_def apply_frame.simps
        decode_request_frame_def be_read_own split: option.splits)

lemma apply_preserve_expiry:
  "pkt_preserve_expiry pkt = False \<Longrightarrow>
     apply_frames m magic_alt_client_request (preserve_expiry_frames p) pkt =
       Some (pkt\<lparr>pkt_preserve_expiry := pkt_preserve_expiry p\<rparr>)"
  by (cases pkt) (simp add: preserve_expiry_frames_def apply_frame.simps decode_request_frame_def)

lemma apply_server_duration:
  "pkt_server_duration pkt = None \<Longrightarrow> \<not> is_feature_enabled c feature_tracing \<Longrightarrow>
     apply_frames m magic_alt_client_response (server_duration_frames m c p) pkt =
       Some (pkt\<lparr>pkt_server_duration := map_option
         (\<lambda>d. decode_server_duration m (encode_server_duration m d)) (pkt_server_duration p)\<rparr>)"
  by (cases pkt) (simp add: server_duration_frames_def apply_frame.simps decode_response_frame_def
        read_be16 split: option.splits)

lemmas apply_frame_lemmas = apply_barrier apply_durability apply_stream_id apply_open_tracing
  apply_user_impersonation apply_preserve_expiry apply_server_duration

subsection \<open>Round trip\<close>

definition wire_key :: "codec \<Rightarrow> packet \<Rightarrow> bytes" where
  "wire_key c p =
     (if collections_enabled c \<and> supports_collection_id (pkt_command p)
      then leb_bytes (unat (pkt_collection_id p)) @ pkt_key p else pkt_key p)"

text \<open>The packets that survive a round trip, by the part of the packet each condition is about.\<close>

definition collection_ok :: "codec \<Rightarrow> packet \<Rightarrow> bool" where
  "collection_ok c p \<longleftrightarrow>
     (if collections_enabled c
      then pkt_command p \<noteq> opcode_observe \<and> pkt_command p \<noteq> opcode_get_random_key \<and>
           (if supports_collection_id (pkt_command p) then pkt_key p \<noteq> []
            else pkt_collection_id p = 0)
      else pkt_collection_id p = 0)"

definition magic_ok :: "codec \<Rightarrow> packet \<Rightarrow> bool" where
  "magic_ok c p \<longleftrightarrow>
     (if pkt_magic p = magic_client_request
      then pkt_status p = 0 \<and> pkt_status_code p = status_success \<and> pkt_server_duration p = None
      else pkt_magic p = magic_client_response \<and> pkt_vbucket p = 0 \<and>
           pkt_status_code p = (if is_valid_status (pkt_status p) then pkt_status p
                                else status_unknown) \<and>
           \<not> pkt_barrier p \<and> pkt_durability_level p = None \<and> pkt_stream_id p = None \<and>
           pkt_open_tracing p = None \<and> pkt_user_impersonation p = None \<and>
           \<not> pkt_preserve_expiry p \<and> \<not> skipped_duration c p)"

definition frames_supported :: "codec \<Rightarrow> packet \<Rightarrow> bool" where
  "frames_supported c p \<longleftrightarrow>
     durability_ok p \<and> pkt_open_tracing p \<noteq> Some [] \<and> pkt_user_impersonation p \<noteq> Some [] \<and>
     pkt_read_units p = None \<and> pkt_write_units p = None \<and> pkt_unsupported_frames p = [] \<and>
     \<not> tracing_conflict p \<and>
     (pkt_durability_level p = None \<or> is_feature_enabled c feature_sync_replication) \<and>
     (pkt_open_tracing p = None \<or> is_feature_enabled c feature_open_tracing) \<and>
     (\<not> pkt_preserve_expiry p \<or> is_feature_enabled c feature_preserve_ttl) \<and>
     (frames_length p = 0 \<or> pkt_magic p = magic_client_response \<or>
      is_feature_enabled c feature_alt_request_support)"

definition lengths_ok :: "codec \<Rightarrow> packet \<Rightarrow> bool" where
  "lengths_ok c p \<longleftrightarrow>
     length (pkt_extras p) < 256 \<and> frames_length p < 256 \<and>
     length (wire_key c p) < (if frames_length p > 0 then 256 else 65536) \<and>
     length (wire_key c p) + length (pkt_extras p) + length (pkt_value p) + frames_length p
       < 4294967296"

definition packet_ok :: "codec \<Rightarrow> packet \<Rightarrow> bool" where
  "packet_ok c p \<longleftrightarrow> collection_ok c p \<and> magic_ok c p \<and> frames_supported c p \<and> lengths_ok c p"

text \<open>Server durations are stored with a loss of precision; everything else is kept.\<close>

definition decoded_packet :: "libm \<Rightarrow> packet \<Rightarrow> packet" where
  "decoded_packet m p = p\<lparr>pkt_server_duration := map_option
     (\<lambda>d. decode_server_duration m (encode_server_duration m d)) (pkt_server_duration p)\<rparr>"

definition wire_magic :: "packet \<Rightarrow> magic" where
  "wire_magic p =
     (if frames_length p > 0
      then if pkt_magic p = magic_client_request then magic_alt_client_request
           else magic_alt_client_response
      else pkt_magic p)"

definition wire_header :: "codec \<Rightarrow> packet \<Rightarrow> bytes" where
  "wire_header c p = packet_header (wire_magic p) (pkt_command p)
     (lengths_bytes (frames_length p) (length (wire_key c p))) (of_nat (length (pkt_extras p)))
     (pkt_datatype p) (status_field p)
     (of_nat (length (wire_key c p) + length (pkt_extras p) + length (pkt_value p) + frames_length p))
     (pkt_opaque p) (pkt_cas p)"

definition wire_body :: "libm \<Rightarrow> codec \<Rightarrow> packet \<Rightarrow> bytes" where
  "wire_body m c p =
     frames_bytes (packet_frames m c p) @ pkt_extras p @ wire_key c p @ pkt_value p"

lemma frames_length_exact:
  assumes "packet_ok c p"
  shows "frames_length p = length (frames_bytes (packet_frames m c p))"
  using frames_length_count [of m c p] assms
  by (auto simp: packet_ok_def frames_supported_def magic_ok_def skipped_duration_def
        tracing_conflict_def packet_frame_defs split: if_splits)

lemma encode_key_ok:
  "packet_ok c p \<Longrightarrow> encode_key c p = Some (Inr (wire_key c p, pkt_extras p))"
  by (auto simp: encode_key_def wire_key_def packet_ok_def collection_ok_def unsigned_leb128_u32
        split: if_splits)

lemma upgrade_magic_ok:
  "packet_ok c p \<Longrightarrow> upgrade_magic c p (frames_length p) = Inr (wire_magic p)"
  by (auto simp: upgrade_magic_def wire_magic_def packet_ok_def magic_ok_def frames_supported_def
        split: if_splits)

lemma packet_stages_ok:
  "packet_ok c p \<Longrightarrow> list_all (\<lambda>s. fst s = None) (packet_stages m c p g n k e)"
  by (auto simp: packet_stages_def frame_stages_def request_check_def status_check_def
        packet_ok_def magic_ok_def frames_supported_def split: if_splits)

lemma lengths_bytes_pair: "\<exists>l0 l1. lengths_bytes a b = [l0, l1]"
  using lengths_bytes_length [of a b] unfolding length_2_conv .

lemma wire_header_length [simp]: "length (wire_header c p) = 24"
  by (simp add: wire_header_def packet_header_def)

lemma wire_body_length:
  "packet_ok c p \<Longrightarrow> length (wire_body m c p) =
     length (wire_key c p) + length (pkt_extras p) + length (pkt_value p) + frames_length p"
  by (simp add: wire_body_def frames_length_exact [of c p m])

lemma encode_packet_ok:
  assumes "packet_ok c p"
  shows "encode_packet m c p = Some (Inr (wire_header c p @ wire_body m c p))"
proof -
  let ?ss = "packet_stages m c p (wire_magic p) (frames_length p) (wire_key c p) (pkt_extras p)"
  have "concat (map snd ?ss) = wire_header c p @ wire_body m c p"
    using frame_stages_bytes [of m c p]
    by (simp add: packet_stages_def wire_header_def packet_header_def wire_body_def)
  then have "run_stages ?ss (new_buffer_writer (24 + length (pkt_extras p) + frames_length p +
        length (wire_key c p) + length (pkt_value p))) =
      returns (Some \<lparr>store = wire_header c p @ wire_body m c p,
        woffset = length (wire_header c p @ wire_body m c p)\<rparr>)"
    using run_stages_pass [OF packet_stages_ok [OF assms]]
    by (simp add: write_bytes_new wire_body_length [OF assms])
  then show ?thesis
    by (simp add: encode_packet_def encode_key_ok [OF assms] upgrade_magic_ok [OF assms]
          write_packet_stages)
qed

lemma decode_packet_split:
  assumes "length h = 24" and "read_uint32 h 8 = Some n" and "unat n = length body"
  shows "decode_packet m c (h @ body @ rest) = decode_header_body m c h body"
proof -
  have "h \<noteq> []" using assms(1) by auto
  then show ?thesis using assms by (simp add: decode_packet_def fails_def)
qed

lemma frame_data_bound: "length d \<le> length (frame_bytes (t, d))"
  by (simp add: frame_bytes.simps)

lemma frames_data_bound: "f \<in> set fs \<Longrightarrow> length (snd f) \<le> length (frames_bytes fs)"
proof (induction fs)
  case (Cons g fs)
  then show ?case using frame_data_bound [of "snd g" "fst g"] by auto
qed simp

lemma packet_frames_types: "f \<in> set (packet_frames m c p) \<Longrightarrow> unat (fst f) < 15"
  by (auto simp: packet_frames_def packet_frame_defs split: option.splits if_splits)

lemma packet_frames_ok:
  assumes "packet_ok c p"
  shows "list_all frame_ok (packet_frames m c p)"
proof -
  have "length (frames_bytes (packet_frames m c p)) < 256"
    using assms frames_length_exact [OF assms, of m] by (simp add: packet_ok_def lengths_ok_def)
  then have "length (snd f) < 271" if "f \<in> set (packet_frames m c p)" for f
    using frames_data_bound [OF that] by simp
  then show ?thesis
    using packet_frames_types by (auto simp: list_all_iff frame_ok_def)
qed

text \<open>The packet before its body is read.\<close>

definition header_packet :: "packet \<Rightarrow> packet" where
  "header_packet p = default_packet\<lparr>pkt_command := pkt_command p, pkt_magic := pkt_magic p,
     pkt_vbucket := pkt_vbucket p, pkt_status := pkt_status p,
     pkt_status_code := pkt_status_code p, pkt_datatype := pkt_datatype p,
     pkt_opaque := pkt_opaque p, pkt_cas := pkt_cas p\<rparr>"

definition framed_packet :: "libm \<Rightarrow> packet \<Rightarrow> packet" where
  "framed_packet m p = (header_packet p)\<lparr>pkt_barrier := pkt_barrier p,
     pkt_durability_level := pkt_durability_level p,
     pkt_durability_timeout := pkt_durability_timeout p,
     pkt_stream_id := pkt_stream_id p, pkt_open_tracing := pkt_open_tracing p,
     pkt_server_duration := pkt_server_duration (decoded_packet m p),
     pkt_user_impersonation := pkt_user_impersonation p,
     pkt_preserve_expiry := pkt_preserve_expiry p\<rparr>"

lemma apply_packet_frames:
  assumes "packet_ok c p"
  shows "apply_frames m (if pkt_magic p = magic_client_request then magic_alt_client_request
      else magic_alt_client_response) (packet_frames m c p) (header_packet p) =
    Some (framed_packet m p)"
proof (cases "pkt_magic p = magic_client_request")
  case True
  with assms have no_duration: "pkt_server_duration p = None" "server_duration_frames m c p = []"
    by (auto simp: packet_ok_def magic_ok_def server_duration_frames_def)
  from assms show ?thesis
    by (simp add: True packet_frames_def no_duration apply_frames_append apply_frame_lemmas
          header_packet_def default_packet_def framed_packet_def decoded_packet_def
          packet_ok_def frames_supported_def)
next
  case False
  with assms have only: "packet_frames m c p = server_duration_frames m c p"
    by (simp add: packet_ok_def magic_ok_def packet_frames_def packet_frame_defs)
  have "server_duration_frames m c p = [] \<and> pkt_server_duration p = None \<or>
      \<not> is_feature_enabled c feature_tracing"
    using assms False
    by (auto simp: packet_ok_def magic_ok_def skipped_duration_def server_duration_frames_def)
  then show ?thesis
    using assms False unfolding only
    by (elim disjE)
      (auto simp: apply_server_duration header_packet_def default_packet_def framed_packet_def
         decoded_packet_def packet_ok_def magic_ok_def frames_supported_def durability_ok_def
         split: option.splits)
qed

lemma decode_leb_no_throw:
  "decode_unsigned_leb128_no_throw (leb_bytes (unat (v :: u32)) @ rest) = Some (v, Some rest)"
  using decode_leb_bytes [of "unat v" rest, where 'a = 32]
  by (auto simp: decode_unsigned_leb128_def split: bind_splits option.splits)

lemma read_unless_empty_middle:
  "read_unless_empty (xs @ ys @ zs) (length xs) (length ys) = Some ys"
  using be_read_middle [of xs ys zs] by (simp add: read_unless_empty_def)

lemma decode_collection_id_ok:
  assumes "packet_ok c p"
    and "pkt_command q = pkt_command p" and "pkt_key q = wire_key c p" and "pkt_collection_id q = 0"
  shows "decode_collection_id c q (length (wire_key c p)) =
    Some (Inr (q\<lparr>pkt_collection_id := pkt_collection_id p, pkt_key := pkt_key p\<rparr>))"
proof (cases "collections_enabled c \<and> supports_collection_id (pkt_command p)")
  case True
  with assms(1) have "pkt_key p \<noteq> []" "pkt_command p \<noteq> opcode_observe"
    by (auto simp: packet_ok_def collection_ok_def)
  with True assms show ?thesis
    by (simp add: decode_collection_id_def wire_key_def decode_leb_no_throw)
next
  case False
  with assms show ?thesis
    by (cases q) (auto simp: decode_collection_id_def wire_key_def packet_ok_def collection_ok_def
        split: if_splits)
qed

lemma no_frames: "frames_bytes fs = [] \<Longrightarrow> fs = []"
  using frame_bytes_nonempty by (cases fs) auto

lemma decode_body_ok:
  assumes "packet_ok c p"
  shows "decode_body m c (wire_magic p) (wire_body m c p) (frames_length p) (length (pkt_extras p))
      (length (wire_key c p)) (header_packet p) = Some (Inr (decoded_packet m p))"
proof -
  let ?fs = "packet_frames m c p"
  have fl: "frames_length p = length (frames_bytes ?fs)" by (rule frames_length_exact [OF assms])
  have frames: "(if frames_length p > 0
      then decode_frames m (wire_magic p) (frames_length p) (wire_body m c p) 0 (header_packet p)
      else Some (Inr (header_packet p))) = Some (Inr (framed_packet m p))"
  proof (cases "frames_length p > 0")
    case True
    then have "wire_magic p = (if pkt_magic p = magic_client_request then magic_alt_client_request
        else magic_alt_client_response)"
      by (simp add: wire_magic_def)
    then show ?thesis
      using True apply_packet_frames [OF assms, of m]
        decode_frames_list [OF _ packet_frames_ok [OF assms, of m], of "wire_magic p" m "[]"]
      by (simp add: fl wire_body_def)
  next
    case False
    then have "?fs = []" using fl no_frames by simp
    then show ?thesis using apply_packet_frames [OF assms, of m] False by simp
  qed
  have "read_unless_empty (wire_body m c p) (frames_length p) (length (pkt_extras p))
      = Some (pkt_extras p)"
    using read_unless_empty_middle [of "frames_bytes ?fs"] by (simp add: wire_body_def fl)
  moreover have "read_unless_empty (wire_body m c p) (frames_length p + length (pkt_extras p))
      (length (wire_key c p)) = Some (wire_key c p)"
    using read_unless_empty_middle [of "frames_bytes ?fs @ pkt_extras p" "wire_key c p"]
    by (simp add: wire_body_def fl)
  moreover have "read_unless_empty (wire_body m c p)
      (frames_length p + length (pkt_extras p) + length (wire_key c p)) (length (pkt_value p))
      = Some (pkt_value p)"
    using read_unless_empty_middle [of "frames_bytes ?fs @ pkt_extras p @ wire_key c p"
        "pkt_value p" "[]"]
    by (simp add: wire_body_def fl add.assoc)
  moreover have "length (wire_body m c p) -
      (frames_length p + length (pkt_extras p) + length (wire_key c p)) = length (pkt_value p)"
    by (simp add: wire_body_length [OF assms])
  moreover have "(framed_packet m p)\<lparr>pkt_extras := pkt_extras p, pkt_key := pkt_key p,
      pkt_value := pkt_value p, pkt_collection_id := pkt_collection_id p\<rparr> = decoded_packet m p"
    using assms by (cases p) (simp add: framed_packet_def header_packet_def default_packet_def
        decoded_packet_def packet_ok_def frames_supported_def)
  ultimately show ?thesis
    using decode_collection_id_ok [OF assms, of "(framed_packet m p)\<lparr>pkt_extras := pkt_extras p,
        pkt_key := wire_key c p, pkt_value := pkt_value p\<rparr>"]
    unfolding decode_body_def Let_def frames
    by (simp add: framed_packet_def header_packet_def default_packet_def)
qed

lemma wire_header_fields:
  shows "span_at (wire_header c p) 0 = Some (wire_magic p)"
    and "span_at (wire_header c p) (Suc 0) = Some (pkt_command p)"
    and "span_at (wire_header c p) 4 = Some (of_nat (length (pkt_extras p)))"
    and "span_at (wire_header c p) 5 = Some (pkt_datatype p)"
    and "read_uint16 (wire_header c p) 2 =
      read_uint16 (lengths_bytes (frames_length p) (length (wire_key c p))) 0"
    and "read_uint16 (wire_header c p) 6 = Some (status_field p)"
    and "read_uint32 (wire_header c p) 8 = Some (of_nat (length (wire_key c p) +
      length (pkt_extras p) + length (pkt_value p) + frames_length p))"
    and "read_uint32 (wire_header c p) 12 = Some (pkt_opaque p)"
    and "read_uint64 (wire_header c p) 16 = Some (pkt_cas p)"
    and "lengths_bytes (frames_length p) (length (wire_key c p)) =
      [the (span_at (wire_header c p) 2), the (span_at (wire_header c p) 3)]"
    and "\<exists>l. span_at (wire_header c p) 2 = Some l" and "\<exists>l. span_at (wire_header c p) 3 = Some l"
proof -
  obtain l0 l1 where ls: "lengths_bytes (frames_length p) (length (wire_key c p)) = [l0, l1]"
    using lengths_bytes_pair by blast
  note fields = packet_header_fields [OF ls]
  show "span_at (wire_header c p) 0 = Some (wire_magic p)"
    "span_at (wire_header c p) (Suc 0) = Some (pkt_command p)"
    "span_at (wire_header c p) 4 = Some (of_nat (length (pkt_extras p)))"
    "span_at (wire_header c p) 5 = Some (pkt_datatype p)"
    "read_uint16 (wire_header c p) 2 =
      read_uint16 (lengths_bytes (frames_length p) (length (wire_key c p))) 0"
    "read_uint16 (wire_header c p) 6 = Some (status_field p)"
    "read_uint32 (wire_header c p) 8 = Some (of_nat (length (wire_key c p) +
      length (pkt_extras p) + length (pkt_value p) + frames_length p))"
    "read_uint32 (wire_header c p) 12 = Some (pkt_opaque p)"
    "read_uint64 (wire_header c p) 16 = Some (pkt_cas p)"
    unfolding wire_header_def by (rule fields)+
  have "span_at (wire_header c p) 2 = Some l0" "span_at (wire_header c p) 3 = Some l1"
    unfolding wire_header_def by (rule fields)+
  then show "lengths_bytes (frames_length p) (length (wire_key c p)) =
      [the (span_at (wire_header c p) 2), the (span_at (wire_header c p) 3)]"
    "\<exists>l. span_at (wire_header c p) 2 = Some l" "\<exists>l. span_at (wire_header c p) 3 = Some l"
    using ls by simp_all
qed

lemma decode_magic_ok:
  assumes "packet_ok c p"
  shows "decode_magic (wire_header c p) (default_packet\<lparr>pkt_command := pkt_command p\<rparr>) =
    Some (Inr (default_packet\<lparr>pkt_command := pkt_command p, pkt_magic := pkt_magic p,
      pkt_vbucket := pkt_vbucket p, pkt_status := pkt_status p,
      pkt_status_code := pkt_status_code p\<rparr>))"
  using assms
  by (auto simp: wire_header_fields decode_magic_def wire_magic_def status_field_def packet_ok_def
        magic_ok_def default_packet_def split: if_splits)

lemma decode_lengths_ok:
  assumes "packet_ok c p"
  shows "decode_lengths (wire_magic p) (wire_header c p) =
    Some (length (wire_key c p), frames_length p)"
proof -
  obtain l0 l1 where hdr: "span_at (wire_header c p) 2 = Some l0"
    "span_at (wire_header c p) 3 = Some l1"
    using wire_header_fields(11,12) by blast
  then have ls: "lengths_bytes (frames_length p) (length (wire_key c p)) = [l0, l1]"
    using wire_header_fields(10) [of p c] by simp
  obtain l where l: "read_uint16 (wire_header c p) 2 = Some l"
    using be16.field_defined_iff [of "[l0, l1]" 0] unfolding wire_header_fields(5) ls by auto
  show ?thesis
  proof (cases "frames_length p > 0")
    case True
    then show ?thesis
      using assms ls hdr l
      by (auto simp: decode_lengths_def lengths_bytes_def read_uint8_def wire_magic_def
            packet_ok_def lengths_ok_def)
  next
    case False
    then have "l = of_nat (length (wire_key c p))"
      using l read_be16(1) by (simp add: wire_header_fields lengths_bytes_def)
    then show ?thesis
      using assms False l
      by (auto simp: decode_lengths_def wire_magic_def packet_ok_def lengths_ok_def magic_ok_def
            split: if_splits)
  qed
qed

lemma decode_header_body_ok:
  assumes "packet_ok c p"
  shows "decode_header_body m c (wire_header c p) (wire_body m c p) =
    Some (Inr (decoded_packet m p, 24 + length (wire_body m c p)))"
proof -
  have ext: "unat (of_nat (length (pkt_extras p)) :: byte) = length (pkt_extras p)"
    using assms by (simp add: packet_ok_def lengths_ok_def)
  have body: "\<not> length (wire_body m c p) <
      frames_length p + length (pkt_extras p) + length (wire_key c p)"
    by (simp add: wire_body_length [OF assms])
  show ?thesis
    using decode_body_ok [OF assms, of m] body
    unfolding decode_header_body_def read_uint8_def [of _ 4] wire_header_fields(1-4,8,9) One_nat_def option.case prod.case
      decode_magic_ok [OF assms] decode_lengths_ok [OF assms] and_then_simps bind.bind_lunit
    by (simp add: header_packet_def ext)
qed

text \<open>
  C1: what the encoder produces, the decoder reads back: a packet whose frames are supported and
  whose lengths fit their fields is encoded, and decoding the bytes, whatever follows them in the
  stream, returns the packet and consumes exactly those bytes. Only the server duration is
  rounded.
\<close>

theorem decode_encode_packet:
  assumes "packet_ok c p"
  shows "\<exists>bs. encode_packet m c p = Some (Inr bs) \<and>
    decode_packet m c (bs @ rest) = Some (Inr (decoded_packet m p, length bs))"
proof -
  let ?n = "length (wire_key c p) + length (pkt_extras p) + length (pkt_value p) + frames_length p"
  have "read_uint32 (wire_header c p) 8 = Some (of_nat ?n)"
    by (rule wire_header_fields)
  moreover have "unat (of_nat ?n :: u32) = length (wire_body m c p)"
    using assms unfolding wire_body_length [OF assms] packet_ok_def lengths_ok_def
    by (intro unat_of_nat_u32) simp
  ultimately have "decode_packet m c (wire_header c p @ wire_body m c p @ rest) =
      Some (Inr (decoded_packet m p, 24 + length (wire_body m c p)))"
    using decode_packet_split [OF wire_header_length] decode_header_body_ok [OF assms] by simp
  then show ?thesis
    by (simp add: encode_packet_ok [OF assms])
qed

lemma sample_codec_features:
  "collections_enabled sample_codec" "is_feature_enabled sample_codec feature_sync_replication"
  "is_feature_enabled sample_codec feature_preserve_ttl"
  "is_feature_enabled sample_codec feature_alt_request_support"
  by (simp_all add: sample_codec_def new_codec_def is_feature_enabled_def)

lemma sample_request_ok: "packet_ok sample_codec sample_request"
proof -
  note defs = sample_request_def default_packet_def sample_codec_features
  have command: "supports_collection_id opcode_upsert"
    by (simp add: supports_collection_id_def)
  have frames: "frames_length sample_request = 5"
    by (simp add: frames_length_def defs)
  have key: "wire_key sample_codec sample_request = [172, 2, 107]"
    by (simp add: wire_key_def defs command leb_bytes.simps [of 300] leb_bytes.simps [of 2])
  have "collection_ok sample_codec sample_request"
    by (simp add: collection_ok_def defs supports_collection_id_def)
  moreover have "magic_ok sample_codec sample_request"
    by (simp add: magic_ok_def defs)
  moreover have "frames_supported sample_codec sample_request"
    by (simp add: frames_supported_def defs frames durability_ok_def tracing_conflict_def)
  moreover have "lengths_ok sample_codec sample_request"
    unfolding lengths_ok_def frames key by (simp add: defs)
  ultimately show ?thesis by (simp add: packet_ok_def)
qed

theorem decode_encode_packet_witness:
  "\<exists>bs. encode_packet sample_libm sample_codec sample_request = Some (Inr bs) \<and>
     decode_packet sample_libm sample_codec (bs @ [0x80]) =
       Some (Inr (decoded_packet sample_libm sample_request, length bs))"
  by (rule decode_encode_packet [OF sample_request_ok])

subsection \<open>Incomplete and malformed input\<close>

lemma decode_packet_prefix:
  assumes "length h = 24" and "read_uint32 h 8 = Some n" and "unat n = length body"
    and "k < length (h @ body)"
  shows "decode_packet m c (take k (h @ body)) =
    fails (errc_network (if k = 0 then network_end_of_stream else network_need_more_data))"
proof -
  consider "k = 0" | "0 < k" "k < 24" | "24 \<le> k" by linarith
  then show ?thesis
  proof cases
    case 3
    define x where "x = take k (h @ body)"
    have "length x = k" "x \<noteq> []" "take 24 x = h"
      using assms 3 by (auto simp: x_def min_def)
    then show ?thesis
      using assms 3 unfolding decode_packet_def x_def [symmetric] by simp
  qed (use assms in \<open>auto simp: decode_packet_def min_def\<close>)
qed

text \<open>
  a packet that arrives in pieces is never misread: on every proper prefix of an encoded
  packet the decoder asks for more data, or reports the end of the stream when the prefix is
  empty.
\<close>

theorem decode_incomplete_packet:
  assumes "packet_ok c p" and "encode_packet m c p = Some (Inr bs)" and "k < length bs"
  shows "decode_packet m c (take k bs) =
    Some (Inl (errc_network (if k = 0 then network_end_of_stream else network_need_more_data)))"
proof -
  have bs: "bs = wire_header c p @ wire_body m c p"
    using encode_packet_ok [OF assms(1)] assms(2) by simp
  have "unat (of_nat (length (wire_key c p) + length (pkt_extras p) + length (pkt_value p) +
      frames_length p) :: u32) = length (wire_body m c p)"
    using assms(1) unfolding wire_body_length [OF assms(1)] packet_ok_def lengths_ok_def
    by (intro unat_of_nat_u32) simp
  from decode_packet_prefix [OF wire_header_length wire_header_fields(7) this] assms(3)
  show ?thesis unfolding bs fails_def .
qed

theorem decode_incomplete_packet_witness:
  "\<exists>bs. encode_packet sample_libm sample_codec sample_request = Some (Inr bs) \<and>
     decode_packet sample_libm sample_codec (take 24 bs) =
       Some (Inl (errc_network network_need_more_data))"
proof -
  let ?bs = "wire_header sample_codec sample_request @ wire_body sample_libm sample_codec sample_request"
  have "encode_packet sample_libm sample_codec sample_request = Some (Inr ?bs)"
    by (rule encode_packet_ok [OF sample_request_ok])
  moreover have "24 < length ?bs"
    by (simp add: wire_body_def sample_request_def default_packet_def)
  ultimately show ?thesis
    using decode_incomplete_packet [OF sample_request_ok, of sample_libm ?bs 24] by auto
qed

text \<open>
  the decoder trusts the length nibble of a response frame: when the frames are one byte long
  and that byte announces data, the data is read beyond the end of the body, for every codec and
  whatever the other header fields are.
\<close>

theorem decode_frame_overrun:
  assumes "b AND 0x0f \<noteq> 0"
  shows "decode_packet m c (packet_header magic_alt_client_response cmd [1, 0] 0 dt st 1 opq cas @ [b])
    = None"
proof -
  let ?h = "packet_header magic_alt_client_response cmd [1, 0] 0 dt st 1 opq cas"
  note fields = packet_header_fields [of "[1, 0]" 1 0, OF refl,
    of magic_alt_client_response cmd 0 dt st 1 opq cas]
  have flen: "unat (b AND 0x0f) \<noteq> 0" using assms by (simp add: unat_eq_zero)
  have "decode_response_frame m [b] (Suc 0) t n pkt = None" if "0 < n" for t n pkt
    using that
    by (auto simp: decode_response_frame_def unsupported_frame_at_def be_read_def mem_read_def
          be16.get_short)
  then have "decode_frames m magic_alt_client_response (Suc 0) [b] 0 pkt = None" for pkt
    using flen
    by (subst decode_frames.simps) (auto simp: frame_header_at_def Let_def split: bind_splits)
  then have "decode_body m c magic_alt_client_response [b] (Suc 0) 0 0 pkt = None" for pkt
    by (simp add: decode_body_def)
  moreover have "decode_lengths magic_alt_client_response ?h = Some (0, Suc 0)"
    using fields be16.field_defined_iff [of "[1, 0]" 0]
    by (auto simp: decode_lengths_def read_uint8_def)
  moreover obtain q where
    "decode_magic ?h (default_packet\<lparr>pkt_command := cmd\<rparr>) = Some (Inr q)"
    using fields by (simp add: decode_magic_def)
  ultimately have "decode_header_body m c ?h [b] = None"
    using fields by (auto simp: decode_header_body_def read_uint8_def)
  then show ?thesis
    using decode_packet_split [of ?h 1 "[b]" m c "[]"] fields by simp
qed

theorem decode_frame_overrun_witness:
  "decode_packet sample_libm sample_codec
     (packet_header magic_alt_client_response opcode_get [1, 0] 0 0 0 1 7 0 @ [0x32]) = None"
  by (rule decode_frame_overrun) simp

end
