(* ===== verification/Retry.thy ===== *)
theory Retry
  imports Protocol Complex_Main
begin

text \<open>
  Retries: the reasons of \<^verbatim>\<open>couchbase/retry_reason.hxx\<close>, the strategies of
  \<^verbatim>\<open>core/impl\<close>, and the two orchestrators, \<^verbatim>\<open>core/retry_orchestrator.cxx\<close> for
  queued requests and \<^verbatim>\<open>core/io/retry_orchestrator.hxx\<close> for commands. A strategy is a
  function of the request and the reason; the interface \<open>retry_policy\<close> is what the client relies
  on from one. Durations are in milliseconds; the points in time the orchestrator compares are in
  nanoseconds of the steady clock.
\<close>

subsection \<open>Reasons\<close>

datatype retry_reason =
    reason_do_not_retry | reason_unknown | reason_socket_not_available
    | reason_service_not_available | reason_node_not_available | reason_key_value_not_my_vbucket
    | reason_key_value_collection_outdated | reason_key_value_error_map_retry_indicated
    | reason_key_value_locked | reason_key_value_temporary_failure
    | reason_key_value_sync_write_in_progress | reason_key_value_sync_write_re_commit_in_progress
    | reason_service_response_code_indicated | reason_socket_closed_while_in_flight
    | reason_circuit_breaker_open | reason_query_prepared_statement_failure
    | reason_query_index_not_found | reason_analytics_temporary_failure
    | reason_search_too_many_requests | reason_views_temporary_failure
    | reason_views_no_active_partition

definition allows_non_idempotent_retry :: "retry_reason \<Rightarrow> bool" where
  "allows_non_idempotent_retry reason \<longleftrightarrow> reason \<in> set [
     reason_socket_not_available, reason_service_not_available, reason_node_not_available
     , reason_key_value_not_my_vbucket, reason_key_value_collection_outdated
     , reason_key_value_error_map_retry_indicated, reason_key_value_locked
     , reason_key_value_temporary_failure, reason_key_value_sync_write_in_progress
     , reason_key_value_sync_write_re_commit_in_progress, reason_service_response_code_indicated
     , reason_circuit_breaker_open, reason_query_index_not_found
     , reason_query_prepared_statement_failure, reason_analytics_temporary_failure
     , reason_search_too_many_requests, reason_views_temporary_failure
     , reason_views_no_active_partition]"

definition always_retry :: "retry_reason \<Rightarrow> bool" where
  "always_retry reason \<longleftrightarrow> reason \<in> set [
     reason_key_value_not_my_vbucket, reason_key_value_collection_outdated
     , reason_views_no_active_partition]"

text \<open>The name the formatter prints, and the reason a name stands for.\<close>

fun retry_reason_name :: "retry_reason \<Rightarrow> string" where
  "retry_reason_name reason_do_not_retry = ''do_not_retry''"
| "retry_reason_name reason_unknown = ''unknown''"
| "retry_reason_name reason_socket_not_available = ''socket_not_available''"
| "retry_reason_name reason_service_not_available = ''service_not_available''"
| "retry_reason_name reason_node_not_available = ''node_not_available''"
| "retry_reason_name reason_key_value_not_my_vbucket = ''kv_not_my_vbucket''"
| "retry_reason_name reason_key_value_collection_outdated = ''kv_collection_outdated''"
| "retry_reason_name reason_key_value_error_map_retry_indicated = ''kv_error_map_retry_indicated''"
| "retry_reason_name reason_key_value_locked = ''kv_locked''"
| "retry_reason_name reason_key_value_temporary_failure = ''kv_temporary_failure''"
| "retry_reason_name reason_key_value_sync_write_in_progress = ''kv_sync_write_in_progress''"
| "retry_reason_name reason_key_value_sync_write_re_commit_in_progress = ''kv_sync_write_re_commit_in_progress''"
| "retry_reason_name reason_service_response_code_indicated = ''service_response_code_indicated''"
| "retry_reason_name reason_socket_closed_while_in_flight = ''socket_closed_while_in_flight''"
| "retry_reason_name reason_circuit_breaker_open = ''circuit_breaker_open''"
| "retry_reason_name reason_query_prepared_statement_failure = ''query_prepared_statement_failure''"
| "retry_reason_name reason_query_index_not_found = ''query_index_not_found''"
| "retry_reason_name reason_analytics_temporary_failure = ''analytics_temporary_failure''"
| "retry_reason_name reason_search_too_many_requests = ''search_too_many_requests''"
| "retry_reason_name reason_views_temporary_failure = ''views_temporary_failure''"
| "retry_reason_name reason_views_no_active_partition = ''views_no_active_partition''"

definition retry_reason_to_enum :: "string \<Rightarrow> retry_reason" where
  "retry_reason_to_enum reason =
     (if reason = ''do_not_retry'' then reason_do_not_retry
      else if reason = ''unknown'' then reason_unknown
      else if reason = ''socket_not_available'' then reason_socket_not_available
      else if reason = ''service_not_available'' then reason_service_not_available
      else if reason = ''node_not_available'' then reason_node_not_available
      else if reason = ''kv_not_my_vbucket'' then reason_key_value_not_my_vbucket
      else if reason = ''kv_collection_outdated'' then reason_key_value_collection_outdated
      else if reason = ''kv_error_map_retry_indicated'' then reason_key_value_error_map_retry_indicated
      else if reason = ''kv_locked'' then reason_key_value_locked
      else if reason = ''kv_temporary_failure'' then reason_key_value_temporary_failure
      else if reason = ''kv_sync_write_in_progress'' then reason_key_value_sync_write_in_progress
      else if reason = ''kv_sync_write_re_commit_in_progress'' then reason_key_value_sync_write_re_commit_in_progress
      else if reason = ''service_response_code_indicated'' then reason_service_response_code_indicated
      else if reason = ''socket_closed_while_in_flight'' then reason_socket_closed_while_in_flight
      else if reason = ''circuit_breaker_open'' then reason_circuit_breaker_open
      else if reason = ''query_prepared_statement_failure'' then reason_query_prepared_statement_failure
      else if reason = ''query_index_not_found'' then reason_query_index_not_found
      else if reason = ''analytics_temporary_failure'' then reason_analytics_temporary_failure
      else if reason = ''search_too_many_requests'' then reason_search_too_many_requests
      else if reason = ''views_temporary_failure'' then reason_views_temporary_failure
      else if reason = ''views_no_active_partition'' then reason_views_no_active_partition
      else reason_unknown)"

subsection \<open>Requests, actions and strategies\<close>

record retry_request =
  rr_identifier :: string
  rr_idempotent :: bool
  rr_attempts :: nat
  rr_reasons :: "retry_reason set"

definition record_retry_attempt :: "retry_reason \<Rightarrow> retry_request \<Rightarrow> retry_request" where
  "record_retry_attempt reason r =
     r\<lparr>rr_attempts := rr_attempts r + 1, rr_reasons := insert reason (rr_reasons r)\<rparr>"

definition add_reason :: "retry_reason \<Rightarrow> retry_request \<Rightarrow> retry_request" where
  "add_reason reason r = r\<lparr>rr_reasons := insert reason (rr_reasons r)\<rparr>"

record retry_action = waiting_duration :: int

definition need_to_retry :: "retry_action \<Rightarrow> bool" where
  "need_to_retry a \<longleftrightarrow> waiting_duration a \<noteq> 0"

definition do_not_retry :: retry_action where
  "do_not_retry = \<lparr>waiting_duration = 0\<rparr>"

type_synonym retry_strategy = "retry_request \<Rightarrow> retry_reason \<Rightarrow> retry_action"

type_synonym backoff_calculator = "nat \<Rightarrow> int"

definition controlled_backoff :: backoff_calculator where
  "controlled_backoff retry_attempts =
     (if retry_attempts = 0 then 1
      else if retry_attempts = 1 then 10
      else if retry_attempts = 2 then 50
      else if retry_attempts = 3 then 100
      else if retry_attempts = 4 then 500
      else 1000)"

text \<open>
  \<open>scaled_pow mn factor n\<close> stands for the double \<^verbatim>\<open>min * std::pow(factor, n)\<close>; a double is
  its exact value.
\<close>

definition exponential_backoff ::
  "(rat \<Rightarrow> rat \<Rightarrow> nat \<Rightarrow> rat) \<Rightarrow> int \<Rightarrow> int \<Rightarrow> rat \<Rightarrow> backoff_calculator" where
  "exponential_backoff scaled_pow min_backoff max_backoff backoff_factor retry_attempts =
     (let mn = (if min_backoff > 0 then rat_of_int min_backoff else 1);
          mx = (if max_backoff > 0 then rat_of_int max_backoff else 500);
          factor = (if backoff_factor > 0 then backoff_factor else 2);
          backoff = scaled_pow mn factor retry_attempts
      in \<lfloor>max (min backoff mx) mn\<rfloor>)"

definition best_effort_retry_after :: "backoff_calculator \<Rightarrow> retry_strategy" where
  "best_effort_retry_after calculator request reason =
     (if rr_idempotent request \<or> allows_non_idempotent_retry reason
      then \<lparr>waiting_duration = calculator (rr_attempts request)\<rparr>
      else do_not_retry)"

definition fail_fast_retry_after :: retry_strategy where
  "fail_fast_retry_after request reason = do_not_retry"

subsection \<open>Orchestrators\<close>

text \<open>The action, and the request with the attempt recorded.\<close>

definition should_retry ::
  "retry_strategy option \<Rightarrow> retry_request \<Rightarrow> retry_reason \<Rightarrow> retry_action \<times> retry_request" where
  "should_retry strategy request reason =
     (if always_retry reason
      then let duration = controlled_backoff (rr_attempts request) in
           (\<lparr>waiting_duration = duration\<rparr>, record_retry_attempt reason request)
      else case strategy of
             None \<Rightarrow> (do_not_retry, request)
           | Some retry_after \<Rightarrow>
               let action = retry_after request reason in
               if \<not> need_to_retry action then (do_not_retry, request)
               else (action, record_retry_attempt reason request))"

text \<open>\<^verbatim>\<open>duration_cast\<close> to milliseconds truncates towards zero.\<close>

definition ns_to_ms :: "int \<Rightarrow> int" where
  "ns_to_ms ns = (if ns < 0 then - ((- ns) div 1000000) else ns div 1000000)"

definition cap_duration :: "int \<Rightarrow> int \<Rightarrow> int \<Rightarrow> int" where
  "cap_duration now_ns deadline_ns uncapped =
     (let theoretical_deadline = now_ns + uncapped * 1000000;
          delta = ns_to_ms (theoretical_deadline - deadline_ns)
      in if delta > 0
         then let capped = uncapped - delta in if capped < 0 then uncapped else capped
         else uncapped)"

datatype retry_outcome =
    scheduled_for_retry retry_request int
  | handler_invoked "errc option"

definition maybe_retry ::
  "retry_strategy \<Rightarrow> int \<Rightarrow> int \<Rightarrow> retry_strategy option \<Rightarrow> retry_request \<Rightarrow> retry_reason \<Rightarrow>
     errc option \<Rightarrow> retry_outcome" where
  "maybe_retry default_strategy now_ns deadline_ns strategy request reason ec =
     (if always_retry reason
      then scheduled_for_retry (record_retry_attempt reason request)
             (controlled_backoff (rr_attempts request))
      else let retry_after = (case strategy of None \<Rightarrow> default_strategy | Some s \<Rightarrow> s);
               action = retry_after request reason
           in if need_to_retry action
              then scheduled_for_retry (record_retry_attempt reason request)
                     (cap_duration now_ns deadline_ns (waiting_duration action))
              else handler_invoked ec)"

subsection \<open>What the client relies on\<close>

lemma always_retry_allows: "always_retry r \<Longrightarrow> allows_non_idempotent_retry r"
  by (auto simp: always_retry_def allows_non_idempotent_retry_def)

lemma controlled_backoff_bounds: "1 \<le> controlled_backoff n \<and> controlled_backoff n \<le> 1000"
  by (simp add: controlled_backoff_def)

lemma controlled_backoff_mono: "m \<le> n \<Longrightarrow> controlled_backoff m \<le> controlled_backoff n"
  by (simp add: controlled_backoff_def)

lemma do_not_retry_no_need [simp]: "\<not> need_to_retry do_not_retry"
  by (simp add: need_to_retry_def do_not_retry_def)

text \<open>A policy does not retry a request that is not idempotent for a reason that forbids it.\<close>

locale retry_policy =
  fixes retry_after :: retry_strategy
  assumes refuses: "\<not> rr_idempotent q \<Longrightarrow> \<not> allows_non_idempotent_retry r \<Longrightarrow>
    \<not> need_to_retry (retry_after q r)"
begin

lemma should_retry_refuses:
  assumes "\<not> rr_idempotent q" and "\<not> allows_non_idempotent_retry r"
  shows "should_retry (Some retry_after) q r = (do_not_retry, q)"
  using assms refuses [OF assms] always_retry_allows by (auto simp: should_retry_def)

lemma maybe_retry_refuses:
  assumes "\<not> rr_idempotent q" and "\<not> allows_non_idempotent_retry r"
  shows "maybe_retry retry_after now dl None q r ec = handler_invoked ec"
    and "maybe_retry d now dl (Some retry_after) q r ec = handler_invoked ec"
  using assms refuses [OF assms] always_retry_allows by (auto simp: maybe_retry_def)

end

interpretation best_effort: retry_policy "best_effort_retry_after calculator"
  by unfold_locales (simp add: best_effort_retry_after_def)

interpretation fail_fast: retry_policy fail_fast_retry_after
  by unfold_locales (simp add: fail_fast_retry_after_def)

text \<open>
  C31: with the best effort strategy, whatever its backoff, a request that is not idempotent is
  never retried for a reason that does not allow it: the orchestrator returns no retry and
  leaves the request unchanged.
\<close>

theorem should_retry_non_idempotent:
  assumes "\<not> rr_idempotent q" and "\<not> allows_non_idempotent_retry r"
  shows "should_retry (Some (best_effort_retry_after calculator)) q r = (do_not_retry, q)"
  using assms by (rule best_effort.should_retry_refuses)

definition sample_write :: retry_request where
  "sample_write = \<lparr>rr_identifier = ''42'', rr_idempotent = False, rr_attempts = 2, rr_reasons = {}\<rparr>"

theorem should_retry_non_idempotent_witness:
  "should_retry (Some (best_effort_retry_after controlled_backoff)) sample_write
     reason_socket_closed_while_in_flight = (do_not_retry, sample_write)"
  by (rule should_retry_non_idempotent)
    (simp_all add: sample_write_def allows_non_idempotent_retry_def)

text \<open>
  the orchestrator records an attempt exactly when it asks for a retry: the attempt counter
  grows by one and the reason is added when the returned action needs a retry, and the request is
  unchanged otherwise.
\<close>

theorem should_retry_records:
  "snd (should_retry strategy q r) =
     (if need_to_retry (fst (should_retry strategy q r)) then record_retry_attempt r q else q)"
  using controlled_backoff_bounds [of "rr_attempts q"]
  by (auto simp: should_retry_def Let_def need_to_retry_def do_not_retry_def split: option.splits)

text \<open>
  a retry scheduled before the deadline of its command never waits beyond it by a millisecond
  or more, and never longer than the strategy asked for.
\<close>

theorem cap_duration_meets_deadline:
  assumes "now \<le> deadline" and "0 \<le> uncapped"
  shows "0 \<le> cap_duration now deadline uncapped \<and> cap_duration now deadline uncapped \<le> uncapped \<and>
    now + cap_duration now deadline uncapped * 1000000 < deadline + 1000000"
proof -
  define over where "over = now + uncapped * 1000000 - deadline"
  have le: "over \<le> uncapped * 1000000" using assms(1) by (simp add: over_def)
  then have "over div 1000000 \<le> uncapped" by linarith
  moreover have "over - over div 1000000 * 1000000 < 1000000" by linarith
  ultimately show ?thesis
    using assms le
    by (auto simp: cap_duration_def Let_def ns_to_ms_def over_def [symmetric] algebra_simps)
      (auto simp: over_def algebra_simps)
qed

theorem cap_duration_meets_deadline_witness:
  "cap_duration 0 5500000 100 = 6"
  using cap_duration_meets_deadline [of 0 5500000 100]
  by (simp add: cap_duration_def ns_to_ms_def)

text \<open>
  the name printed for a retry reason is read back as that reason.
\<close>

theorem retry_reason_roundtrip: "retry_reason_to_enum (retry_reason_name r) = r"
  by (cases r) (simp_all add: retry_reason_to_enum_def)

lemma exponential_backoff_bounds:
  assumes "0 < mn" and "mn \<le> mx"
  shows "mn \<le> exponential_backoff pw mn mx f n \<and> exponential_backoff pw mn mx f n \<le> mx"
proof -
  have "0 < mx" using assms by simp
  then show ?thesis
    using assms by (simp add: exponential_backoff_def Let_def le_floor_iff floor_le_iff max_def min_def)
qed

end
