(* ===== verification/Transition.thy ===== *)
theory Transition
  imports Main
begin

text \<open>
  State machines: the states a labelled step relation reaches from its initial states, and the
  interface of an inductive invariant. The components with mutable state give their operations as
  the steps and interpret the interface with their invariant.
\<close>

inductive reachable :: "('s \<Rightarrow> bool) \<Rightarrow> ('s \<Rightarrow> 'l \<Rightarrow> 's \<Rightarrow> bool) \<Rightarrow> 's \<Rightarrow> bool"
  for init step where
  reach_init: "init s \<Longrightarrow> reachable init step s"
| reach_step: "reachable init step s \<Longrightarrow> step s l s' \<Longrightarrow> reachable init step s'"

locale state_invariant =
  fixes init :: "'s \<Rightarrow> bool"
    and step :: "'s \<Rightarrow> 'l \<Rightarrow> 's \<Rightarrow> bool"
    and inv :: "'s \<Rightarrow> bool"
  assumes inv_init: "init s \<Longrightarrow> inv s"
    and inv_step: "inv s \<Longrightarrow> step s l s' \<Longrightarrow> inv s'"
begin

lemma inv_reachable: "reachable init step s \<Longrightarrow> inv s"
  by (induction rule: reachable.induct) (auto intro: inv_init inv_step)

end

text \<open>A property that every step keeps, once it holds, holds from then on.\<close>

locale stable_property =
  fixes step :: "'s \<Rightarrow> 'l \<Rightarrow> 's \<Rightarrow> bool"
    and P :: "'s \<Rightarrow> bool"
  assumes P_step: "P s \<Longrightarrow> step s l s' \<Longrightarrow> P s'"
begin

lemma P_forever: "P s \<Longrightarrow> reachable (\<lambda>s'. s' = s) step s' \<Longrightarrow> P s'"
  by (rotate_tac, induction rule: reachable.induct) (auto intro: P_step)

end

end
