(* ===== verification/Operation_Queue.thy ===== *)
theory Operation_Queue
  imports Mcbp_Codec Retry Transition
begin

text \<open>
  Requests on their way to the server: \<^verbatim>\<open>core/mcbp/queue_request.cxx\<close>,
  \<^verbatim>\<open>core/mcbp/operation_queue.cxx\<close>, \<^verbatim>\<open>core/mcbp/operation_consumer.cxx\<close> and the
  operation map of \<^verbatim>\<open>core/io/mcbp_session.cxx\<close>. Objects refer to each other by pointers, so
  the state is a store of requests, queues and sessions, each named by a number; a null pointer is
  \<open>None\<close>. Every operation runs under its locks and is one step; the order of steps is arbitrary.

  The world keeps a log of the callback invocations. Invoking a callback that was moved away
  (an empty \<^verbatim>\<open>std::function\<close>) has no result.
\<close>

subsection \<open>State\<close>

record queue_request = packet +
  qr_persistent :: bool
  qr_waiting_in :: "nat option"
  qr_queued_with :: "nat option"
  qr_is_completed :: bool
  qr_has_callback :: bool
  qr_retry_count :: nat
  qr_retry_reasons :: "retry_reason set"
  qr_deadline :: "bool option"
  qr_retry_backoff :: "bool option"

record operation_queue =
  oq_items :: "nat list"
  oq_is_open :: bool

record world =
  requests :: "nat \<Rightarrow> queue_request"
  queues :: "nat \<Rightarrow> operation_queue"
  sessions :: "nat \<Rightarrow> u32 \<rightharpoonup> nat"
  call_log :: "(nat \<times> errc option) list"

definition update_request :: "nat \<Rightarrow> (queue_request \<Rightarrow> queue_request) \<Rightarrow> world \<Rightarrow> world" where
  "update_request r f w = w\<lparr>requests := (requests w)(r := f (requests w r))\<rparr>"

definition update_queue :: "nat \<Rightarrow> (operation_queue \<Rightarrow> operation_queue) \<Rightarrow> world \<Rightarrow> world" where
  "update_queue q f w = w\<lparr>queues := (queues w)(q := f (queues w q))\<rparr>"

definition new_queue_request :: "magic \<Rightarrow> client_opcode \<Rightarrow> queue_request" where
  "new_queue_request mgc opcode =
     packet.extend (default_packet\<lparr>pkt_magic := mgc, pkt_command := opcode\<rparr>)
       (queue_request.fields False None None False True 0 {} None None)"

subsection \<open>The request as a retry request\<close>

definition qr_idempotent :: "queue_request \<Rightarrow> bool" where
  "qr_idempotent r = is_idempotent (pkt_command r)"

definition qr_record_retry_attempt :: "retry_reason \<Rightarrow> queue_request \<Rightarrow> queue_request" where
  "qr_record_retry_attempt reason r =
     r\<lparr>qr_retry_count := qr_retry_count r + 1,
       qr_retry_reasons := insert reason (qr_retry_reasons r)\<rparr>"

definition is_cancelled :: "queue_request \<Rightarrow> bool" where
  "is_cancelled r = qr_is_completed r"

text \<open>A timer is absent, running (\<open>Some True\<close>) or cancelled.\<close>

definition cancel_timer :: "bool option \<Rightarrow> bool option" where
  "cancel_timer t = (case t of None \<Rightarrow> None | Some _ \<Rightarrow> Some False)"

definition cancel_timers :: "queue_request \<Rightarrow> queue_request" where
  "cancel_timers r =
     r\<lparr>qr_deadline := cancel_timer (qr_deadline r),
       qr_retry_backoff := cancel_timer (qr_retry_backoff r)\<rparr>"

definition set_deadline :: "queue_request \<Rightarrow> queue_request" where
  "set_deadline r = r\<lparr>qr_deadline := Some True\<rparr>"

definition set_retry_backoff :: "queue_request \<Rightarrow> queue_request" where
  "set_retry_backoff r = r\<lparr>qr_retry_backoff := Some True\<rparr>"

subsection \<open>The queue\<close>

definition oq_close :: "nat \<Rightarrow> world \<Rightarrow> world" where
  "oq_close q = update_queue q (\<lambda>oq. oq\<lparr>oq_is_open := False\<rparr>)"

definition oq_push :: "nat \<Rightarrow> nat \<Rightarrow> nat \<Rightarrow> world \<Rightarrow> errc option \<times> world" where
  "oq_push q r max_items w =
     (if \<not> oq_is_open (queues w q)
      then (Some (errc_network network_operation_queue_closed), w)
      else if max_items > 0 \<and> length (oq_items (queues w q)) \<ge> max_items
      then (Some (errc_network network_operation_queue_full), w)
      else if qr_queued_with (requests w r) \<noteq> None
      then (Some (errc_network network_request_already_queued), w)
      else let w = update_request r (\<lambda>rq. rq\<lparr>qr_queued_with := Some q\<rparr>) w in
           if is_cancelled (requests w r)
           then (Some (errc_network network_request_cancelled),
                 update_request r (\<lambda>rq. rq\<lparr>qr_queued_with := None\<rparr>) w)
           else (None, update_queue q (\<lambda>oq. oq\<lparr>oq_items := oq_items oq @ [r]\<rparr>) w))"

text \<open>
  The compare-and-exchange of \<^verbatim>\<open>remove\<close> expects the null pointer, so it goes on only for a
  request that is in no queue.
\<close>

definition oq_remove :: "nat \<Rightarrow> nat \<Rightarrow> world \<Rightarrow> bool \<times> world" where
  "oq_remove q r w =
     (if \<not> oq_is_open (queues w q) then (False, w)
      else if qr_queued_with (requests w r) \<noteq> None then (False, w)
      else let w = update_request r (\<lambda>rq. rq\<lparr>qr_queued_with := None\<rparr>) w in
           if r \<in> set (oq_items (queues w q))
           then (True, update_queue q (\<lambda>oq. oq\<lparr>oq_items := remove1 r (oq_items oq)\<rparr>) w)
           else (False, w))"

datatype pop_result = pop_blocks | pop_null | pop_request nat

text \<open>
  \<^verbatim>\<open>pop\<close> waits until its predicate holds; \<open>pop_blocks\<close> is a call that keeps waiting. Taking the
  front of an empty list is undefined.
\<close>

definition oq_pop :: "nat \<Rightarrow> bool \<Rightarrow> world \<Rightarrow> (pop_result \<times> world) run" where
  "oq_pop q consumer_is_closed w =
     (let oq = queues w q in
      if \<not> (oq_is_open oq \<and> \<not> consumer_is_closed \<and> oq_items oq = []) then Some (pop_blocks, w)
      else if \<not> oq_is_open oq \<or> consumer_is_closed then Some (pop_null, w)
      else case oq_items oq of
             [] \<Rightarrow> None
           | r # rs \<Rightarrow>
               Some (pop_request r,
                 update_request r (\<lambda>rq. rq\<lparr>qr_queued_with := None\<rparr>)
                   (update_queue q (\<lambda>oq. oq\<lparr>oq_items := rs\<rparr>) w)))"

definition oq_items_to_drain :: "nat \<Rightarrow> world \<Rightarrow> nat list \<times> world" where
  "oq_items_to_drain q w =
     (if oq_is_open (queues w q) then ([], w)
      else if oq_items (queues w q) = [] then ([], w)
      else let local_items = oq_items (queues w q);
               w = update_queue q (\<lambda>oq. oq\<lparr>oq_items := []\<rparr>) w
           in (local_items,
               fold (\<lambda>r. update_request r (\<lambda>rq. rq\<lparr>qr_queued_with := None\<rparr>)) local_items w))"

text \<open>
  Closing a consumer locks the queue's mutex and calls the consumer's \<^verbatim>\<open>close\<close>, which locks it
  again; locking a held \<^verbatim>\<open>std::mutex\<close> is undefined.
\<close>

function close_consumer :: "bool \<Rightarrow> unit run" where
  "close_consumer mutex_held = (if mutex_held then None else close_consumer True)"
  by pat_completeness auto
termination by (relation "measure (\<lambda>h. if h then 0 else 1)") auto

declare close_consumer.simps [simp del]

subsection \<open>The operation map of a session\<close>

definition session_enqueue_request :: "nat \<Rightarrow> u32 \<Rightarrow> nat \<Rightarrow> world \<Rightarrow> world" where
  "session_enqueue_request s opq r w =
     (let w = update_request r (\<lambda>rq. rq\<lparr>qr_waiting_in := Some s\<rparr>) w in
      case sessions w s opq of
        None \<Rightarrow> w\<lparr>sessions := (sessions w)(s := (sessions w s)(opq \<mapsto> r))\<rparr>
      | Some _ \<Rightarrow> w)"

definition session_remove_request :: "nat \<Rightarrow> nat \<Rightarrow> world \<Rightarrow> world" where
  "session_remove_request s r w =
     w\<lparr>sessions := (sessions w)(s := (sessions w s)(pkt_opaque (requests w r) := None))\<rparr>"

text \<open>The request a response is for: a request that is not persistent leaves the map.\<close>

definition session_handle_request :: "nat \<Rightarrow> u32 \<Rightarrow> world \<Rightarrow> nat option \<times> world" where
  "session_handle_request s opq w =
     (case sessions w s opq of
        None \<Rightarrow> (None, w)
      | Some r \<Rightarrow>
          (Some r, if qr_persistent (requests w r) then w
                   else w\<lparr>sessions := (sessions w)(s := (sessions w s)(opq := None))\<rparr>))"

subsection \<open>Completing a request\<close>

definition invoke_callback :: "nat \<Rightarrow> errc option \<Rightarrow> world \<Rightarrow> world run" where
  "invoke_callback r e w =
     (if qr_has_callback (requests w r) then Some (w\<lparr>call_log := call_log w @ [(r, e)]\<rparr>)
      else None)"

text \<open>\<^verbatim>\<open>auto cb = std::move(callback_); cb(...)\<close>.\<close>

definition take_callback :: "nat \<Rightarrow> errc option \<Rightarrow> world \<Rightarrow> world run" where
  "take_callback r e w = do {
     w \<leftarrow> invoke_callback r e w;
     Some (update_request r (\<lambda>rq. rq\<lparr>qr_has_callback := False\<rparr>) w) }"

definition internal_cancel :: "nat \<Rightarrow> world \<Rightarrow> bool \<times> world" where
  "internal_cancel r w =
     (if qr_is_completed (requests w r) then (False, w)
      else let w = update_request r (\<lambda>rq. cancel_timers (rq\<lparr>qr_is_completed := True\<rparr>)) w;
               w = (case qr_queued_with (requests w r) of None \<Rightarrow> w
                    | Some q \<Rightarrow> snd (oq_remove q r w));
               w = (case qr_waiting_in (requests w r) of None \<Rightarrow> w
                    | Some s \<Rightarrow> session_remove_request s r w)
           in (True, w))"

definition qr_cancel :: "nat \<Rightarrow> errc \<Rightarrow> world \<Rightarrow> world run" where
  "qr_cancel r error w =
     (let (done, w) = internal_cancel r w in
      if done then take_callback r (Some error) w else Some w)"

definition try_callback :: "nat \<Rightarrow> errc option \<Rightarrow> world \<Rightarrow> world run" where
  "try_callback r error w =
     (let w = update_request r cancel_timers w in
      if qr_persistent (requests w r)
      then case error of
             Some e \<Rightarrow>
               (let (done, w) = internal_cancel r w in
                if done then take_callback r (Some e) w else Some w)
           | None \<Rightarrow>
               if \<not> qr_is_completed (requests w r) then invoke_callback r None w else Some w
      else if \<not> qr_is_completed (requests w r)
      then take_callback r error (update_request r (\<lambda>rq. rq\<lparr>qr_is_completed := True\<rparr>) w)
      else Some w)"

subsection \<open>Steps\<close>

datatype queue_op =
    op_push nat nat nat
  | op_remove nat nat
  | op_pop nat bool
  | op_close nat
  | op_drain nat
  | op_enqueue nat u32 nat
  | op_response nat u32
  | op_cancel nat errc
  | op_try_callback nat "errc option"
  | op_retry nat retry_reason
  | op_set_deadline nat
  | op_set_retry_backoff nat

primrec exec_op :: "queue_op \<Rightarrow> world \<Rightarrow> world run" where
  "exec_op (op_push q r n) w = Some (snd (oq_push q r n w))"
| "exec_op (op_remove q r) w = Some (snd (oq_remove q r w))"
| "exec_op (op_pop q is_closed) w = map_option snd (oq_pop q is_closed w)"
| "exec_op (op_close q) w = Some (oq_close q w)"
| "exec_op (op_drain q) w = Some (snd (oq_items_to_drain q w))"
| "exec_op (op_enqueue s opq r) w = Some (session_enqueue_request s opq r w)"
| "exec_op (op_response s opq) w = Some (snd (session_handle_request s opq w))"
| "exec_op (op_cancel r e) w = qr_cancel r e w"
| "exec_op (op_try_callback r e) w = try_callback r e w"
| "exec_op (op_retry r reason) w = Some (update_request r (qr_record_retry_attempt reason) w)"
| "exec_op (op_set_deadline r) w = Some (update_request r set_deadline w)"
| "exec_op (op_set_retry_backoff r) w = Some (update_request r set_retry_backoff w)"

inductive queue_step :: "world \<Rightarrow> queue_op \<Rightarrow> world \<Rightarrow> bool" where
  queue_stepI: "exec_op a w = Some w' \<Longrightarrow> queue_step w a w'"

inductive_cases queue_stepE: "queue_step w a w'"

text \<open>At the start every request is fresh and every queue and session is empty.\<close>

definition fresh_request :: "queue_request \<Rightarrow> bool" where
  "fresh_request rq \<longleftrightarrow> qr_queued_with rq = None \<and> qr_waiting_in rq = None \<and>
     \<not> qr_is_completed rq \<and> qr_has_callback rq"

definition init_world :: "world \<Rightarrow> bool" where
  "init_world w \<longleftrightarrow> (\<forall>r. fresh_request (requests w r)) \<and> (\<forall>q. oq_items (queues w q) = []) \<and>
     (\<forall>s. sessions w s = Map.empty) \<and> call_log w = []"

subsection \<open>Invariants\<close>

definition calls :: "nat \<Rightarrow> world \<Rightarrow> errc option list" where
  "calls r w = map snd (filter (\<lambda>c. fst c = r) (call_log w))"

text \<open>
  A request that is not persistent is called back once, when it completes. A persistent one is
  called back with every response and a last time with an error, which completes it.
\<close>

definition callback_ok :: "queue_request \<Rightarrow> errc option list \<Rightarrow> bool" where
  "callback_ok rq cs \<longleftrightarrow>
     (qr_has_callback rq \<longleftrightarrow> \<not> qr_is_completed rq) \<and>
     (if qr_persistent rq
      then if qr_is_completed rq
           then cs \<noteq> [] \<and> last cs \<noteq> None \<and> list_all (\<lambda>e. e = None) (butlast cs)
           else list_all (\<lambda>e. e = None) cs
      else length cs = (if qr_is_completed rq then 1 else 0))"

definition callback_inv :: "world \<Rightarrow> bool" where
  "callback_inv w \<longleftrightarrow> (\<forall>r. callback_ok (requests w r) (calls r w))"

definition member_inv :: "world \<Rightarrow> bool" where
  "member_inv w \<longleftrightarrow> (\<forall>q. distinct (oq_items (queues w q)) \<and>
     (\<forall>r. r \<in> set (oq_items (queues w q)) \<longleftrightarrow> qr_queued_with (requests w r) = Some q))"

definition world_inv :: "world \<Rightarrow> bool" where
  "world_inv w \<longleftrightarrow> callback_inv w \<and> member_inv w"

text \<open>The parts of the world the two invariants are about.\<close>

definition callback_view :: "world \<Rightarrow> (nat \<Rightarrow> bool \<times> bool \<times> bool) \<times> (nat \<times> errc option) list" where
  "callback_view w =
     (\<lambda>r. (qr_persistent (requests w r), qr_is_completed (requests w r),
           qr_has_callback (requests w r)), call_log w)"

definition member_view :: "world \<Rightarrow> (nat \<Rightarrow> nat option) \<times> (nat \<Rightarrow> nat list)" where
  "member_view w = (\<lambda>r. qr_queued_with (requests w r), \<lambda>q. oq_items (queues w q))"

lemma callback_inv_view: "callback_view w = callback_view w' \<Longrightarrow> callback_inv w = callback_inv w'"
  by (simp add: callback_view_def callback_inv_def callback_ok_def calls_def fun_eq_iff)

lemma member_inv_view: "member_view w = member_view w' \<Longrightarrow> member_inv w = member_inv w'"
  by (simp add: member_view_def member_inv_def fun_eq_iff)

lemmas view_defs = callback_view_def member_view_def update_request_def update_queue_def

lemma requests_update [simp]:
  "requests (update_request r f w) x = (if x = r then f (requests w r) else requests w x)"
  "queues (update_request r f w) = queues w" "sessions (update_request r f w) = sessions w"
  "call_log (update_request r f w) = call_log w"
  by (simp_all add: update_request_def)

lemma queues_update [simp]:
  "queues (update_queue q f w) x = (if x = q then f (queues w q) else queues w x)"
  "requests (update_queue q f w) = requests w" "sessions (update_queue q f w) = sessions w"
  "call_log (update_queue q f w) = call_log w"
  by (simp_all add: update_queue_def)

lemma cancel_timers_simps [simp]:
  "qr_persistent (cancel_timers rq) = qr_persistent rq"
  "qr_is_completed (cancel_timers rq) = qr_is_completed rq"
  "qr_has_callback (cancel_timers rq) = qr_has_callback rq"
  "qr_queued_with (cancel_timers rq) = qr_queued_with rq"
  "qr_waiting_in (cancel_timers rq) = qr_waiting_in rq"
  by (simp_all add: cancel_timers_def)

lemma session_remove_simps [simp]:
  "requests (session_remove_request s r w) = requests w"
  "queues (session_remove_request s r w) = queues w"
  "call_log (session_remove_request s r w) = call_log w"
  by (simp_all add: session_remove_request_def)

lemma oq_remove_queued: "qr_queued_with (requests w r) \<noteq> None \<Longrightarrow> oq_remove q r w = (False, w)"
  by (simp add: oq_remove_def)

lemma update_request_same: "f (requests w r) = requests w r \<Longrightarrow> update_request r f w = w"
  by (simp add: update_request_def fun_upd_idem)

lemma oq_remove_member: "member_inv w \<Longrightarrow> oq_remove q r w = (False, w)"
proof (cases "qr_queued_with (requests w r)")
  case None
  assume "member_inv w"
  with None have "r \<notin> set (oq_items (queues w q))" by (auto simp: member_inv_def)
  moreover have "(requests w r)\<lparr>qr_queued_with := None\<rparr> = requests w r"
    using None by (cases "requests w r") simp
  ultimately show ?thesis
    using None update_request_same [of "\<lambda>rq. rq\<lparr>qr_queued_with := None\<rparr>" w r]
    by (simp add: oq_remove_def)
qed (simp add: oq_remove_queued)

subsection \<open>Every operation keeps the invariants\<close>

lemma internal_cancel_fails: "qr_is_completed (requests w r) \<Longrightarrow> internal_cancel r w = (False, w)"
  by (simp add: internal_cancel_def)

text \<open>A cancellation touches neither queues nor the log: it marks the request completed.\<close>

lemma internal_cancel_result:
  assumes "\<not> qr_is_completed (requests w r)"
  obtains w' where "internal_cancel r w = (True, w')" and "call_log w' = call_log w"
    and "queues w' = queues w"
    and "requests w' = (requests w)(r := cancel_timers ((requests w r)\<lparr>qr_is_completed := True\<rparr>))"
proof -
  define w1 where "w1 = update_request r (\<lambda>rq. cancel_timers (rq\<lparr>qr_is_completed := True\<rparr>)) w"
  define w2 where "w2 = (case qr_queued_with (requests w1 r) of None \<Rightarrow> w1
    | Some q \<Rightarrow> snd (oq_remove q r w1))"
  have w2: "w2 = w1"
    unfolding w2_def by (simp add: oq_remove_queued split: option.splits)
  define w3 where "w3 = (case qr_waiting_in (requests w2 r) of None \<Rightarrow> w2
    | Some s \<Rightarrow> session_remove_request s r w2)"
  have "internal_cancel r w = (True, w3)"
    using assms unfolding internal_cancel_def w3_def w2_def w1_def by (simp add: Let_def)
  moreover have "call_log w3 = call_log w" "queues w3 = queues w"
    "requests w3 = (requests w)(r := cancel_timers ((requests w r)\<lparr>qr_is_completed := True\<rparr>))"
    unfolding w3_def w2
    by (auto simp: w1_def fun_eq_iff split: option.splits)
  ultimately show thesis by (rule that)
qed

lemma calls_append: "call_log w' = call_log w @ [(r, e)] \<Longrightarrow>
    calls x w' = (if x = r then calls x w @ [e] else calls x w)"
  by (simp add: calls_def)

lemma callback_inv_complete:
  assumes "callback_inv w" and "\<not> qr_is_completed (requests w r)"
    and "call_log w' = call_log w @ [(r, e)]"
    and "\<And>x. x \<noteq> r \<Longrightarrow> requests w' x = requests w x"
    and "qr_persistent (requests w' r) = qr_persistent (requests w r)"
    and "qr_is_completed (requests w' r)" and "\<not> qr_has_callback (requests w' r)"
    and "qr_persistent (requests w r) \<Longrightarrow> e \<noteq> None"
  shows "callback_inv w'"
  unfolding callback_inv_def
proof
  fix x
  have old: "callback_ok (requests w x) (calls x w)" using assms(1) by (simp add: callback_inv_def)
  show "callback_ok (requests w' x) (calls x w')"
  proof (cases "x = r")
    case True
    with old assms(2,5-8) show ?thesis
      by (auto simp: callback_ok_def calls_append [OF assms(3)])
  qed (use old assms(4) in \<open>simp add: calls_append [OF assms(3)]\<close>)
qed

text \<open>A response to a persistent request leaves it open.\<close>

lemma callback_inv_respond:
  assumes "callback_inv w" and "\<not> qr_is_completed (requests w r)" and "qr_persistent (requests w r)"
  shows "callback_inv (w\<lparr>call_log := call_log w @ [(r, None)]\<rparr>)"
  unfolding callback_inv_def
proof
  fix x
  have "callback_ok (requests w x) (calls x w)" using assms(1) by (simp add: callback_inv_def)
  then show "callback_ok (requests (w\<lparr>call_log := call_log w @ [(r, None)]\<rparr>) x)
      (calls x (w\<lparr>call_log := call_log w @ [(r, None)]\<rparr>))"
    using assms(2,3) calls_append [of "w\<lparr>call_log := call_log w @ [(r, None)]\<rparr>" w r None x]
    by (cases "x = r") (simp_all add: callback_ok_def)
qed

lemma take_callback_result:
  "qr_has_callback (requests w r) \<Longrightarrow> take_callback r e w =
     Some (update_request r (\<lambda>rq. rq\<lparr>qr_has_callback := False\<rparr>)
       (w\<lparr>call_log := call_log w @ [(r, e)]\<rparr>))"
  by (simp add: take_callback_def invoke_callback_def)

lemma callback_inv_has: "callback_inv w \<Longrightarrow> qr_has_callback (requests w r) = (\<not> qr_is_completed (requests w r))"
  by (simp add: callback_inv_def callback_ok_def)

text \<open>Cancelling, then taking the callback.\<close>

lemma cancel_then_call:
  assumes "world_inv w"
  shows "\<exists>w'. (let (ok, w) = internal_cancel r w in
      if ok then take_callback r (Some e) w else Some w) = Some w' \<and> world_inv w'"
proof (cases "qr_is_completed (requests w r)")
  case True
  then show ?thesis using assms by (simp add: internal_cancel_fails)
next
  case False
  then obtain w1 where w1: "internal_cancel r w = (True, w1)" "call_log w1 = call_log w"
      "queues w1 = queues w"
      "requests w1 = (requests w)(r := cancel_timers ((requests w r)\<lparr>qr_is_completed := True\<rparr>))"
    by (rule internal_cancel_result)
  have cb: "callback_inv w" and mem: "member_inv w" using assms by (simp_all add: world_inv_def)
  have has: "qr_has_callback (requests w1 r)"
    using callback_inv_has [OF cb, of r] False w1(4) by simp
  let ?w2 = "update_request r (\<lambda>rq. rq\<lparr>qr_has_callback := False\<rparr>)
    (w1\<lparr>call_log := call_log w1 @ [(r, Some e)]\<rparr>)"
  have "callback_inv ?w2"
    by (rule callback_inv_complete [OF cb False, of _ "Some e"]) (simp_all add: w1)
  moreover have "member_inv ?w2"
    using mem by (subst member_inv_view [of _ w]) (auto simp: member_view_def w1 fun_eq_iff)
  ultimately show ?thesis
    using take_callback_result [OF has, of "Some e"] by (simp add: w1 world_inv_def)
qed

lemma qr_cancel_inv: "world_inv w \<Longrightarrow> \<exists>w'. qr_cancel r e w = Some w' \<and> world_inv w'"
  unfolding qr_cancel_def by (rule cancel_then_call)

lemma cancel_timers_inv:
  assumes "world_inv w"
  shows "world_inv (update_request r cancel_timers w)"
  using assms callback_inv_view [of "update_request r cancel_timers w" w]
    member_inv_view [of "update_request r cancel_timers w" w]
  by (auto simp: world_inv_def callback_view_def member_view_def fun_eq_iff)

lemma try_callback_inv: "world_inv w \<Longrightarrow> \<exists>w'. try_callback r e w = Some w' \<and> world_inv w'"
proof -
  assume "world_inv w"
  define w1 where "w1 = update_request r cancel_timers w"
  then have inv: "world_inv w1" using cancel_timers_inv [OF \<open>world_inv w\<close>] by simp
  then have cb: "callback_inv w1" and mem: "member_inv w1" by (simp_all add: world_inv_def)
  note has = callback_inv_has [OF cb, of r]
  show ?thesis
  proof (cases "qr_persistent (requests w1 r)")
    case True
    show ?thesis
    proof (cases e)
      case None
      have "world_inv (w1\<lparr>call_log := call_log w1 @ [(r, None)]\<rparr>)"
        if "\<not> qr_is_completed (requests w1 r)"
        using callback_inv_respond [OF cb that True] mem
        by (simp add: world_inv_def member_inv_def)
      then show ?thesis
        using inv True None has
        by (auto simp: try_callback_def w1_def [symmetric] Let_def invoke_callback_def)
    next
      case (Some x)
      then show ?thesis
        using cancel_then_call [OF inv, of r x] True
        by (simp add: try_callback_def w1_def [symmetric] Let_def)
    qed
  next
    case False
    show ?thesis
    proof (cases "qr_is_completed (requests w1 r)")
      case True
      then show ?thesis
        using inv False by (auto simp: try_callback_def w1_def [symmetric] Let_def)
    next
      case open_req: False
      let ?w2 = "update_request r (\<lambda>rq. rq\<lparr>qr_is_completed := True\<rparr>) w1"
      let ?w3 = "update_request r (\<lambda>rq. rq\<lparr>qr_has_callback := False\<rparr>)
        (?w2\<lparr>call_log := call_log ?w2 @ [(r, e)]\<rparr>)"
      have "callback_inv ?w3"
        by (rule callback_inv_complete [OF cb open_req, of _ e]) (simp_all add: False)
      moreover have "member_inv ?w3"
        using mem by (subst member_inv_view [of _ w1]) (auto simp: member_view_def fun_eq_iff)
      ultimately show ?thesis
        using False open_req has take_callback_result [of ?w2 r e]
        by (simp add: try_callback_def w1_def [symmetric] Let_def world_inv_def)
    qed
  qed
qed

text \<open>The other operations leave the callbacks alone.\<close>

lemma fold_unqueue:
  "requests (fold (\<lambda>r. update_request r (\<lambda>rq. rq\<lparr>qr_queued_with := None\<rparr>)) rs w) x =
     (if x \<in> set rs then (requests w x)\<lparr>qr_queued_with := None\<rparr> else requests w x)"
  "queues (fold (\<lambda>r. update_request r (\<lambda>rq. rq\<lparr>qr_queued_with := None\<rparr>)) rs w) = queues w"
  "call_log (fold (\<lambda>r. update_request r (\<lambda>rq. rq\<lparr>qr_queued_with := None\<rparr>)) rs w) = call_log w"
  by (induction rs arbitrary: w) auto

lemma callback_view_ops:
  "callback_view (snd (oq_push q r n w)) = callback_view w"
  "callback_view (snd (oq_items_to_drain q w)) = callback_view w"
  "callback_view (oq_close q w) = callback_view w"
  "callback_view (session_enqueue_request s opq r w) = callback_view w"
  "callback_view (snd (session_handle_request s opq w)) = callback_view w"
  "callback_view (update_request r (qr_record_retry_attempt reason) w) = callback_view w"
  "callback_view (update_request r set_deadline w) = callback_view w"
  "callback_view (update_request r set_retry_backoff w) = callback_view w"
  by (auto simp: callback_view_def fun_eq_iff oq_push_def oq_items_to_drain_def oq_close_def
        session_enqueue_request_def session_handle_request_def qr_record_retry_attempt_def
        set_deadline_def set_retry_backoff_def fold_unqueue Let_def split: option.splits)

lemma member_view_ops:
  "member_view (oq_close q w) = member_view w"
  "member_view (session_enqueue_request s opq r w) = member_view w"
  "member_view (snd (session_handle_request s opq w)) = member_view w"
  "member_view (update_request r (qr_record_retry_attempt reason) w) = member_view w"
  "member_view (update_request r set_deadline w) = member_view w"
  "member_view (update_request r set_retry_backoff w) = member_view w"
  by (auto simp: member_view_def fun_eq_iff oq_close_def session_enqueue_request_def
        session_handle_request_def qr_record_retry_attempt_def set_deadline_def
        set_retry_backoff_def Let_def split: option.splits)

lemma oq_push_member_inv: "member_inv w \<Longrightarrow> member_inv (snd (oq_push q r n w))"
  unfolding oq_push_def Let_def
  by (auto simp: member_inv_def)

lemma oq_drain_member_inv: "member_inv w \<Longrightarrow> member_inv (snd (oq_items_to_drain q w))"
  unfolding oq_items_to_drain_def Let_def
  by (auto simp: member_inv_def fold_unqueue)

lemma oq_pop_cases:
  "oq_pop q is_closed w = (if oq_is_open (queues w q) \<and> \<not> is_closed \<and> oq_items (queues w q) = []
     then None else Some (pop_blocks, w))"
  by (auto simp: oq_pop_def Let_def)

lemma exec_op_inv: "world_inv w \<Longrightarrow> exec_op a w = Some w' \<Longrightarrow> world_inv w'"
proof (cases a)
  case (op_cancel r e)
  assume "world_inv w" "exec_op a w = Some w'"
  then show ?thesis using qr_cancel_inv [of w r e] by (auto simp: op_cancel)
next
  case (op_try_callback r e)
  assume "world_inv w" "exec_op a w = Some w'"
  then show ?thesis using try_callback_inv [of w r e] by (auto simp: op_try_callback)
qed (auto simp: world_inv_def oq_remove_member oq_pop_cases oq_push_member_inv oq_drain_member_inv
       callback_inv_view [OF callback_view_ops(1)] callback_inv_view [OF callback_view_ops(2)]
       callback_inv_view [OF callback_view_ops(3)] callback_inv_view [OF callback_view_ops(4)]
       callback_inv_view [OF callback_view_ops(5)] callback_inv_view [OF callback_view_ops(6)]
       callback_inv_view [OF callback_view_ops(7)] callback_inv_view [OF callback_view_ops(8)]
       member_inv_view [OF member_view_ops(1)] member_inv_view [OF member_view_ops(2)]
       member_inv_view [OF member_view_ops(3)] member_inv_view [OF member_view_ops(4)]
       member_inv_view [OF member_view_ops(5)] member_inv_view [OF member_view_ops(6)]
       split: if_splits)

lemma init_world_inv: "init_world w \<Longrightarrow> world_inv w"
  by (auto simp: init_world_def fresh_request_def world_inv_def callback_inv_def callback_ok_def
        member_inv_def calls_def)

interpretation queue_world: state_invariant init_world queue_step world_inv
  by unfold_locales (auto elim!: queue_stepE intro: init_world_inv exec_op_inv)

subsection \<open>What a caller sees\<close>


text \<open>
  no sequence of operations other than a pop invokes a callback that was moved away or is
  otherwise undefined: in every reachable state every such operation returns.
\<close>

theorem queue_ops_defined:
  assumes "reachable init_world queue_step w" and "\<And>q is_closed. a \<noteq> op_pop q is_closed"
  shows "\<exists>w'. exec_op a w = Some w'"
proof -
  note inv = queue_world.inv_reachable [OF assms(1)]
  show ?thesis
  proof (cases a)
    case (op_cancel r e)
    then show ?thesis using qr_cancel_inv [OF inv, of r e] by auto
  next
    case (op_try_callback r e)
    then show ?thesis using try_callback_inv [OF inv, of r e] by auto
  next
    case (op_pop q is_closed)
    then show ?thesis using assms(2) by blast
  qed simp_all
qed

text \<open>
  removing a request from the queue it is in always fails, and a cancelled request stays in
  its queue: \<^verbatim>\<open>remove\<close> compares the request's queue with the null pointer instead of with
  itself.
\<close>

theorem queued_request_never_removed:
  assumes "reachable init_world queue_step w" and "r \<in> set (oq_items (queues w q))"
  shows "oq_remove q r w = (False, w) \<and>
    (\<exists>w'. qr_cancel r e w = Some w' \<and> r \<in> set (oq_items (queues w' q)))"
proof -
  have inv: "world_inv w" using queue_world.inv_reachable [OF assms(1)] .
  then have "oq_remove q r w = (False, w)" by (simp add: world_inv_def oq_remove_member)
  moreover obtain w' where w': "qr_cancel r e w = Some w'"
    using qr_cancel_inv [OF inv] by blast
  moreover have "queues w' = queues w"
  proof (cases "qr_is_completed (requests w r)")
    case True
    then show ?thesis using w' by (simp add: qr_cancel_def internal_cancel_fails)
  next
    case False
    then obtain w1 where "internal_cancel r w = (True, w1)" "queues w1 = queues w"
      by (rule internal_cancel_result)
    then show ?thesis
      using w' by (auto simp: qr_cancel_def take_callback_def invoke_callback_def
          split: if_splits)
  qed
  ultimately show ?thesis using assms(2) by auto
qed

text \<open>
  popping never yields a request: the wait ends only when the queue is open and empty, and
  then the front of the empty list is taken; in every other state the call keeps waiting, also
  after the queue is closed.
\<close>

theorem pop_never_returns:
  "oq_pop q is_closed w =
     (if oq_is_open (queues w q) \<and> \<not> is_closed \<and> oq_items (queues w q) = []
      then None else Some (pop_blocks, w))"
  by (rule oq_pop_cases)

lemma push_appends:
  assumes "oq_is_open (queues w q)" and "qr_queued_with (requests w r) = None"
    and "\<not> qr_is_completed (requests w r)"
  shows "oq_push q r 0 w = (None, update_queue q (\<lambda>oq. oq\<lparr>oq_items := oq_items oq @ [r]\<rparr>)
    (update_request r (\<lambda>rq. rq\<lparr>qr_queued_with := Some q\<rparr>) w))"
  using assms by (simp add: oq_push_def is_cancelled_def)

lemma push_all_items:
  assumes "oq_is_open (queues w q)" and "distinct rs"
    and "list_all (\<lambda>r. qr_queued_with (requests w r) = None \<and> \<not> qr_is_completed (requests w r)) rs"
  shows "oq_items (queues (fold (\<lambda>r w. snd (oq_push q r 0 w)) rs w) q) = oq_items (queues w q) @ rs"
  using assms
proof (induction rs arbitrary: w)
  case (Cons r rs)
  let ?w = "snd (oq_push q r 0 w)"
  have "list_all (\<lambda>x. qr_queued_with (requests ?w x) = None \<and> \<not> qr_is_completed (requests ?w x)) rs"
    using Cons.prems by (auto simp: push_appends list_all_iff)
  then show ?case
    using Cons by (simp add: push_appends)
qed simp

text \<open>
  closing a queue and draining it hands over the queued requests in the order in which they
  were pushed.
\<close>

theorem drain_is_fifo:
  assumes "oq_is_open (queues w q)" and "oq_items (queues w q) = []" and "distinct rs"
    and "list_all (\<lambda>r. qr_queued_with (requests w r) = None \<and> \<not> qr_is_completed (requests w r)) rs"
  shows "fst (oq_items_to_drain q (oq_close q (fold (\<lambda>r w. snd (oq_push q r 0 w)) rs w))) = rs"
  using push_all_items [OF assms(1,3,4)] assms(2)
  by (simp add: oq_items_to_drain_def oq_close_def Let_def)

lemma close_consumer_deadlock: "close_consumer mutex_held = None"
  by (cases mutex_held) (simp_all add: close_consumer.simps)

subsection \<open>A concrete run\<close>

definition sample_world :: world where
  "sample_world = \<lparr>requests = (\<lambda>_. new_queue_request magic_client_request opcode_get),
     queues = (\<lambda>_. \<lparr>oq_items = [], oq_is_open = True\<rparr>), sessions = (\<lambda>_. Map.empty),
     call_log = []\<rparr>"

definition sample_queued :: world where
  "sample_queued = snd (oq_push 0 7 0 sample_world)"

lemma sample_request_fields [simp]:
  "qr_queued_with (requests sample_world r) = None" "qr_waiting_in (requests sample_world r) = None"
  "\<not> qr_is_completed (requests sample_world r)" "qr_has_callback (requests sample_world r)"
  by (simp_all add: sample_world_def new_queue_request_def default_packet_def packet.defs
        queue_request.defs)

lemma sample_world_queue [simp]:
  "oq_is_open (queues sample_world q)" "oq_items (queues sample_world q) = []"
  by (simp_all add: sample_world_def)

lemma sample_world_init: "init_world sample_world"
  by (simp add: init_world_def fresh_request_def) (simp add: sample_world_def)

lemma sample_queued_reachable: "reachable init_world queue_step sample_queued"
proof (rule reach_step)
  show "reachable init_world queue_step sample_world"
    by (rule reach_init) (rule sample_world_init)
  show "queue_step sample_world (op_push 0 7 0) sample_queued"
    by (rule queue_stepI) (simp add: sample_queued_def)
qed

lemma sample_queued_items: "oq_items (queues sample_queued 0) = [7]"
  by (simp add: sample_queued_def push_appends)


theorem queue_ops_defined_witness:
  "\<exists>w'. exec_op (op_cancel 7 (errc_common common_unambiguous_timeout)) sample_queued = Some w'"
  by (rule queue_ops_defined [OF sample_queued_reachable]) simp

theorem queued_request_never_removed_witness:
  "oq_remove 0 7 sample_queued = (False, sample_queued)"
  using queued_request_never_removed [OF sample_queued_reachable, of 7 0
      "errc_common common_request_canceled"]
  by (simp add: sample_queued_items)

theorem drain_is_fifo_witness:
  "fst (oq_items_to_drain 0 (oq_close 0 (fold (\<lambda>r w. snd (oq_push 0 r 0 w)) [3, 1, 2] sample_world)))
     = [3, 1, 2]"
  by (rule drain_is_fifo) simp_all

end
