(* ===== verification/Streaming.thy ===== *)
theory Streaming
  imports Prelude "HOL-Library.Sublist"
begin

text \<open>
  The interface of a parser of a byte stream that arrives in chunks of any size. A parser keeps
  the bytes it has not used; it takes one message off the front of its buffer
  (\<open>Some (Some (m, rest))\<close>), asks for more (\<open>Some None\<close>) or fails (\<open>None\<close>). From its laws on single frames the interface derives that the messages of a stream do not depend
  on how the stream was cut.
\<close>

locale stream_parser =
  fixes next_msg :: "bytes \<Rightarrow> ('m \<times> bytes) option option"
    and frame :: "bytes \<Rightarrow> bool"
    and msg_of :: "bytes \<Rightarrow> 'm"
  assumes frame_nonempty: "frame f \<Longrightarrow> f \<noteq> []"
    and next_frame: "frame f \<Longrightarrow> rest = [] \<or> (\<exists>g. frame g \<and> hd rest = hd g) \<Longrightarrow>
      next_msg (f @ rest) = Some (Some (msg_of f, rest))"
    and next_short: "frame f \<Longrightarrow> strict_prefix p f \<Longrightarrow> next_msg p = Some None"
    and next_empty: "next_msg [] = Some None"
begin

text \<open>All complete messages of a buffer, with a bound on their number.\<close>

primrec take_msgs :: "nat \<Rightarrow> bytes \<Rightarrow> ('m list \<times> bytes) option" where
  "take_msgs 0 b = None"
| "take_msgs (Suc n) b =
     (case next_msg b of
        None \<Rightarrow> None
      | Some None \<Rightarrow> Some ([], b)
      | Some (Some (m, b')) \<Rightarrow> map_option (\<lambda>(ms, b''). (m # ms, b'')) (take_msgs n b'))"

lemma prefix_of_frames:
  assumes "list_all frame fs" and "prefix x (concat fs)"
  shows "\<exists>k r. k \<le> length fs \<and> x = concat (take k fs) @ r \<and>
    (if k < length fs then strict_prefix r (fs ! k) else r = [])"
  using assms
proof (induction fs arbitrary: x)
  case (Cons f fs)
  have "prefix x f \<or> (\<exists>y. x = f @ y \<and> prefix y (concat fs))"
    using Cons.prems(2) by (simp add: prefix_append)
  moreover have "x = f \<Longrightarrow> x = f @ [] \<and> prefix [] (concat fs)" by simp
  ultimately consider "strict_prefix x f" | y where "x = f @ y" "prefix y (concat fs)"
    unfolding strict_prefix_def by blast
  then show ?case
  proof cases
    case 1
    then show ?thesis by (intro exI [of _ 0] exI [of _ x]) simp
  next
    case 2
    from Cons.IH [OF _ this(2)] Cons.prems obtain k r where
      "k \<le> length fs" "y = concat (take k fs) @ r"
      "if k < length fs then strict_prefix r (fs ! k) else r = []" by auto
    with 2 show ?thesis by (intro exI [of _ "Suc k"] exI [of _ r]) simp
  qed
qed simp

lemma starts_frame:
  assumes "list_all frame fs" and "prefix x (concat fs)"
  shows "x = [] \<or> (\<exists>g. frame g \<and> hd x = hd g)"
proof (cases fs)
  case (Cons g gs)
  with assms have "frame g" "g \<noteq> []" using frame_nonempty by auto
  then show ?thesis using assms(2) Cons by (cases x; cases g) auto
qed (use assms in simp)

lemma take_msgs_frames:
  assumes "list_all frame fs" and "length fs < n"
    and "prefix r (concat gs)" and "list_all frame gs" and "next_msg r = Some None"
  shows "take_msgs n (concat fs @ r) = Some (map msg_of fs, r)"
  using assms(1,2)
proof (induction fs arbitrary: n)
  case Nil
  then show ?case using assms(5) by (cases n) simp_all
next
  case (Cons f fs)
  obtain n' where n: "n = Suc n'" using Cons.prems by (cases n) auto
  have "prefix (concat fs @ r) (concat (fs @ gs))" using assms(3) by simp
  moreover have "list_all frame (fs @ gs)" using Cons.prems assms(4) by simp
  ultimately have "concat fs @ r = [] \<or> (\<exists>g. frame g \<and> hd (concat fs @ r) = hd g)"
    using starts_frame by blast
  then have "next_msg (f @ concat fs @ r) = Some (Some (msg_of f, concat fs @ r))"
    using Cons.prems by (intro next_frame) auto
  then show ?case using Cons by (simp add: n)
qed

text \<open>Feeding chunks one after another, each time taking what is complete.\<close>

primrec feed_chunks :: "bytes list \<Rightarrow> bytes \<Rightarrow> ('m list \<times> bytes) option" where
  "feed_chunks [] b = Some ([], b)"
| "feed_chunks (c # cs) b = do {
     (ms, b') \<leftarrow> take_msgs (Suc (length (b @ c))) (b @ c);
     (ms', b'') \<leftarrow> feed_chunks cs b';
     Some (ms @ ms', b'') }"

lemma length_frames_le: "list_all frame fs \<Longrightarrow> length fs \<le> length (concat fs)"
proof (induction fs)
  case (Cons f fs)
  then show ?case using frame_nonempty [of f] by (cases f) auto
qed simp

lemma short_or_empty:
  assumes "list_all frame fs"
    and "if k < length fs then strict_prefix r (fs ! k) else r = []"
  shows "next_msg r = Some None"
  using assms next_short next_empty by (auto simp: list_all_length split: if_splits)

lemma feed_chunks_frames:
  assumes "list_all frame fs" and "b @ concat cs = concat fs" and "next_msg b = Some None"
  shows "feed_chunks cs b = Some (map msg_of fs, [])"
  using assms
proof (induction cs arbitrary: b fs)
  case Nil
  then show ?case
  proof (cases fs)
    case (Cons f gs)
    have "prefix (concat gs) (concat gs)" by simp
    then have "next_msg (f @ concat gs) = Some (Some (msg_of f, concat gs))"
      using Nil Cons starts_frame [of gs "concat gs"] by (intro next_frame) auto
    then show ?thesis using Nil Cons by simp
  qed simp
next
  case (Cons c cs)
  have "prefix (b @ c) (concat fs)" using Cons.prems(2) by (metis append_assoc concat.simps(2) prefixI)
  from prefix_of_frames [OF Cons.prems(1) this] obtain k r where
    k: "k \<le> length fs" "b @ c = concat (take k fs) @ r"
       "if k < length fs then strict_prefix r (fs ! k) else r = []" by blast
  have fs: "list_all frame (take k fs)" "list_all frame (drop k fs)"
    using Cons.prems(1) by (auto simp: list_all_length)
  have "concat (take k fs) @ r @ concat cs = concat (take k fs) @ concat (drop k fs)"
    using Cons.prems(2) k(2) by (metis append_assoc append_take_drop_id concat.simps(2) concat_append)
  then have rest: "r @ concat cs = concat (drop k fs)" by simp
  then have pre: "prefix r (concat (drop k fs))" by (metis prefixI)
  have none: "next_msg r = Some None" using short_or_empty [OF Cons.prems(1) k(3)] .
  have "length (take k fs) < Suc (length (b @ c))"
    using length_frames_le [OF fs(1)] by (simp add: k(2))
  from take_msgs_frames [OF fs(1) this pre fs(2) none]
  have "take_msgs (Suc (length (b @ c))) (b @ c) = Some (map msg_of (take k fs), r)"
    by (simp add: k(2))
  moreover have "feed_chunks cs r = Some (map msg_of (drop k fs), [])"
    using Cons.IH [OF fs(2) rest none] .
  ultimately show ?case
    by (simp del: length_append flip: map_append)
qed

end

end
