(* ===== verification/Mcbp_Parser.thy ===== *)
theory Mcbp_Parser
  imports Mcbp_Codec Streaming
begin

text \<open>
  The framing of the key-value stream, \<^verbatim>\<open>core/io/mcbp_parser.cxx\<close>, with the message of
  \<^verbatim>\<open>core/io/mcbp_message.hxx\<close> and the read loop of \<^verbatim>\<open>core/io/mcbp_session.cxx\<close>. The
  header is a copy of the first 24 bytes: its multi-byte fields keep network order and are swapped
  where they are used. \<^verbatim>\<open>snappy::Uncompress\<close> is a parameter: \<open>None\<close> is a failed
  decompression. The parser interprets \<open>stream_parser\<close>.
\<close>

subsection \<open>Messages\<close>

record binary_header =
  bh_magic :: byte
  bh_opcode :: byte
  bh_keylen :: u16
  bh_extlen :: byte
  bh_datatype :: byte
  bh_specific :: u16
  bh_bodylen :: u32
  bh_opaque :: u32
  bh_cas :: u64

record mcbp_message =
  msg_header :: binary_header
  msg_body :: bytes

definition bh_status :: "binary_header \<Rightarrow> u16" where
  "bh_status h = byte_swap16 (bh_specific h)"

definition header_data :: "binary_header \<Rightarrow> bytes" where
  "header_data h =
     [bh_magic h, bh_opcode h] @ store_le16 (bh_keylen h) @ [bh_extlen h, bh_datatype h] @
     store_le16 (bh_specific h) @ store_le32 (bh_bodylen h) @ store_le32 (bh_opaque h) @
     store_le64 (bh_cas h)"

text \<open>\<^verbatim>\<open>std::memcpy(&msg.header, buf.data(), header_size)\<close>.\<close>

definition load_header :: "bytes \<Rightarrow> binary_header run" where
  "load_header buf = do {
     mgc \<leftarrow> span_at buf 0;
     opcode \<leftarrow> span_at buf 1;
     keylen \<leftarrow> load_le16 buf 2;
     extlen \<leftarrow> span_at buf 4;
     dtype \<leftarrow> span_at buf 5;
     specific \<leftarrow> load_le16 buf 6;
     bodylen \<leftarrow> load_le32 buf 8;
     opq \<leftarrow> load_le32 buf 12;
     cas \<leftarrow> load_le64 buf 16;
     Some \<lparr>bh_magic = mgc, bh_opcode = opcode, bh_keylen = keylen, bh_extlen = extlen,
           bh_datatype = dtype, bh_specific = specific, bh_bodylen = bodylen,
           bh_opaque = opq, bh_cas = cas\<rparr> }"

subsection \<open>The parser\<close>

datatype parse_result = parse_ok | parse_need_data | parse_failure

definition mcbp_feed :: "bytes \<Rightarrow> bytes \<Rightarrow> bytes" where
  "mcbp_feed buf chunk = buf @ chunk"

text \<open>The framing extras, extras and key precede the value.\<close>

definition prefix_size :: "binary_header \<Rightarrow> nat" where
  "prefix_size h =
     (if bh_magic h = magic_alt_client_response
      then let framing_extras_size = unat (bh_keylen h AND 0xff);
               key_size = unat (drop_bit 8 (bh_keylen h))
           in framing_extras_size + unat (bh_extlen h) + key_size
      else unat (bh_extlen h) + unat (byte_swap16 (bh_keylen h)))"

text \<open>The value, decompressed when the datatype says so and decompression succeeds.\<close>

definition message_value ::
  "(bytes \<Rightarrow> bytes option) \<Rightarrow> binary_header \<Rightarrow> nat \<Rightarrow> bytes \<Rightarrow> binary_header \<times> bytes" where
  "message_value uncompress h prefix_len raw =
     (if has_flag (bh_datatype h) datatype_snappy
      then case uncompress raw of
             Some uncompressed \<Rightarrow>
               (h\<lparr>bh_bodylen := byte_swap32 (of_nat (prefix_len + length uncompressed))\<rparr>, uncompressed)
           | None \<Rightarrow> (h, raw)
      else (h, raw))"

definition mcbp_next ::
  "(bytes \<Rightarrow> bytes option) \<Rightarrow> mcbp_message \<Rightarrow> bytes \<Rightarrow> (parse_result \<times> mcbp_message \<times> bytes) run" where
  "mcbp_next uncompress msg buf =
     (if length buf < 24 then Some (parse_need_data, msg, buf)
      else do {
        h \<leftarrow> load_header buf;
        let msg = msg\<lparr>msg_header := h\<rparr>;
        let body_size = unat (byte_swap32 (bh_bodylen h));
        if body_size > 0 \<and> length buf - 24 < body_size
        then Some (parse_need_data, msg, buf)
        else if prefix_size h > body_size
        then Some (parse_failure, msg\<lparr>msg_body := []\<rparr>, [])
        else do {
          pre \<leftarrow> mem_read buf 24 (prefix_size h);
          raw \<leftarrow> mem_read buf (24 + prefix_size h) (body_size - prefix_size h);
          let (h', val) = message_value uncompress h (prefix_size h) raw;
          let rest = drop (24 + body_size) buf;
          let rest = (if rest \<noteq> [] \<and> \<not> is_valid_magic (hd rest) then [] else rest);
          Some (parse_ok, \<lparr>msg_header = h', msg_body = pre @ val\<rparr>, rest) } })"

text \<open>
  The loop after a read: messages are handled until the parser asks for more, which starts the
  next read, or fails, which stops the session.
\<close>

lemma mem_read_le16: "off + 2 \<le> length b \<Longrightarrow> \<exists>v. load_le16 b off = Some v"
  by (simp add: load_le16_def mem_read_def)

lemma mem_read_le32: "off + 4 \<le> length b \<Longrightarrow> \<exists>v. load_le32 b off = Some v"
  by (simp add: load_le32_def mem_read_def)

lemma mem_read_le64: "off + 8 \<le> length b \<Longrightarrow> \<exists>v. load_le64 b off = Some v"
  by (simp add: load_le64_def mem_read_def)

lemma load_header_defined: "24 \<le> length b \<Longrightarrow> \<exists>h. load_header b = Some h"
  using mem_read_le16 [of 2 b] mem_read_le16 [of 6 b] mem_read_le32 [of 8 b]
    mem_read_le32 [of 12 b] mem_read_le64 [of 16 b]
  by (auto simp: load_header_def span_at_def)

lemma mcbp_next_shrinks:
  "mcbp_next uncompress msg buf = Some (parse_ok, msg', buf') \<Longrightarrow> length buf' < length buf"
  by (auto simp: mcbp_next_def Let_def split: if_splits bind_splits prod.splits)

function read_loop ::
  "(bytes \<Rightarrow> bytes option) \<Rightarrow> bytes \<Rightarrow> (mcbp_message list \<times> bool \<times> bytes) run" where
  "read_loop uncompress buf =
     (case mcbp_next uncompress \<lparr>msg_header = \<lparr>bh_magic = 0, bh_opcode = 0, bh_keylen = 0,
             bh_extlen = 0, bh_datatype = 0, bh_specific = 0, bh_bodylen = 0, bh_opaque = 0,
             bh_cas = 0\<rparr>, msg_body = []\<rparr> buf of
        None \<Rightarrow> None
      | Some (parse_ok, msg, buf') \<Rightarrow>
          (case read_loop uncompress buf' of
             None \<Rightarrow> None
           | Some (msgs, keep_reading, buf'') \<Rightarrow> Some (msg # msgs, keep_reading, buf''))
      | Some (parse_need_data, msg, buf') \<Rightarrow> Some ([], True, buf')
      | Some (parse_failure, msg, buf') \<Rightarrow> Some ([], False, buf'))"
  by pat_completeness auto
termination
  by (relation "measure (\<lambda>(_, buf). length buf)") (auto dest: mcbp_next_shrinks)

declare read_loop.simps [simp del]

primrec read_chunks ::
  "(bytes \<Rightarrow> bytes option) \<Rightarrow> bytes list \<Rightarrow> bytes \<Rightarrow> (mcbp_message list \<times> bool \<times> bytes) run" where
  "read_chunks uncompress [] buf = Some ([], True, buf)"
| "read_chunks uncompress (c # cs) buf = do {
     (msgs, keep_reading, buf) \<leftarrow> read_loop uncompress (mcbp_feed buf c);
     if keep_reading
     then do {
       (msgs', keep_reading, buf) \<leftarrow> read_chunks uncompress cs buf;
       Some (msgs @ msgs', keep_reading, buf) }
     else Some (msgs, False, buf) }"

subsection \<open>No read outside the buffer\<close>

text \<open>
  C20: whatever bytes arrive, parsing them never reads outside the buffer: the lengths of the
  framing extras, extras and key are checked against the body before they are used.
\<close>

theorem mcbp_next_safe: "mcbp_next uncompress msg buf \<noteq> None"
proof (cases "24 \<le> length buf")
  case True
  then obtain h where "load_header buf = Some h" using load_header_defined by blast
  then show ?thesis
    by (auto simp: mcbp_next_def Let_def mem_read_def split: prod.splits)
qed (simp add: mcbp_next_def)

subsection \<open>Frames\<close>

definition body_size :: "binary_header \<Rightarrow> nat" where
  "body_size h = unat (byte_swap32 (bh_bodylen h))"

definition well_framed :: "bytes \<Rightarrow> bool" where
  "well_framed f \<longleftrightarrow>
     (case load_header f of None \<Rightarrow> False
      | Some h \<Rightarrow> length f = 24 + body_size h \<and> prefix_size h \<le> body_size h \<and>
          is_valid_magic (bh_magic h))"

definition message_of :: "(bytes \<Rightarrow> bytes option) \<Rightarrow> bytes \<Rightarrow> mcbp_message" where
  "message_of uncompress f =
     (case load_header f of
        Some h \<Rightarrow> (let n = prefix_size h; (h', val) = message_value uncompress h n (drop (24 + n) f)
                   in \<lparr>msg_header = h', msg_body = take n (drop 24 f) @ val\<rparr>))"

abbreviation (input) blank_message :: mcbp_message where
  "blank_message \<equiv> \<lparr>msg_header = \<lparr>bh_magic = 0, bh_opcode = 0, bh_keylen = 0, bh_extlen = 0,
     bh_datatype = 0, bh_specific = 0, bh_bodylen = 0, bh_opaque = 0, bh_cas = 0\<rparr>, msg_body = []\<rparr>"

definition next_message ::
  "(bytes \<Rightarrow> bytes option) \<Rightarrow> bytes \<Rightarrow> (mcbp_message \<times> bytes) option option" where
  "next_message uncompress buf =
     (case mcbp_next uncompress blank_message buf of
        Some (parse_ok, msg, buf') \<Rightarrow> Some (Some (msg, buf'))
      | Some (parse_need_data, msg, buf') \<Rightarrow> Some None
      | _ \<Rightarrow> None)"

lemma mem_read_take: "off + n \<le> k \<Longrightarrow> k \<le> length b \<Longrightarrow> mem_read (take k b) off n = mem_read b off n"
  by (simp add: mem_read_def drop_take min_def)

lemma load_header_take: "24 \<le> k \<Longrightarrow> k \<le> length b \<Longrightarrow> load_header (take k b) = load_header b"
proof -
  assume k: "24 \<le> k" "k \<le> length b"
  then have "b \<noteq> []" by auto
  with k show ?thesis
    by (simp add: load_header_def load_le16_def load_le32_def load_le64_def mem_read_take
          span_at_def)
qed

lemma load_header_append: "24 \<le> length f \<Longrightarrow> load_header (f @ rest) = load_header f"
  using load_header_take [of "length f" "f @ rest"] by simp

lemma load_header_magic: "load_header f = Some h \<Longrightarrow> f \<noteq> [] \<and> bh_magic h = hd f"
  by (cases f) (auto simp: load_header_def split: bind_splits)

lemma well_framedE:
  assumes "well_framed f"
  obtains h where "load_header f = Some h" and "length f = 24 + body_size h"
    and "prefix_size h \<le> body_size h" and "is_valid_magic (hd f)" and "f \<noteq> []"
  using assms load_header_magic by (auto simp: well_framed_def split: option.splits)

lemma next_message_frame:
  assumes "well_framed f" and "rest = [] \<or> (\<exists>g. well_framed g \<and> hd rest = hd g)"
  shows "next_message uncompress (f @ rest) = Some (Some (message_of uncompress f, rest))"
proof -
  obtain h where h: "load_header f = Some h" "length f = 24 + body_size h"
      "prefix_size h \<le> body_size h"
    using assms(1) by (rule well_framedE)
  have magic: "rest = [] \<or> is_valid_magic (hd rest)"
    using assms(2) by (auto elim: well_framedE)
  have "load_header (f @ rest) = Some h" using h load_header_append by simp
  moreover have "drop (24 + prefix_size h) (f @ rest) = drop (24 + prefix_size h) f @ rest"
    "take (body_size h - prefix_size h) (drop (24 + prefix_size h) f @ rest)
      = drop (24 + prefix_size h) f"
    "take (prefix_size h) (drop 24 (f @ rest)) = take (prefix_size h) (drop 24 f)"
    using h by simp_all
  ultimately show ?thesis
    using h magic
    by (auto simp: next_message_def mcbp_next_def message_of_def mem_read_def Let_def
          body_size_def [symmetric] split: prod.splits)
qed

lemma next_message_short:
  assumes "well_framed f" and "strict_prefix p f"
  shows "next_message uncompress p = Some None"
proof -
  obtain h where h: "load_header f = Some h" "length f = 24 + body_size h"
    using assms(1) by (rule well_framedE)
  have p: "length p < length f" "p = take (length p) f"
    using assms(2) prefix_length_less by (auto simp: strict_prefix_def prefix_def)
  show ?thesis
  proof (cases "length p < 24")
    case False
    then have "load_header p = Some h"
      using load_header_take [of "length p" f] h p by simp
    moreover have "0 < body_size h \<and> length p - 24 < body_size h"
      using False h p(1) by linarith
    ultimately show ?thesis
      using False by (simp add: next_message_def mcbp_next_def Let_def body_size_def [symmetric])
  qed (simp add: next_message_def mcbp_next_def)
qed

interpretation mcbp: stream_parser "next_message uncompress" well_framed "message_of uncompress"
proof
  show "next_message uncompress [] = Some None" by (simp add: next_message_def mcbp_next_def)
qed (erule well_framedE, assumption, erule (1) next_message_frame, erule (1) next_message_short)

subsection \<open>The stream does not depend on its chunks\<close>

lemma mcbp_next_keeps:
  "mcbp_next uncompress msg buf = Some (parse_need_data, msg', buf') \<Longrightarrow> buf' = buf"
  by (auto simp: mcbp_next_def Let_def split: if_splits bind_splits prod.splits)

lemma read_loop_take_msgs:
  "mcbp.take_msgs uncompress n buf = Some (msgs, rest) \<Longrightarrow>
     read_loop uncompress buf = Some (msgs, True, rest)"
proof (induction n arbitrary: buf msgs)
  case (Suc n)
  obtain res msg buf' where nxt: "mcbp_next uncompress blank_message buf = Some (res, msg, buf')"
    using mcbp_next_safe [of uncompress blank_message buf] by (metis not_Some_eq surj_pair)
  show ?case
  proof (cases res)
    case parse_ok
    then have "next_message uncompress buf = Some (Some (msg, buf'))"
      using nxt by (simp add: next_message_def)
    then obtain ms where "mcbp.take_msgs uncompress n buf' = Some (ms, rest)" "msgs = msg # ms"
      using Suc.prems by auto
    then show ?thesis
      using Suc.IH nxt parse_ok by (subst read_loop.simps) simp
  next
    case parse_need_data
    then have "next_message uncompress buf = Some None" "buf' = buf"
      using nxt mcbp_next_keeps by (auto simp: next_message_def)
    then show ?thesis
      using Suc.prems nxt parse_need_data by (subst read_loop.simps) simp
  next
    case parse_failure
    then have "next_message uncompress buf = None" using nxt by (simp add: next_message_def)
    then show ?thesis using Suc.prems by simp
  qed
qed simp

lemma read_chunks_feed:
  "mcbp.feed_chunks uncompress cs buf = Some (msgs, rest) \<Longrightarrow>
     read_chunks uncompress cs buf = Some (msgs, True, rest)"
proof (induction cs arbitrary: buf msgs)
  case (Cons c cs)
  from Cons.prems obtain ms b ms' where
    "mcbp.take_msgs uncompress (Suc (length (buf @ c))) (buf @ c) = Some (ms, b)"
    "mcbp.feed_chunks uncompress cs b = Some (ms', rest)" "msgs = ms @ ms'"
    by (auto simp del: mcbp.take_msgs.simps split: bind_splits)
  with Cons.IH show ?case
    by (simp add: mcbp_feed_def read_loop_take_msgs del: mcbp.take_msgs.simps)
qed simp

text \<open>
  C10: the messages a session hands to its handler do not depend on how the network cut the
  stream: for every sequence of well-formed frames and every way to split their bytes into reads,
  the read loop delivers exactly the messages of the frames, in order, keeps reading and leaves no
  byte behind.
\<close>

theorem read_chunks_independent:
  assumes "list_all well_framed fs" and "concat chunks = concat fs"
  shows "read_chunks uncompress chunks [] = Some (map (message_of uncompress) fs, True, [])"
  using assms
  by (intro read_chunks_feed mcbp.feed_chunks_frames) (simp_all add: mcbp.next_empty)

definition sample_frame :: bytes where
  "sample_frame = [0x81, 0x00, 0, 1, 1, 0, 0, 0, 0, 0, 0, 3, 0, 0, 0, 9, 0, 0, 0, 0, 0, 0, 0, 5,
     0xaa, 0xbb, 0xcc]"

lemma sample_frame_ok: "well_framed sample_frame"
  by code_simp

theorem read_chunks_independent_witness:
  "read_chunks (\<lambda>_. None) [take 10 sample_frame, drop 10 sample_frame @ take 1 sample_frame,
       drop 1 sample_frame] []
     = Some ([message_of (\<lambda>_. None) sample_frame, message_of (\<lambda>_. None) sample_frame], True, [])"
  using read_chunks_independent [of "[sample_frame, sample_frame]"
      "[take 10 sample_frame, drop 10 sample_frame @ take 1 sample_frame, drop 1 sample_frame]"
      "\<lambda>_. None"] sample_frame_ok
  by simp

end
