(* ===== verification/Crc32.thy ===== *)
theory Crc32
  imports Prelude
begin

text \<open>
  The key hash of \<^verbatim>\<open>core/utils/crc32.hxx\<close>: the table-driven CRC-32, folded to the 15 bits that
  choose a partition. The reference is the bit-serial CRC with the reversed polynomial
  \<open>0xedb88320\<close>.
\<close>

definition crc32tab :: "u32 list" where
  "crc32tab =
   [0x00000000, 0x77073096, 0xee0e612c, 0x990951ba, 0x076dc419, 0x706af48f, 0xe963a535, 0x9e6495a3,
    0x0edb8832, 0x79dcb8a4, 0xe0d5e91e, 0x97d2d988, 0x09b64c2b, 0x7eb17cbd, 0xe7b82d07, 0x90bf1d91,
    0x1db71064, 0x6ab020f2, 0xf3b97148, 0x84be41de, 0x1adad47d, 0x6ddde4eb, 0xf4d4b551, 0x83d385c7,
    0x136c9856, 0x646ba8c0, 0xfd62f97a, 0x8a65c9ec, 0x14015c4f, 0x63066cd9, 0xfa0f3d63, 0x8d080df5,
    0x3b6e20c8, 0x4c69105e, 0xd56041e4, 0xa2677172, 0x3c03e4d1, 0x4b04d447, 0xd20d85fd, 0xa50ab56b,
    0x35b5a8fa, 0x42b2986c, 0xdbbbc9d6, 0xacbcf940, 0x32d86ce3, 0x45df5c75, 0xdcd60dcf, 0xabd13d59,
    0x26d930ac, 0x51de003a, 0xc8d75180, 0xbfd06116, 0x21b4f4b5, 0x56b3c423, 0xcfba9599, 0xb8bda50f,
    0x2802b89e, 0x5f058808, 0xc60cd9b2, 0xb10be924, 0x2f6f7c87, 0x58684c11, 0xc1611dab, 0xb6662d3d,
    0x76dc4190, 0x01db7106, 0x98d220bc, 0xefd5102a, 0x71b18589, 0x06b6b51f, 0x9fbfe4a5, 0xe8b8d433,
    0x7807c9a2, 0x0f00f934, 0x9609a88e, 0xe10e9818, 0x7f6a0dbb, 0x086d3d2d, 0x91646c97, 0xe6635c01,
    0x6b6b51f4, 0x1c6c6162, 0x856530d8, 0xf262004e, 0x6c0695ed, 0x1b01a57b, 0x8208f4c1, 0xf50fc457,
    0x65b0d9c6, 0x12b7e950, 0x8bbeb8ea, 0xfcb9887c, 0x62dd1ddf, 0x15da2d49, 0x8cd37cf3, 0xfbd44c65,
    0x4db26158, 0x3ab551ce, 0xa3bc0074, 0xd4bb30e2, 0x4adfa541, 0x3dd895d7, 0xa4d1c46d, 0xd3d6f4fb,
    0x4369e96a, 0x346ed9fc, 0xad678846, 0xda60b8d0, 0x44042d73, 0x33031de5, 0xaa0a4c5f, 0xdd0d7cc9,
    0x5005713c, 0x270241aa, 0xbe0b1010, 0xc90c2086, 0x5768b525, 0x206f85b3, 0xb966d409, 0xce61e49f,
    0x5edef90e, 0x29d9c998, 0xb0d09822, 0xc7d7a8b4, 0x59b33d17, 0x2eb40d81, 0xb7bd5c3b, 0xc0ba6cad,
    0xedb88320, 0x9abfb3b6, 0x03b6e20c, 0x74b1d29a, 0xead54739, 0x9dd277af, 0x04db2615, 0x73dc1683,
    0xe3630b12, 0x94643b84, 0x0d6d6a3e, 0x7a6a5aa8, 0xe40ecf0b, 0x9309ff9d, 0x0a00ae27, 0x7d079eb1,
    0xf00f9344, 0x8708a3d2, 0x1e01f268, 0x6906c2fe, 0xf762575d, 0x806567cb, 0x196c3671, 0x6e6b06e7,
    0xfed41b76, 0x89d32be0, 0x10da7a5a, 0x67dd4acc, 0xf9b9df6f, 0x8ebeeff9, 0x17b7be43, 0x60b08ed5,
    0xd6d6a3e8, 0xa1d1937e, 0x38d8c2c4, 0x4fdff252, 0xd1bb67f1, 0xa6bc5767, 0x3fb506dd, 0x48b2364b,
    0xd80d2bda, 0xaf0a1b4c, 0x36034af6, 0x41047a60, 0xdf60efc3, 0xa867df55, 0x316e8eef, 0x4669be79,
    0xcb61b38c, 0xbc66831a, 0x256fd2a0, 0x5268e236, 0xcc0c7795, 0xbb0b4703, 0x220216b9, 0x5505262f,
    0xc5ba3bbe, 0xb2bd0b28, 0x2bb45a92, 0x5cb36a04, 0xc2d7ffa7, 0xb5d0cf31, 0x2cd99e8b, 0x5bdeae1d,
    0x9b64c2b0, 0xec63f226, 0x756aa39c, 0x026d930a, 0x9c0906a9, 0xeb0e363f, 0x72076785, 0x05005713,
    0x95bf4a82, 0xe2b87a14, 0x7bb12bae, 0x0cb61b38, 0x92d28e9b, 0xe5d5be0d, 0x7cdcefb7, 0x0bdbdf21,
    0x86d3d2d4, 0xf1d4e242, 0x68ddb3f8, 0x1fda836e, 0x81be16cd, 0xf6b9265b, 0x6fb077e1, 0x18b74777,
    0x88085ae6, 0xff0f6a70, 0x66063bca, 0x11010b5c, 0x8f659eff, 0xf862ae69, 0x616bffd3, 0x166ccf45,
    0xa00ae278, 0xd70dd2ee, 0x4e048354, 0x3903b3c2, 0xa7672661, 0xd06016f7, 0x4969474d, 0x3e6e77db,
    0xaed16a4a, 0xd9d65adc, 0x40df0b66, 0x37d83bf0, 0xa9bcae53, 0xdebb9ec5, 0x47b2cf7f, 0x30b5ffe9,
    0xbdbdf21c, 0xcabac28a, 0x53b39330, 0x24b4a3a6, 0xbad03605, 0xcdd70693, 0x54de5729, 0x23d967bf,
    0xb3667a2e, 0xc4614ab8, 0x5d681b02, 0x2a6f2b94, 0xb40bbe37, 0xc30c8ea1, 0x5a05df1b, 0x2d02ef8d]"

text \<open>
  One round of the loop: the \<^verbatim>\<open>char\<close> is sign-extended to 64 bits before the exclusive or and
  only the low byte selects the entry.
\<close>

definition crc32_round :: "u32 \<Rightarrow> byte \<Rightarrow> u32" where
  "crc32_round crc c = drop_bit 8 crc XOR crc32tab ! unat ((ucast crc XOR scast c :: u64) AND 0xff)"

definition hash_crc32 :: "bytes \<Rightarrow> u32" where
  "hash_crc32 key = drop_bit 16 (NOT (foldl crc32_round (NOT 0) key)) AND 0x7fff"

subsection \<open>The bit-serial reference\<close>

definition crc_shift :: "u32 \<Rightarrow> u32" where
  "crc_shift r = drop_bit 1 r XOR (if bit r 0 then 0xedb88320 else 0)"

definition crc_shift8 :: "u32 \<Rightarrow> u32" where
  "crc_shift8 r = (crc_shift ^^ 8) r"

definition crc_byte :: "u32 \<Rightarrow> byte \<Rightarrow> u32" where
  "crc_byte r b = crc_shift8 (r XOR ucast b)"

definition crc32_ref :: "bytes \<Rightarrow> u32" where
  "crc32_ref bs = NOT (foldl crc_byte (NOT 0) bs)"

lemma crc_shift_xor: "crc_shift (x XOR y) = crc_shift x XOR crc_shift y"
  by (simp add: crc_shift_def bit_xor_iff drop_bit_xor ac_simps)

lemma crc_shifts_xor: "(crc_shift ^^ n) (x XOR y) = (crc_shift ^^ n) x XOR (crc_shift ^^ n) y"
  by (induction n) (simp_all add: crc_shift_xor)

lemma crc_shifts_zeros: "take_bit n r = 0 \<Longrightarrow> (crc_shift ^^ n) r = drop_bit n r"
proof (induction n arbitrary: r)
  case (Suc n)
  have low: "\<not> bit r k" if "k < Suc n" for k
    using Suc.prems that by (metis bit_0_eq bit_take_bit_iff bot_apply bot_bool_def)
  then have "crc_shift r = drop_bit 1 r" by (simp add: crc_shift_def)
  moreover have "take_bit n (drop_bit 1 r) = 0"
    by (rule bit_word_eqI) (use low in \<open>auto simp: bit_simps\<close>)
  ultimately show ?case
    using Suc.IH [of "drop_bit 1 r"] by (simp add: funpow_swap1 drop_bit_drop_bit)
qed simp

text \<open>Eight shifts split into the high part, which only moves, and the low byte.\<close>

lemma low_byte_mask: "(0xff :: u32) = mask 8"
  by (simp add: mask_eq_exp_minus_1)

lemma crc_shifts_byte: "crc_shift8 x = drop_bit 8 x XOR crc_shift8 (x AND 0xff)"
proof -
  have "x = (x AND NOT 0xff) XOR (x AND 0xff)"
    by (rule bit_word_eqI) (auto simp: bit_simps)
  moreover have "take_bit 8 (x AND NOT 0xff) = 0"
    unfolding low_byte_mask by (rule bit_word_eqI) (auto simp: bit_simps)
  moreover have "drop_bit 8 (x AND NOT 0xff) = drop_bit 8 x"
    unfolding low_byte_mask
    by (rule bit_word_eqI) (auto simp: bit_simps dest: bit_imp_le_length)
  ultimately show ?thesis
    unfolding crc_shift8_def by (metis crc_shifts_xor crc_shifts_zeros)
qed

text \<open>The table grows by doubling, because the shifts are linear.\<close>

primrec doubled :: "nat \<Rightarrow> u32 list" where
  "doubled 0 = [0]"
| "doubled (Suc k) = doubled k @ map (\<lambda>x. crc_shift8 (2 ^ k) XOR x) (doubled k)"

lemma of_nat_exp_plus: "i < 2 ^ k \<Longrightarrow> of_nat (2 ^ k + i) = 2 ^ k XOR (of_nat i :: u32)"
proof -
  assume i: "i < 2 ^ k"
  then have "\<not> bit i k" by (simp add: bit_iff_odd)
  then have d: "\<not> (bit (2 ^ k :: u32) n \<and> bit (of_nat i :: u32) n)" for n
    by (auto simp: bit_exp_iff bit_of_nat_iff)
  then have "(2 ^ k AND of_nat i :: u32) = 0"
    by (intro bit_word_eqI) (simp add: bit_and_iff)
  then have "2 ^ k + of_nat i = (2 ^ k OR of_nat i :: u32)"
    by (rule disjunctive_add_eq_or)
  also have "\<dots> = 2 ^ k XOR of_nat i"
    by (rule bit_word_eqI) (use d in \<open>auto simp: bit_or_iff bit_xor_iff\<close>)
  finally show ?thesis by simp
qed

lemma doubled_eq: "k \<le> 8 \<Longrightarrow> doubled k = map (\<lambda>i. crc_shift8 (of_nat i)) [0..<2 ^ k]"
proof (induction k)
  case 0
  have "crc_shift8 0 = 0" unfolding crc_shift8_def using crc_shifts_zeros [of 8 0] by simp
  then show ?case by simp
next
  case (Suc k)
  have "[0..<2 ^ Suc k] = [0..<2 ^ k] @ map (\<lambda>i. 2 ^ k + i) [0..<2 ^ k]"
    using upt_add_eq_append [of 0 "2 ^ k" "2 ^ k"] by (simp add: map_add_upt mult_2 add.commute)
  moreover have "crc_shift8 (of_nat (2 ^ k + i)) = crc_shift8 (2 ^ k) XOR crc_shift8 (of_nat i)"
    if "i < 2 ^ k" for i
    using that Suc.prems unfolding crc_shift8_def by (simp only: of_nat_exp_plus crc_shifts_xor)
  ultimately show ?case using Suc by simp
qed

lemma crc_shift_powers:
  "crc_shift8 1 = 0x77073096" "crc_shift8 2 = 0xee0e612c"
  "crc_shift8 4 = 0x076dc419" "crc_shift8 8 = 0x0edb8832"
  "crc_shift8 16 = 0x1db71064" "crc_shift8 32 = 0x3b6e20c8"
  "crc_shift8 64 = 0x76dc4190" "crc_shift8 128 = 0xedb88320"
  by code_simp+

lemma crc32tab_doubled: "crc32tab = doubled 8"
proof -
  have "(8 :: nat) = Suc (Suc (Suc (Suc (Suc (Suc (Suc (Suc 0)))))))" by simp
  then show ?thesis by (simp only:) (simp add: crc32tab_def crc_shift_powers)
qed

lemma crc32tab_correct: "i < 256 \<Longrightarrow> crc32tab ! i = crc_shift8 (of_nat i)"
  unfolding crc32tab_doubled doubled_eq [OF order_refl] by (subst nth_map_upt) simp_all

lemma crc_shift8_unfold:
  "crc_shift8 r =
     crc_shift (crc_shift (crc_shift (crc_shift (crc_shift (crc_shift (crc_shift (crc_shift r)))))))"
  by (simp add: crc_shift8_def numeral_eq_Suc)

lemma low_byte_index:
  "unat ((ucast crc XOR scast c :: u64) AND 0xff) = unat ((crc XOR ucast (c :: byte)) AND 0xff :: u32)"
proof -
  have m: "(0xff :: u64) = mask 8" by (simp add: mask_eq_exp_minus_1)
  have "(ucast crc XOR scast c :: u64) AND 0xff = ucast ((crc XOR ucast c) AND 0xff :: u32)"
    unfolding m low_byte_mask by (rule bit_word_eqI) (auto simp: bit_simps)
  moreover have "unat (ucast w :: u64) = unat w" for w :: u32
    by (simp add: unsigned_ucast_eq take_bit_nat_eq_self less_trans [OF unat_u32_less])
  ultimately show ?thesis by simp
qed

lemma crc32_round_eq: "crc32_round crc c = crc_byte crc c"
proof -
  let ?x = "crc XOR ucast c"
  have "unat (take_bit 8 ?x) < 2 ^ 8" by (simp only: unsigned_take_bit_eq take_bit_nat_less_exp)
  then have "unat (?x AND 0xff) < 256" by (simp only: low_byte_mask take_bit_eq_mask) simp
  then have "crc32tab ! unat (?x AND 0xff) = crc_shift8 (?x AND 0xff)"
    by (simp add: crc32tab_correct)
  moreover have "drop_bit 8 ?x = drop_bit 8 crc"
    by (rule bit_word_eqI) (auto simp: bit_simps dest: byte_bit_bound)
  ultimately show ?thesis
    using crc_shifts_byte [of ?x] by (simp add: crc32_round_def crc_byte_def low_byte_index)
qed

lemma crc32_rounds_eq: "crc32_round = crc_byte"
  by (intro ext) (rule crc32_round_eq)

text \<open>
  C29: the table-driven hash is the standard CRC-32 of the key, of which it keeps the bits 16 to
  30.
\<close>

theorem hash_crc32_eq: "hash_crc32 key = drop_bit 16 (crc32_ref key) AND 0x7fff"
  by (simp add: hash_crc32_def crc32_ref_def crc32_rounds_eq)

lemma hash_crc32_less: "unat (hash_crc32 key) < 32768"
proof -
  have "(0x7fff :: u32) = mask 15" by (simp add: mask_eq_exp_minus_1)
  then have "hash_crc32 key = take_bit 15 (drop_bit 16 (NOT (foldl crc32_round (NOT 0) key)))"
    by (simp add: hash_crc32_def take_bit_eq_mask)
  then show ?thesis by (simp add: unsigned_take_bit_eq take_bit_nat_def)
qed

text \<open>Rewriting the hash of a concrete key.\<close>

lemmas hash_crc32_compute = hash_crc32_def crc32_rounds_eq crc_byte_def crc_shift8_unfold crc_shift_def

end
