(* ===== verification/Std_String.thy ===== *)
theory Std_String
  imports Prelude
begin

text \<open>
  Conversions of the C++ standard library between integers and decimal strings, as the sources use
  them: \<^verbatim>\<open>std::to_string\<close> and \<^verbatim>\<open>fmt::format("{}")\<close> of an integer, \<^verbatim>\<open>std::stoul\<close>,
  \<^verbatim>\<open>std::stol\<close> and \<^verbatim>\<open>std::stoi\<close> in base 10.
\<close>

subsection \<open>Printing\<close>

definition digit_char :: "nat \<Rightarrow> char" where
  "digit_char d = char_of (48 + d)"

fun dec_digits :: "nat \<Rightarrow> string" where
  "dec_digits n =
     (if n < 10 then [digit_char n] else dec_digits (n div 10) @ [digit_char (n mod 10)])"

declare dec_digits.simps [simp del]

definition dec_int :: "int \<Rightarrow> string" where
  "dec_int i = (if i < 0 then CHR ''-'' # dec_digits (nat (- i)) else dec_digits (nat i))"

subsection \<open>Reading\<close>

datatype stox_error = stox_invalid_argument | stox_out_of_range

definition digit_value :: "char \<Rightarrow> nat" where
  "digit_value c = uchar c - 48"

definition digits_value :: "string \<Rightarrow> nat" where
  "digits_value s = foldl (\<lambda>v c. 10 * v + digit_value c) 0 s"

text \<open>
  The longest prefix that \<^verbatim>\<open>strtoul\<close> and \<^verbatim>\<open>strtol\<close> accept: spaces, a sign, digits; the sign and
  the magnitude, or nothing when there is no digit.
\<close>

fun split_sign :: "string \<Rightarrow> bool \<times> string" where
  "split_sign (c # s) =
     (if c = CHR ''-'' then (True, s) else if c = CHR ''+'' then (False, s) else (False, c # s))"
| "split_sign [] = (False, [])"

definition strto_prefix :: "string \<Rightarrow> (bool \<times> nat) option" where
  "strto_prefix s =
     (let (neg, rest) = split_sign (dropWhile char_space s); ds = takeWhile char_digit rest
      in if ds = [] then None else Some (neg, digits_value ds))"

definition stoul :: "string \<Rightarrow> stox_error + u64" where
  "stoul s =
     (case strto_prefix s of
        None \<Rightarrow> Inl stox_invalid_argument
      | Some (neg, v) \<Rightarrow>
          if 2 ^ 64 \<le> v then Inl stox_out_of_range
          else Inr (if neg then - of_nat v else of_nat v))"

definition stol :: "string \<Rightarrow> stox_error + int" where
  "stol s =
     (case strto_prefix s of
        None \<Rightarrow> Inl stox_invalid_argument
      | Some (neg, v) \<Rightarrow>
          let i = if neg then - int v else int v in
          if i < - (2 ^ 63) \<or> 2 ^ 63 \<le> i then Inl stox_out_of_range else Inr i)"

definition stoi :: "string \<Rightarrow> stox_error + int" where
  "stoi s =
     (case stol s of
        Inl e \<Rightarrow> Inl e
      | Inr i \<Rightarrow> if i < - (2 ^ 31) \<or> 2 ^ 31 \<le> i then Inl stox_out_of_range else Inr i)"

subsection \<open>Reading what was printed\<close>

lemma uchar_digit_char [simp]: "d < 10 \<Longrightarrow> uchar (digit_char d) = 48 + d"
  by (simp add: digit_char_def)

lemma digit_char_class [simp]:
  "d < 10 \<Longrightarrow> char_digit (digit_char d)" "d < 10 \<Longrightarrow> \<not> char_space (digit_char d)"
  "d < 10 \<Longrightarrow> digit_value (digit_char d) = d"
  by (simp_all add: char_digit_def char_space_def digit_value_def)

lemma digit_char_sign [simp]:
  "d < 10 \<Longrightarrow> digit_char d \<noteq> CHR ''-''" "d < 10 \<Longrightarrow> digit_char d \<noteq> CHR ''+''"
  by (auto simp: digit_char_def uchar_def dest!: arg_cong [of _ _ uchar])

lemma digits_value_snoc [simp]: "digits_value (s @ [c]) = 10 * digits_value s + digit_value c"
  by (simp add: digits_value_def)

lemma digits_value_Nil [simp]: "digits_value [] = 0"
  by (simp add: digits_value_def)

lemma digits_value_dec [simp]: "digits_value (dec_digits n) = n"
proof (induction n rule: dec_digits.induct)
  case (1 n)
  then show ?case
    using digits_value_snoc [of "[]" "digit_char n"] by (subst dec_digits.simps) simp
qed

lemma dec_digits_digits: "c \<in> set (dec_digits n) \<Longrightarrow> char_digit c"
proof (induction n rule: dec_digits.induct)
  case (1 n)
  then show ?case by (subst (asm) dec_digits.simps) (auto split: if_splits)
qed

lemma dec_digits_nonempty [simp]: "dec_digits n \<noteq> []"
  by (subst dec_digits.simps) simp

lemma dec_digits_inject [simp]: "dec_digits m = dec_digits n \<longleftrightarrow> m = n"
  by (metis digits_value_dec)

lemma takeWhile_dec_digits [simp]: "takeWhile char_digit (dec_digits n) = dec_digits n"
  using dec_digits_digits by (simp add: takeWhile_eq_all_conv)

lemma strto_prefix_dec [simp]: "strto_prefix (dec_digits n) = Some (False, n)"
proof -
  obtain c s where cs: "dec_digits n = c # s" using dec_digits_nonempty [of n] by (cases "dec_digits n") simp_all
  then have "char_digit c" using dec_digits_digits [of c n] by simp
  then have "\<not> char_space c" "c \<noteq> CHR ''-''" "c \<noteq> CHR ''+''"
    by (auto simp: char_digit_def char_space_def uchar_def)
  then have "split_sign (dropWhile char_space (dec_digits n)) = (False, dec_digits n)"
    by (simp add: cs)
  then show ?thesis by (simp add: strto_prefix_def)
qed

lemma stoul_dec: "n < 2 ^ 64 \<Longrightarrow> stoul (dec_digits n) = Inr (of_nat n)"
  by (simp add: stoul_def)

lemma stol_dec: "n < 2 ^ 63 \<Longrightarrow> stol (dec_digits n) = Inr (int n)"
  by (simp add: stol_def Let_def)

end
