(* ===== verification/Topology.thy ===== *)
theory Topology
  imports Crc32 Std_String "HOL-Library.Char_ord" "HOL-Library.List_Lexorder"
begin

text \<open>
  Cluster topology: the configuration of \<^verbatim>\<open>core/topology/configuration.cxx\<close>, the capabilities of
  \<^verbatim>\<open>core/topology/capabilities.hxx\<close> and the node identity of \<^verbatim>\<open>core/impl/node_id.cxx\<close>. A
  \<^verbatim>\<open>std::map\<close> that is only searched is a map; \<^verbatim>\<open>std::set\<close> of an enumeration is a set. Random
  identifiers are arguments.
\<close>

subsection \<open>Data\<close>

datatype service_type =
  svc_key_value | svc_query | svc_analytics | svc_search | svc_view | svc_management | svc_eventing

datatype transport = transport_plain | transport_tls

datatype node_locator_type = locator_unknown | locator_vbucket | locator_ketama

record port_map =
  pm_key_value :: "u16 option"
  pm_management :: "u16 option"
  pm_analytics :: "u16 option"
  pm_search :: "u16 option"
  pm_views :: "u16 option"
  pm_query :: "u16 option"
  pm_eventing :: "u16 option"

definition empty_port_map :: port_map where
  "empty_port_map = \<lparr>pm_key_value = None, pm_management = None, pm_analytics = None,
     pm_search = None, pm_views = None, pm_query = None, pm_eventing = None\<rparr>"

record alternate_address =
  aa_name :: string
  aa_hostname :: string
  aa_services_plain :: port_map
  aa_services_tls :: port_map

record node =
  n_this_node :: bool
  n_index :: nat
  n_hostname :: string
  n_services_plain :: port_map
  n_services_tls :: port_map
  n_alt :: "string \<rightharpoonup> alternate_address"
  n_server_group :: string
  n_app_telemetry_path :: "string option"
  n_node_uuid :: string

definition default_node :: node where
  "default_node = \<lparr>n_this_node = False, n_index = 0, n_hostname = [],
     n_services_plain = empty_port_map, n_services_tls = empty_port_map, n_alt = Map.empty,
     n_server_group = [], n_app_telemetry_path = None, n_node_uuid = []\<rparr>"

datatype bucket_capability =
  bcap_couchapi | bcap_xattr | bcap_dcp | bcap_cbhello | bcap_touch | bcap_cccp
  | bcap_xdcr_checkpointing | bcap_nodes_ext | bcap_collections | bcap_durable_write
  | bcap_tombstoned_user_xattrs | bcap_range_scan | bcap_non_deduped_history
  | bcap_subdoc_replace_body_with_xattr | bcap_subdoc_document_macro_support
  | bcap_subdoc_revive_document | bcap_dcp_ignore_purged_tombstones | bcap_preserve_expiry
  | bcap_query_system_collection | bcap_mobile_system_collection | bcap_subdoc_replica_read
  | bcap_subdoc_access_deleted

datatype cluster_capability =
  ccap_n1ql_cost_based_optimizer | ccap_n1ql_index_advisor | ccap_n1ql_javascript_functions
  | ccap_n1ql_inline_functions | ccap_n1ql_enhanced_prepared_statements
  | ccap_n1ql_read_from_replica | ccap_search_vector_search | ccap_search_scoped_search_index

record configuration_capabilities =
  cap_bucket :: "bucket_capability set"
  cap_cluster :: "cluster_capability set"
  cap_prod :: "string option"

type_synonym vbucket_map = "16 word list list"

record configuration =
  cfg_epoch :: "int option"
  cfg_rev :: "int option"
  cfg_id :: bytes
  cfg_num_replicas :: "u32 option"
  cfg_nodes :: "node list"
  cfg_uuid :: "string option"
  cfg_bucket :: "string option"
  cfg_vbmap :: "vbucket_map option"
  cfg_collections_manifest_uid :: "u64 option"
  cfg_capabilities :: configuration_capabilities
  cfg_node_locator :: node_locator_type
  cfg_cluster_name :: "string option"
  cfg_cluster_uuid :: "string option"
  cfg_prod :: "string option"
  cfg_force :: bool

definition default_configuration :: configuration where
  "default_configuration = \<lparr>cfg_epoch = None, cfg_rev = None, cfg_id = [], cfg_num_replicas = None,
     cfg_nodes = [], cfg_uuid = None, cfg_bucket = None, cfg_vbmap = None,
     cfg_collections_manifest_uid = None,
     cfg_capabilities = \<lparr>cap_bucket = {}, cap_cluster = {}, cap_prod = None\<rparr>,
     cfg_node_locator = locator_unknown, cfg_cluster_name = None, cfg_cluster_uuid = None,
     cfg_prod = None, cfg_force = False\<rparr>"

subsection \<open>Capabilities\<close>

definition has_cluster_capability :: "configuration_capabilities \<Rightarrow> cluster_capability \<Rightarrow> bool" where
  "has_cluster_capability c cap \<longleftrightarrow> cap \<in> cap_cluster c"

definition has_bucket_capability :: "configuration_capabilities \<Rightarrow> bucket_capability \<Rightarrow> bool" where
  "has_bucket_capability c cap \<longleftrightarrow> cap \<in> cap_bucket c"

definition ephemeral :: "configuration_capabilities \<Rightarrow> bool" where
  "ephemeral c = has_bucket_capability c bcap_couchapi"

definition is_analytics_cluster :: "bool \<Rightarrow> configuration_capabilities \<Rightarrow> bool" where
  "is_analytics_cluster allow_enterprise_analytics c =
     (if allow_enterprise_analytics then False
      else case cap_prod c of
             None \<Rightarrow> False
           | Some p \<Rightarrow> if p \<noteq> ''analytics'' then False else True)"

subsection \<open>Addresses of a node\<close>

definition value_or :: "'a option \<Rightarrow> 'a \<Rightarrow> 'a" where
  "value_or v default_value = (case v of None \<Rightarrow> default_value | Some x \<Rightarrow> x)"

fun service_port :: "port_map \<Rightarrow> service_type \<Rightarrow> u16 \<Rightarrow> u16" where
  "service_port pm svc_query default_value = value_or (pm_query pm) default_value"
| "service_port pm svc_analytics default_value = value_or (pm_analytics pm) default_value"
| "service_port pm svc_search default_value = value_or (pm_search pm) default_value"
| "service_port pm svc_view default_value = value_or (pm_views pm) default_value"
| "service_port pm svc_management default_value = value_or (pm_management pm) default_value"
| "service_port pm svc_key_value default_value = value_or (pm_key_value pm) default_value"
| "service_port pm svc_eventing default_value = value_or (pm_eventing pm) default_value"

definition port_or :: "node \<Rightarrow> service_type \<Rightarrow> bool \<Rightarrow> u16 \<Rightarrow> u16" where
  "port_or n type is_tls default_value =
     (if is_tls then service_port (n_services_tls n) type default_value
      else service_port (n_services_plain n) type default_value)"

definition hostname_for :: "node \<Rightarrow> string \<Rightarrow> string" where
  "hostname_for n network =
     (if network = ''default'' then n_hostname n
      else case n_alt n network of
             None \<Rightarrow> n_hostname n
           | Some address \<Rightarrow> aa_hostname address)"

definition port_or_network :: "node \<Rightarrow> string \<Rightarrow> service_type \<Rightarrow> bool \<Rightarrow> u16 \<Rightarrow> u16" where
  "port_or_network n network type is_tls default_value =
     (if network = ''default'' then port_or n type is_tls default_value
      else case n_alt n network of
             None \<Rightarrow> port_or n type is_tls default_value
           | Some address \<Rightarrow>
               if is_tls then service_port (aa_services_tls address) type default_value
               else service_port (aa_services_plain address) type default_value)"

definition endpoint :: "node \<Rightarrow> string \<Rightarrow> service_type \<Rightarrow> bool \<Rightarrow> string option" where
  "endpoint n network type is_tls =
     (let p = port_or n type is_tls 0 in
      if p = 0 then None else Some (hostname_for n network @ '':'' @ dec_digits (unat p)))"

text \<open>The comparison of nodes that decides whether the order of the nodes changed.\<close>

definition node_differs :: "node \<Rightarrow> node \<Rightarrow> bool" where
  "node_differs a b \<longleftrightarrow>
     n_hostname a \<noteq> n_hostname b \<or>
     pm_key_value (n_services_plain a) \<noteq> pm_key_value (n_services_plain b) \<or>
     pm_key_value (n_services_tls a) \<noteq> pm_key_value (n_services_tls b)"

subsection \<open>Identity of a node\<close>

record node_id =
  nid_node_uuid :: string
  nid_hostname :: string
  nid_port :: u16
  nid_id :: string

definition default_node_id :: node_id where
  "default_node_id = \<lparr>nid_node_uuid = [], nid_hostname = [], nid_port = 0, nid_id = []\<rparr>"

definition hex_digits :: string where
  "hex_digits = ''0123456789abcdef''"

definition chars_bytes :: "string \<Rightarrow> bytes" where
  "chars_bytes s = map (\<lambda>c. of_nat (uchar c)) s"

definition derive_fallback_id :: "string \<Rightarrow> u16 \<Rightarrow> string" where
  "derive_fallback_id hostname port =
     (let crc = hash_crc32 (chars_bytes (hostname @ '':'' @ dec_digits (unat port)))
      in map (\<lambda>shift. hex_digits ! unat (drop_bit shift crc AND 0xf)) [28, 24, 20, 16, 12, 8, 4, 0])"

definition new_node_id :: "string \<Rightarrow> string \<Rightarrow> u16 \<Rightarrow> node_id" where
  "new_node_id node_uuid hostname port =
     \<lparr>nid_node_uuid = node_uuid, nid_hostname = hostname, nid_port = port,
      nid_id = (if node_uuid = [] then derive_fallback_id hostname port else node_uuid)\<rparr>"

definition node_id_valid :: "node_id \<Rightarrow> bool" where
  "node_id_valid i \<longleftrightarrow> nid_id i \<noteq> []"

definition node_id_equal :: "node_id \<Rightarrow> node_id \<Rightarrow> bool" where
  "node_id_equal a b \<longleftrightarrow> nid_id a = nid_id b"

definition node_id_less :: "node_id \<Rightarrow> node_id \<Rightarrow> bool" where
  "node_id_less a b \<longleftrightarrow> nid_id a < nid_id b"

definition build_node_id :: "string \<Rightarrow> string \<Rightarrow> u16 \<Rightarrow> node_id" where
  "build_node_id node_uuid hostname port =
     (if node_uuid = [] \<and> (hostname = [] \<or> port = 0) then default_node_id
      else new_node_id node_uuid hostname port)"

definition effective_node_id :: "node \<Rightarrow> transport \<Rightarrow> node_id" where
  "effective_node_id n t =
     build_node_id (n_node_uuid n) (n_hostname n) (port_or n svc_key_value (t = transport_tls) 0)"

fun effective_node_ids :: "node list \<Rightarrow> transport \<Rightarrow> node_id list" where
  "effective_node_ids [] t = []"
| "effective_node_ids (n # ns) t =
     (if port_or n svc_key_value (t = transport_tls) 0 = 0 then effective_node_ids ns t
      else effective_node_id n t # effective_node_ids ns t)"

subsection \<open>Queries of a configuration\<close>

definition has_node :: "configuration \<Rightarrow> string \<Rightarrow> service_type \<Rightarrow> bool \<Rightarrow> string \<Rightarrow> string \<Rightarrow> bool" where
  "has_node cfg network type is_tls hostname port =
     (case stoul port of
        Inl stox_invalid_argument \<Rightarrow> False
      | Inl stox_out_of_range \<Rightarrow> False
      | Inr v \<Rightarrow>
          let port_number = ucast v :: u16 in
          list_ex (\<lambda>n. hostname_for n network = hostname \<and>
            port_or_network n network type is_tls 0 = port_number) (cfg_nodes cfg))"

record evanescent_config =
  kv_plain_endpoints :: "(string \<times> u16) list"
  kv_tls_endpoints :: "(string \<times> u16) list"
  mgmt_plain_endpoints :: "(string \<times> u16) list"
  mgmt_tls_endpoints :: "(string \<times> u16) list"

definition is_valid :: "evanescent_config \<Rightarrow> bool" where
  "is_valid c =
     (if kv_tls_endpoints c \<noteq> [] \<and> mgmt_tls_endpoints c \<noteq> [] then True
      else if kv_plain_endpoints c \<noteq> [] \<and> mgmt_plain_endpoints c \<noteq> [] then True
      else False)"

definition emplace_port :: "string \<Rightarrow> u16 option \<Rightarrow> (string \<times> u16) list \<Rightarrow> (string \<times> u16) list" where
  "emplace_port hostname port eps =
     (case port of None \<Rightarrow> eps | Some p \<Rightarrow> eps @ [(hostname, p)])"

definition collect_endpoints :: "node \<Rightarrow> string \<Rightarrow> evanescent_config \<Rightarrow> evanescent_config" where
  "collect_endpoints n hostname c = c\<lparr>
     kv_plain_endpoints :=
       emplace_port hostname (pm_key_value (n_services_plain n)) (kv_plain_endpoints c),
     kv_tls_endpoints :=
       emplace_port hostname (pm_key_value (n_services_tls n)) (kv_tls_endpoints c),
     mgmt_plain_endpoints :=
       emplace_port hostname (pm_management (n_services_plain n)) (mgmt_plain_endpoints c),
     mgmt_tls_endpoints :=
       emplace_port hostname (pm_management (n_services_tls n)) (mgmt_tls_endpoints c)\<rparr>"

fun select_network_loop :: "string \<Rightarrow> node list \<Rightarrow> evanescent_config \<Rightarrow> string" where
  "select_network_loop bootstrap_hostname [] alt_conf =
     (if is_valid alt_conf then ''external'' else ''default'')"
| "select_network_loop bootstrap_hostname (n # ns) alt_conf =
     (if n_hostname n = bootstrap_hostname then ''default''
      else case n_alt n ''external'' of
             None \<Rightarrow> select_network_loop bootstrap_hostname ns alt_conf
           | Some network \<Rightarrow>
               if aa_hostname network = bootstrap_hostname then ''external''
               else select_network_loop bootstrap_hostname ns
                      (collect_endpoints n (aa_hostname network) alt_conf))"

definition select_network :: "configuration \<Rightarrow> string \<Rightarrow> string" where
  "select_network cfg bootstrap_hostname =
     select_network_loop bootstrap_hostname (cfg_nodes cfg)
       \<lparr>kv_plain_endpoints = [], kv_tls_endpoints = [], mgmt_plain_endpoints = [],
        mgmt_tls_endpoints = []\<rparr>"

definition rev_str :: "configuration \<Rightarrow> string" where
  "rev_str cfg =
     (case cfg_epoch cfg of
        Some epoch \<Rightarrow> dec_int epoch @ '':'' @ dec_int (value_or (cfg_rev cfg) 0)
      | None \<Rightarrow> (case cfg_rev cfg of Some r \<Rightarrow> dec_int r | None \<Rightarrow> ''(none)''))"

datatype topology_error = no_this_node | bad_port stox_error

fun index_for_this_node :: "node list \<Rightarrow> topology_error + nat" where
  "index_for_this_node [] = Inl no_this_node"
| "index_for_this_node (n # ns) = (if n_this_node n then Inr (n_index n) else index_for_this_node ns)"

text \<open>
  The partition of a key and the server of a partition. The subscript of the row and the division
  by the size of the map are not checked by the code.
\<close>

definition server_by_vbucket :: "configuration \<Rightarrow> u16 \<Rightarrow> nat \<Rightarrow> nat option run" where
  "server_by_vbucket cfg vbucket index =
     (case cfg_vbmap cfg of
        None \<Rightarrow> Some None
      | Some vbmap \<Rightarrow>
          if length vbmap \<le> unat vbucket then Some None
          else do {
            server_index \<leftarrow> span_at (vbmap ! unat vbucket) index;
            Some (if 0 \<le> sint server_index then Some (nat (sint server_index)) else None) })"

definition map_key :: "configuration \<Rightarrow> bytes \<Rightarrow> nat \<Rightarrow> (u16 \<times> nat option) run" where
  "map_key cfg key index =
     (case cfg_vbmap cfg of
        None \<Rightarrow> Some (0, None)
      | Some vbmap \<Rightarrow>
          if length vbmap = 0 then None
          else do {
            let vbucket = of_nat (unat (hash_crc32 key) mod length vbmap);
            server \<leftarrow> server_by_vbucket cfg vbucket index;
            Some (vbucket, server) })"

definition map_key_string :: "configuration \<Rightarrow> string \<Rightarrow> nat \<Rightarrow> (u16 \<times> nat option) run" where
  "map_key_string cfg key index = map_key cfg (chars_bytes key) index"

subsection \<open>Order of configurations\<close>

text \<open>Optional values compare with the absent one first.\<close>

fun option_less :: "int option \<Rightarrow> int option \<Rightarrow> bool" where
  "option_less _ None = False"
| "option_less None (Some _) = True"
| "option_less (Some a) (Some b) = (a < b)"

definition cfg_equal :: "configuration \<Rightarrow> configuration \<Rightarrow> bool" where
  "cfg_equal a b \<longleftrightarrow> cfg_epoch a = cfg_epoch b \<and> cfg_rev a = cfg_rev b"

definition cfg_less :: "configuration \<Rightarrow> configuration \<Rightarrow> bool" where
  "cfg_less a b \<longleftrightarrow>
     option_less (cfg_epoch a) (cfg_epoch b) \<or>
     (cfg_epoch a = cfg_epoch b \<and> option_less (cfg_rev a) (cfg_rev b))"

subsection \<open>Blank configurations\<close>

definition make_blank_configuration :: "bytes \<Rightarrow> string \<Rightarrow> u16 \<Rightarrow> u16 \<Rightarrow> configuration" where
  "make_blank_configuration random_id hostname plain_port tls_port =
     default_configuration\<lparr>cfg_id := random_id, cfg_epoch := Some 0, cfg_rev := Some 0,
       cfg_nodes := [default_node\<lparr>n_hostname := hostname, n_this_node := True,
         n_services_plain := empty_port_map\<lparr>pm_key_value := Some plain_port\<rparr>,
         n_services_tls := empty_port_map\<lparr>pm_key_value := Some tls_port\<rparr>\<rparr>]\<rparr>"

definition blank_node :: "bool \<Rightarrow> nat \<Rightarrow> string \<Rightarrow> u16 \<Rightarrow> node" where
  "blank_node use_tls idx hostname port =
     (let n = default_node\<lparr>n_index := idx, n_hostname := hostname\<rparr>;
          pm = empty_port_map\<lparr>pm_key_value := Some port\<rparr> in
      if use_tls then n\<lparr>n_services_tls := pm\<rparr> else n\<lparr>n_services_plain := pm\<rparr>)"

fun blank_nodes :: "bool \<Rightarrow> nat \<Rightarrow> (string \<times> string) list \<Rightarrow> topology_error + node list" where
  "blank_nodes use_tls idx [] = Inr []"
| "blank_nodes use_tls idx ((hostname, port) # endpoints) =
     (case stol port of
        Inl e \<Rightarrow> Inl (bad_port e)
      | Inr p \<Rightarrow> map_sum id (\<lambda>ns. blank_node use_tls idx hostname (of_int p) # ns)
                   (blank_nodes use_tls (idx + 1) endpoints))"

text \<open>The nodes are appended to as many default-constructed ones.\<close>

definition make_blank_configuration_list ::
  "bytes \<Rightarrow> (string \<times> string) list \<Rightarrow> bool \<Rightarrow> bool \<Rightarrow> topology_error + configuration" where
  "make_blank_configuration_list random_id endpoints use_tls force =
     map_sum id (\<lambda>ns. default_configuration\<lparr>cfg_force := force, cfg_id := random_id,
       cfg_epoch := Some 0, cfg_rev := Some 0,
       cfg_nodes := replicate (length endpoints) default_node @ ns\<rparr>)
     (blank_nodes use_tls 0 endpoints)"

subsection \<open>The order is a strict weak order\<close>

lemma option_less_irrefl [simp]: "\<not> option_less a a"
  by (cases a) simp_all

lemma option_less_trans: "option_less a b \<Longrightarrow> option_less b c \<Longrightarrow> option_less a c"
  by (cases a; cases b; cases c) simp_all

lemma option_less_linear: "option_less a b \<or> a = b \<or> option_less b a"
  by (cases a; cases b) auto

lemma cfg_less_irrefl [simp]: "\<not> cfg_less a a"
  by (simp add: cfg_less_def)

lemma cfg_less_trans: "cfg_less a b \<Longrightarrow> cfg_less b c \<Longrightarrow> cfg_less a c"
  unfolding cfg_less_def by (metis option_less_trans)

lemma cfg_less_linear: "cfg_less a b \<or> cfg_equal a b \<or> cfg_less b a"
  unfolding cfg_less_def cfg_equal_def by (metis option_less_linear)

lemma cfg_equal_less: "cfg_equal a b \<Longrightarrow> cfg_less b c \<longleftrightarrow> cfg_less a c"
  by (simp add: cfg_less_def cfg_equal_def)

subsection \<open>Partitions\<close>






text \<open>The undefined cases: an empty map, and a copy the row does not have.\<close>

lemma map_key_undefined_iff:
  "map_key cfg key index = None \<longleftrightarrow>
     (\<exists>m. cfg_vbmap cfg = Some m \<and>
        (m = [] \<or>
         (let v = unat (of_nat (unat (hash_crc32 key) mod length m) :: u16)
          in v < length m \<and> length (m ! v) \<le> index)))"
  by (auto simp: map_key_def server_by_vbucket_def Let_def span_at_def
      split: option.splits if_splits)

subsection \<open>Choice of the network\<close>

definition external_host :: "node \<Rightarrow> string option" where
  "external_host n = map_option aa_hostname (n_alt n ''external'')"

definition external_port :: "(node \<Rightarrow> u16 option) \<Rightarrow> node list \<Rightarrow> bool" where
  "external_port port ns \<longleftrightarrow> (\<exists>n \<in> set ns. external_host n \<noteq> None \<and> port n \<noteq> None)"

definition usable_with :: "evanescent_config \<Rightarrow> node list \<Rightarrow> bool" where
  "usable_with c ns \<longleftrightarrow>
     ((kv_tls_endpoints c \<noteq> [] \<or> external_port (\<lambda>n. pm_key_value (n_services_tls n)) ns) \<and>
      (mgmt_tls_endpoints c \<noteq> [] \<or> external_port (\<lambda>n. pm_management (n_services_tls n)) ns)) \<or>
     ((kv_plain_endpoints c \<noteq> [] \<or> external_port (\<lambda>n. pm_key_value (n_services_plain n)) ns) \<and>
      (mgmt_plain_endpoints c \<noteq> [] \<or> external_port (\<lambda>n. pm_management (n_services_plain n)) ns))"

definition external_usable :: "node list \<Rightarrow> bool" where
  "external_usable ns \<longleftrightarrow>
     (external_port (\<lambda>n. pm_key_value (n_services_tls n)) ns \<and>
      external_port (\<lambda>n. pm_management (n_services_tls n)) ns) \<or>
     (external_port (\<lambda>n. pm_key_value (n_services_plain n)) ns \<and>
      external_port (\<lambda>n. pm_management (n_services_plain n)) ns)"

definition network_of_host :: "node list \<Rightarrow> string \<Rightarrow> string option" where
  "network_of_host ns h =
     map_option (\<lambda>n. if n_hostname n = h then ''default'' else ''external'')
       (find (\<lambda>n. n_hostname n = h \<or> external_host n = Some h) ns)"

definition select_network_spec :: "node list \<Rightarrow> string \<Rightarrow> string" where
  "select_network_spec ns h =
     value_or (network_of_host ns h) (if external_usable ns then ''external'' else ''default'')"

lemma emplace_port_nonempty [simp]: "emplace_port h p eps \<noteq> [] \<longleftrightarrow> p \<noteq> None \<or> eps \<noteq> []"
  by (simp add: emplace_port_def split: option.split)

lemma external_port_Cons:
  "external_port f (n # ns) \<longleftrightarrow> (external_host n \<noteq> None \<and> f n \<noteq> None) \<or> external_port f ns"
  by (auto simp: external_port_def)

lemma usable_with_Nil: "usable_with c [] = is_valid c"
  by (simp add: usable_with_def is_valid_def external_port_def)

lemma usable_with_internal: "external_host n = None \<Longrightarrow> usable_with c (n # ns) = usable_with c ns"
  by (simp add: usable_with_def external_port_Cons)

lemma usable_with_external:
  "external_host n \<noteq> None \<Longrightarrow> usable_with c (n # ns) = usable_with (collect_endpoints n h c) ns"
  by (simp add: usable_with_def external_port_Cons collect_endpoints_def)

lemma select_network_loop_eq:
  "select_network_loop h ns c =
     value_or (network_of_host ns h) (if usable_with c ns then ''external'' else ''default'')"
proof (induction h ns c rule: select_network_loop.induct)
  case (1 h c)
  show ?case by (simp add: usable_with_Nil network_of_host_def value_or_def)
next
  case (2 h n ns c)
  show ?case
  proof (cases "n_alt n ''external''")
    case None
    then have "external_host n = None" by (simp add: external_host_def)
    then show ?thesis
      using 2 None by (simp add: usable_with_internal network_of_host_def value_or_def)
  next
    case (Some a)
    then have ext: "external_host n = Some (aa_hostname a)" by (simp add: external_host_def)
    show ?thesis
    proof (cases "n_hostname n = h \<or> aa_hostname a = h")
      case True
      then show ?thesis using Some ext by (auto simp: network_of_host_def value_or_def)
    next
      case False
      then have "network_of_host (n # ns) h = network_of_host ns h"
        by (simp add: network_of_host_def ext)
      then show ?thesis
        using False Some 2 ext usable_with_external [of n c ns "aa_hostname a"] by simp
    qed
  qed
qed

lemma usable_with_empty:
  "usable_with \<lparr>kv_plain_endpoints = [], kv_tls_endpoints = [], mgmt_plain_endpoints = [],
     mgmt_tls_endpoints = []\<rparr> ns = external_usable ns"
  by (simp add: usable_with_def external_usable_def)

text \<open>
  the selected network is that of the first node which has the bootstrap host as its internal
  or its external name, the internal name first; without such a node it is the external network
  exactly if nodes with an external name expose both the key-value and the management service, over
  TLS or both without.
\<close>

theorem select_network_eq: "select_network cfg h = select_network_spec (cfg_nodes cfg) h"
  by (simp add: select_network_def select_network_loop_eq select_network_spec_def usable_with_empty)

subsection \<open>Fallback identities\<close>

lemma hash_crc32_high_0:
  assumes "16 \<le> k"
  shows "drop_bit k (hash_crc32 key) AND 0xf = 0"
proof -
  have m: "(0x7fff :: u32) = mask 15" by (simp add: mask_eq_exp_minus_1)
  have "drop_bit k (hash_crc32 key) = 0"
    unfolding hash_crc32_def m by (rule bit_word_eqI) (use assms in \<open>auto simp: bit_simps\<close>)
  then show ?thesis by simp
qed

lemma colliding_hashes:
  "hash_crc32 (chars_bytes ''cb20:11210'') = 0x7218"
  "hash_crc32 (chars_bytes ''10.0.0.37:11210'') = 0x7218"
proof -
  have b: "chars_bytes ''cb20:11210'' = [99, 98, 50, 48, 58, 49, 49, 50, 49, 48]"
    "chars_bytes ''10.0.0.37:11210'' =
      [49, 48, 46, 48, 46, 48, 46, 51, 55, 58, 49, 49, 50, 49, 48]"
    by (simp_all add: chars_bytes_def uchar_def)
  show "hash_crc32 (chars_bytes ''cb20:11210'') = 0x7218"
    unfolding b by (simp add: hash_crc32_compute)
  show "hash_crc32 (chars_bytes ''10.0.0.37:11210'') = 0x7218"
    unfolding b by (simp add: hash_crc32_compute)
qed

lemma colliding_ids:
  "derive_fallback_id ''cb20'' 11210 = ''00007218''"
  "derive_fallback_id ''10.0.0.37'' 11210 = ''00007218''"
proof -
  have "dec_digits (unat (11210 :: u16)) = ''11210''"
    by (simp add: dec_digits.simps digit_char_def char_of_def bit_0)
  then show "derive_fallback_id ''cb20'' 11210 = ''00007218''"
    "derive_fallback_id ''10.0.0.37'' 11210 = ''00007218''"
    by (simp_all add: derive_fallback_id_def Let_def colliding_hashes hex_digits_def)
qed

text \<open>
  the identity derived for a node without a server-assigned one always starts with four zeros,
  because only 15 bits of the checksum are left; two nodes with different addresses can have equal
  identities.
\<close>

theorem fallback_id_collision:
  "take 4 (derive_fallback_id hostname port) = ''0000'' \<and>
   node_id_valid (build_node_id [] ''cb20'' 11210) \<and>
   node_id_equal (build_node_id [] ''cb20'' 11210) (build_node_id [] ''10.0.0.37'' 11210)"
proof -
  have "take 4 (derive_fallback_id hostname port) = ''0000''"
    by (simp add: derive_fallback_id_def Let_def hash_crc32_high_0 hex_digits_def)
  then show ?thesis
    by (simp add: colliding_ids node_id_valid_def node_id_equal_def build_node_id_def new_node_id_def)
qed

end
