(* ===== verification/Ordered_Map.thy ===== *)
theory Ordered_Map
  imports Main
begin

text \<open>
  \<^verbatim>\<open>std::map\<close> as a list of entries in the order of the keys, so that iteration has the order the
  code sees, and the interface the components use: what a lookup returns after an assignment or an
  erasure, and that the order of the entries is kept.
\<close>

type_synonym ('k, 'v) omap = "('k \<times> 'v) list"

locale ordered_map =
  fixes find_key :: "('k :: linorder, 'v) omap \<Rightarrow> 'k \<Rightarrow> 'v option"
    and assign :: "'k \<Rightarrow> 'v \<Rightarrow> ('k, 'v) omap \<Rightarrow> ('k, 'v) omap"
    and erase :: "'k \<Rightarrow> ('k, 'v) omap \<Rightarrow> ('k, 'v) omap"
    and ordered :: "('k, 'v) omap \<Rightarrow> bool"
  assumes find_empty: "find_key [] k = None"
    and find_assign: "find_key (assign k v m) k' = (if k' = k then Some v else find_key m k')"
    and find_erase: "find_key (erase k m) k' = (if k' = k then None else find_key m k')"
    and ordered_empty: "ordered []"
    and ordered_assign: "ordered m \<Longrightarrow> ordered (assign k v m)"
    and ordered_erase: "ordered m \<Longrightarrow> ordered (erase k m)"
    and find_entry: "ordered m \<Longrightarrow> find_key m k = Some v \<longleftrightarrow> (k, v) \<in> set m"
begin

text \<open>Moving the value of one key to another key that has none, and exchanging two values.\<close>

lemma find_move:
  "k \<noteq> k0 \<Longrightarrow> find_key (erase k0 (assign k v m)) k' =
     (if k' = k0 then None else if k' = k then Some v else find_key m k')"
  by (simp add: find_assign find_erase)

lemma find_swap:
  "find_key (assign k v (assign k0 w m)) k' =
     (if k' = k then Some v else if k' = k0 then Some w else find_key m k')"
  by (simp add: find_assign)

lemma ordered_move: "ordered m \<Longrightarrow> ordered (erase k0 (assign k v m))"
  by (simp add: ordered_assign ordered_erase)

end

definition om_find :: "('k, 'v) omap \<Rightarrow> 'k \<Rightarrow> 'v option" where
  "om_find m k = map_of m k"

fun om_assign :: "'k :: linorder \<Rightarrow> 'v \<Rightarrow> ('k, 'v) omap \<Rightarrow> ('k, 'v) omap" where
  "om_assign k v [] = [(k, v)]"
| "om_assign k v ((k', v') # m) =
     (if k < k' then (k, v) # (k', v') # m
      else if k = k' then (k, v) # m
      else (k', v') # om_assign k v m)"

definition om_erase :: "'k \<Rightarrow> ('k, 'v) omap \<Rightarrow> ('k, 'v) omap" where
  "om_erase k m = filter (\<lambda>e. fst e \<noteq> k) m"

definition om_ordered :: "('k :: linorder, 'v) omap \<Rightarrow> bool" where
  "om_ordered m = sorted_wrt (<) (map fst m)"

lemma om_assign_keys: "fst ` set (om_assign k v m) = insert k (fst ` set m)"
  by (induction k v m rule: om_assign.induct) auto

lemma om_ordered_assign: "om_ordered m \<Longrightarrow> om_ordered (om_assign k v m)"
proof (induction k v m rule: om_assign.induct)
  case (2 k v k' v' m)
  then show ?case using om_assign_keys [of k v m] by (fastforce simp: om_ordered_def)
qed (simp add: om_ordered_def)

lemma om_ordered_erase: "om_ordered m \<Longrightarrow> om_ordered (om_erase k m)"
  by (simp add: om_ordered_def om_erase_def sorted_wrt_map sorted_wrt_filter)

lemma om_find_erase: "om_find (om_erase k m) k' = (if k' = k then None else om_find m k')"
  by (induction m) (auto simp: om_find_def om_erase_def)

lemma om_find_assign: "om_find (om_assign k v m) k' = (if k' = k then Some v else om_find m k')"
  by (induction k v m rule: om_assign.induct) (auto simp: om_find_def)

interpretation om: ordered_map om_find om_assign om_erase om_ordered
proof
  show "om_find m k = Some v \<longleftrightarrow> (k, v) \<in> set m" if "om_ordered m" for m :: "('a :: linorder, 'b) omap" and k v
    using that unfolding om_find_def om_ordered_def
    by (intro map_of_eq_Some_iff) (simp add: strict_sorted_iff)
qed (simp_all add: om_find_assign om_find_erase om_ordered_assign om_ordered_erase,
     simp_all add: om_find_def om_ordered_def)

end
