(* ===== verification/Bucket.thy ===== *)
theory Bucket
  imports Topology Ordered_Map Transition
begin

text \<open>
  The key-value side of a bucket, \<^verbatim>\<open>core/bucket.cxx\<close>: the accepted configuration, the sessions by
  the index of their node, the routing of requests and the queue of deferred commands. Every
  operation runs under its locks and is one step. A session is its identifier and the address it was
  bootstrapped with; identifiers are drawn from a counter, as random identifiers never repeat. What
  the bucket asks of others (opening and stopping sessions, posting work, telling listeners) is
  appended to a log in the order of the calls.
\<close>

subsection \<open>State\<close>

record kv_session =
  ses_id :: nat
  ses_hostname :: string
  ses_port :: u16
  ses_node_uuid :: string

datatype deferred_command = dispatch_later nat | configuration_later nat

datatype bucket_error = be_bucket_closed | be_request_canceled | be_configuration_not_available

datatype bucket_effect =
  session_bootstrap kv_session
  | session_stop kv_session
  | post_restart_sessions
  | listener_update nat configuration
  | poll_configuration
  | run_deferred deferred_command "bucket_error option"

record bucket_options =
  opt_network :: string
  opt_enable_tls :: bool
  opt_enable_lazy_connections :: bool

record bucket_state =
  bk_closed :: bool
  bk_configured :: bool
  bk_config :: "configuration option"
  bk_sessions :: "(nat, kv_session) omap"
  bk_config_listeners :: "nat list"
  bk_deferred_commands :: "deferred_command list"
  bk_round_robin_next :: nat
  bk_next_id :: nat
  bk_effects :: "bucket_effect list"

definition new_bucket :: bucket_state where
  "new_bucket = \<lparr>bk_closed = False, bk_configured = False, bk_config = None, bk_sessions = [],
     bk_config_listeners = [], bk_deferred_commands = [], bk_round_robin_next = 0, bk_next_id = 0,
     bk_effects = []\<rparr>"

definition emit :: "bucket_effect \<Rightarrow> bucket_state \<Rightarrow> bucket_state" where
  "emit e b = b\<lparr>bk_effects := bk_effects b @ [e]\<rparr>"

subsection \<open>Addresses and sessions\<close>

definition kv_hostname :: "bucket_options \<Rightarrow> node \<Rightarrow> string" where
  "kv_hostname opts n = hostname_for n (opt_network opts)"

definition kv_port :: "bucket_options \<Rightarrow> node \<Rightarrow> u16" where
  "kv_port opts n = port_or_network n (opt_network opts) svc_key_value (opt_enable_tls opts) 0"

definition session_for :: "string \<Rightarrow> u16 \<Rightarrow> kv_session \<Rightarrow> bool" where
  "session_for hostname port s \<longleftrightarrow> ses_hostname s = hostname \<and> ses_port s = port"

definition find_session ::
  "string \<Rightarrow> u16 \<Rightarrow> (nat, kv_session) omap \<Rightarrow> (nat \<times> kv_session) option" where
  "find_session hostname port m = List.find (\<lambda>(index, s). session_for hostname port s) m"

text \<open>A session for a node is created and its bootstrap is started.\<close>

definition open_session :: "bucket_options \<Rightarrow> node \<Rightarrow> bucket_state \<Rightarrow> kv_session \<times> bucket_state" where
  "open_session opts n b =
     (let s = \<lparr>ses_id = bk_next_id b, ses_hostname = kv_hostname opts n,
               ses_port = kv_port opts n, ses_node_uuid = n_node_uuid n\<rparr>
      in (s, emit (session_bootstrap s) (b\<lparr>bk_next_id := bk_next_id b + 1\<rparr>)))"

subsection \<open>Accepting a configuration\<close>

definition diff_nodes :: "bucket_options \<Rightarrow> node list \<Rightarrow> node list \<Rightarrow> node list" where
  "diff_nodes opts lhs rhs =
     filter (\<lambda>re. \<not> list_ex (\<lambda>le. kv_hostname opts re = kv_hostname opts le \<and>
       kv_port opts re = kv_port opts le) lhs) rhs"

datatype config_decision = ignore_empty_map | ignore_config | accept_config

definition decide_config :: "configuration option \<Rightarrow> configuration \<Rightarrow> config_decision" where
  "decide_config current config =
     (if cfg_vbmap config = Some [] then ignore_empty_map
      else case current of
             None \<Rightarrow> accept_config
           | Some c \<Rightarrow>
               if cfg_force config then accept_config
               else if cfg_vbmap config = None then ignore_config
               else if cfg_less c config then accept_config
               else ignore_config)"

definition nodes_differ :: "node list \<Rightarrow> node list \<Rightarrow> bool" where
  "nodes_differ ns ms = list_ex (\<lambda>(n, m). node_differs n m) (zip ns ms)"

definition sessions_outdated :: "bucket_options \<Rightarrow> configuration option \<Rightarrow> configuration \<Rightarrow> bool" where
  "sessions_outdated opts current config =
     (let (added, removed, sequence_changed) =
        (case current of
           None \<Rightarrow> (cfg_nodes config, [], True)
         | Some c \<Rightarrow>
             let added = diff_nodes opts (cfg_nodes c) (cfg_nodes config);
                 removed = diff_nodes opts (cfg_nodes config) (cfg_nodes c)
             in (added, removed,
                 if added = [] \<and> removed = [] \<and> length (cfg_nodes config) = length (cfg_nodes c)
                 then nodes_differ (cfg_nodes config) (cfg_nodes c) else True))
      in added \<noteq> [] \<or> removed \<noteq> [] \<or> sequence_changed)"

text \<open>
  The loop over the nodes of the new configuration: a session with the address of the node is taken
  out of the old map and put at the next index; otherwise one is opened, unless connections are made
  on demand.
\<close>

fun place_sessions ::
  "bucket_options \<Rightarrow> node list \<Rightarrow> nat \<Rightarrow> (nat, kv_session) omap \<Rightarrow> (nat, kv_session) omap \<Rightarrow>
   bucket_state \<Rightarrow> (nat, kv_session) omap \<times> (nat, kv_session) omap \<times> bucket_state" where
  "place_sessions opts [] next_index old new_sessions b = (old, new_sessions, b)"
| "place_sessions opts (n # ns) next_index old new_sessions b =
     (if kv_port opts n = 0 then place_sessions opts ns next_index old new_sessions b
      else case find_session (kv_hostname opts n) (kv_port opts n) old of
             Some (i, s) \<Rightarrow>
               place_sessions opts ns (next_index + 1) (om_erase i old)
                 (om_assign next_index s new_sessions) b
           | None \<Rightarrow>
               if opt_enable_lazy_connections opts
               then place_sessions opts ns (next_index + 1) old new_sessions b
               else let (s, b) = open_session opts n b in
                    place_sessions opts ns (next_index + 1) old
                      (om_assign next_index s new_sessions) b)"

definition stop_sessions :: "(nat, kv_session) omap \<Rightarrow> bucket_state \<Rightarrow> bucket_state" where
  "stop_sessions m b = foldl (\<lambda>b (index, s). emit (session_stop s) b) b m"

definition notify_listeners :: "configuration \<Rightarrow> bucket_state \<Rightarrow> bucket_state" where
  "notify_listeners config b =
     foldl (\<lambda>b l. emit (listener_update l config) b) b (bk_config_listeners b)"

definition rebuild_sessions :: "bucket_options \<Rightarrow> configuration \<Rightarrow> bucket_state \<Rightarrow> bucket_state" where
  "rebuild_sessions opts config b =
     (let (old, new_sessions, b) = place_sessions opts (cfg_nodes config) 0 (bk_sessions b) [] b
      in stop_sessions old (b\<lparr>bk_sessions := new_sessions\<rparr>))"

definition update_config :: "bucket_options \<Rightarrow> configuration \<Rightarrow> bucket_state \<Rightarrow> bucket_state" where
  "update_config opts config b =
     (case decide_config (bk_config b) config of
        ignore_empty_map \<Rightarrow> emit poll_configuration b
      | ignore_config \<Rightarrow> b
      | accept_config \<Rightarrow>
          let outdated = sessions_outdated opts (bk_config b) config;
              b = notify_listeners config (b\<lparr>bk_config := Some config, bk_configured := True\<rparr>)
          in if outdated then rebuild_sessions opts config b else b)"

subsection \<open>Losing and restoring sessions\<close>

text \<open>A session found at another index moves to the free slot or changes places with its holder.\<close>

definition restart_move :: "nat \<Rightarrow> nat \<Rightarrow> kv_session \<Rightarrow> bucket_state \<Rightarrow> bucket_state" where
  "restart_move kv_node_index found s b =
     (if found = kv_node_index then b
      else case om_find (bk_sessions b) kv_node_index of
             None \<Rightarrow>
               b\<lparr>bk_sessions := om_erase found (om_assign kv_node_index s (bk_sessions b))\<rparr>
           | Some current \<Rightarrow>
               b\<lparr>bk_sessions :=
                   om_assign kv_node_index s (om_assign found current (bk_sessions b))\<rparr>)"

fun restart_loop :: "bucket_options \<Rightarrow> node list \<Rightarrow> nat \<Rightarrow> nat \<Rightarrow> bucket_state \<Rightarrow> bucket_state" where
  "restart_loop opts [] index kv_node_index b = b"
| "restart_loop opts (n # ns) index kv_node_index b =
     (if kv_port opts n = 0 then restart_loop opts ns (index + 1) kv_node_index b
      else case find_session (kv_hostname opts n) (kv_port opts n) (bk_sessions b) of
             Some (found, s) \<Rightarrow>
               restart_loop opts ns (index + 1) (kv_node_index + 1)
                 (restart_move kv_node_index found s b)
           | None \<Rightarrow>
               let (s, b) = open_session opts n b in
               restart_loop opts ns (index + 1) (kv_node_index + 1)
                 (b\<lparr>bk_sessions := om_assign index s (bk_sessions b)\<rparr>))"

definition restart_sessions :: "bucket_options \<Rightarrow> bucket_state \<Rightarrow> bucket_state" where
  "restart_sessions opts b =
     (case bk_config b of None \<Rightarrow> b | Some c \<Rightarrow> restart_loop opts (cfg_nodes c) 0 0 b)"

definition remove_session :: "nat \<Rightarrow> bucket_state \<Rightarrow> bucket_state" where
  "remove_session sid b =
     (let left = filter (\<lambda>(index, s). ses_id s \<noteq> sid) (bk_sessions b);
          found = list_ex (\<lambda>(index, s). ses_id s = sid) (bk_sessions b);
          b = b\<lparr>bk_sessions := left\<rparr>
      in if found then emit post_restart_sessions b else b)"

text \<open>The subscript of the node list is not checked.\<close>

definition connect_session :: "bucket_options \<Rightarrow> nat \<Rightarrow> bucket_state \<Rightarrow> bucket_state run" where
  "connect_session opts index b =
     (case bk_config b of
        None \<Rightarrow> Some b
      | Some c \<Rightarrow> do {
          n \<leftarrow> span_at (cfg_nodes c) index;
          Some (if kv_port opts n = 0 then b
                else let (s, b) = open_session opts n b
                     in b\<lparr>bk_sessions := om_assign index s (bk_sessions b)\<rparr>) })"

subsection \<open>Routing\<close>

definition map_id :: "bytes \<Rightarrow> nat \<Rightarrow> bucket_state \<Rightarrow> (u16 \<times> nat option) run" where
  "map_id key node_index b =
     (case bk_config b of None \<Rightarrow> Some (0, None) | Some c \<Rightarrow> map_key c key node_index)"

definition bk_server_by_vbucket :: "u16 \<Rightarrow> nat \<Rightarrow> bucket_state \<Rightarrow> nat option run" where
  "bk_server_by_vbucket vbucket node_index b =
     (case bk_config b of None \<Rightarrow> Some None | Some c \<Rightarrow> server_by_vbucket c vbucket node_index)"

definition find_or_connect_session_by_index ::
  "bucket_options \<Rightarrow> nat \<Rightarrow> bucket_state \<Rightarrow> (kv_session option \<times> bucket_state) run" where
  "find_or_connect_session_by_index opts index b =
     (case om_find (bk_sessions b) index of
        Some s \<Rightarrow> Some (Some s, b)
      | None \<Rightarrow> map_option (\<lambda>b. (None, b)) (connect_session opts index b))"

record route_request =
  rr_key :: bytes
  rr_vbucket :: u16
  rr_replica_index :: nat

definition route ::
  "bucket_options \<Rightarrow> route_request \<Rightarrow> bucket_state \<Rightarrow>
   (kv_session option \<times> route_request \<times> bucket_state) run" where
  "route opts req b =
     (if rr_key req = []
      then do {
        server \<leftarrow> bk_server_by_vbucket (rr_vbucket req) (rr_replica_index req) b;
        case server of
          None \<Rightarrow> Some (None, req, b)
        | Some i \<Rightarrow> do {
            (s, b) \<leftarrow> find_or_connect_session_by_index opts i b;
            Some (s, req, b) } }
      else do {
        (partition, server) \<leftarrow> map_id (rr_key req) (rr_replica_index req) b;
        case server of
          None \<Rightarrow> Some (None, req, b)
        | Some i \<Rightarrow> do {
            (s, b) \<leftarrow> find_or_connect_session_by_index opts i b;
            Some (s, req\<lparr>rr_vbucket := partition\<rparr>, b) } })"

definition next_session_index :: "bucket_state \<Rightarrow> nat \<times> bucket_state" where
  "next_session_index b =
     (let index = bk_round_robin_next b in
      if index < length (bk_sessions b) then (index, b\<lparr>bk_round_robin_next := index + 1\<rparr>)
      else (0, b\<lparr>bk_round_robin_next := 0\<rparr>))"

subsection \<open>Deferred commands and closing\<close>

definition defer_command :: "deferred_command \<Rightarrow> bucket_state \<Rightarrow> bucket_state" where
  "defer_command c b = b\<lparr>bk_deferred_commands := bk_deferred_commands b @ [c]\<rparr>"

definition drain_deferred_queue :: "bucket_error option \<Rightarrow> bucket_state \<Rightarrow> bucket_state" where
  "drain_deferred_queue ec b =
     foldl (\<lambda>b c. emit (run_deferred c ec) b) (b\<lparr>bk_deferred_commands := []\<rparr>)
       (bk_deferred_commands b)"

definition on_configuration_update :: "nat \<Rightarrow> bucket_state \<Rightarrow> bucket_state" where
  "on_configuration_update handler b =
     b\<lparr>bk_config_listeners := bk_config_listeners b @ [handler]\<rparr>"

definition with_configuration ::
  "nat \<Rightarrow> bucket_state \<Rightarrow> (bucket_error + configuration) option \<times> bucket_state" where
  "with_configuration handler b =
     (if bk_closed b then (Some (Inl be_configuration_not_available), b)
      else if bk_configured b
      then (case bk_config b of
              Some c \<Rightarrow> (Some (Inr c), b)
            | None \<Rightarrow> (Some (Inl be_configuration_not_available), b))
      else (None, defer_command (configuration_later handler) b))"

definition bk_close :: "bucket_state \<Rightarrow> bucket_state" where
  "bk_close b =
     (if bk_closed b then b
      else let b = drain_deferred_queue (Some be_request_canceled) (b\<lparr>bk_closed := True\<rparr>);
               old_sessions = bk_sessions b
           in stop_sessions old_sessions (b\<lparr>bk_config_listeners := [], bk_sessions := []\<rparr>))"

text \<open>The first session is put at the index of its node before its configuration is taken over.\<close>

definition bk_bootstrapped :: "bucket_options \<Rightarrow> kv_session \<Rightarrow> nat \<Rightarrow> configuration \<Rightarrow> bucket_state \<Rightarrow> bucket_state" where
  "bk_bootstrapped opts s this_index config b =
     emit poll_configuration
       (drain_deferred_queue None
         (update_config opts config (b\<lparr>bk_sessions := om_assign this_index s (bk_sessions b)\<rparr>)))"

subsection \<open>Sessions and the nodes they serve\<close>

definition serves :: "bucket_options \<Rightarrow> node \<Rightarrow> kv_session \<Rightarrow> bool" where
  "serves opts n s \<longleftrightarrow> session_for (kv_hostname opts n) (kv_port opts n) s"

definition kv_nodes :: "bucket_options \<Rightarrow> node list \<Rightarrow> node list" where
  "kv_nodes opts ns = filter (\<lambda>n. kv_port opts n \<noteq> 0) ns"

text \<open>
  The partition map counts the nodes that have the key-value service; the session at an index has to
  be one for the node with that number.
\<close>

definition aligned :: "bucket_options \<Rightarrow> node list \<Rightarrow> (nat, kv_session) omap \<Rightarrow> bool" where
  "aligned opts ns m \<longleftrightarrow>
     (\<forall>i s. om_find m i = Some s \<longrightarrow>
        i < length (kv_nodes opts ns) \<and> serves opts (kv_nodes opts ns ! i) s)"

definition complete :: "bucket_options \<Rightarrow> node list \<Rightarrow> (nat, kv_session) omap \<Rightarrow> bool" where
  "complete opts ns m \<longleftrightarrow> (\<forall>i < length (kv_nodes opts ns). om_find m i \<noteq> None)"

definition sessions_ok :: "bucket_options \<Rightarrow> bucket_state \<Rightarrow> bool" where
  "sessions_ok opts b \<longleftrightarrow>
     (case bk_config b of
        None \<Rightarrow> True
      | Some c \<Rightarrow>
          aligned opts (cfg_nodes c) (bk_sessions b) \<and>
          \<not> (\<not> opt_enable_lazy_connections opts \<and> \<not> complete opts (cfg_nodes c) (bk_sessions b)))"

lemma kv_nodes_append [simp]: "kv_nodes opts (xs @ ys) = kv_nodes opts xs @ kv_nodes opts ys"
  by (simp add: kv_nodes_def)







lemma find_SomeD_mem: "List.find P xs = Some x \<Longrightarrow> P x \<and> x \<in> set xs"
  by (induction xs) (auto split: if_splits)

lemma find_session_serves:
  "find_session (kv_hostname opts n) (kv_port opts n) m = Some (i, s) \<Longrightarrow>
   serves opts n s \<and> (i, s) \<in> set m"
  by (auto simp: find_session_def serves_def dest!: find_SomeD_mem)

lemma open_session_serves: "open_session opts n b = (s, b') \<Longrightarrow> serves opts n s"
  by (auto simp: open_session_def Let_def serves_def session_for_def)

lemma open_session_frame:
  "open_session opts n b = (s, b') \<Longrightarrow>
     bk_config b' = bk_config b \<and> bk_configured b' = bk_configured b \<and> bk_closed b' = bk_closed b \<and>
     bk_sessions b' = bk_sessions b"
  by (auto simp: open_session_def Let_def emit_def)


lemma emit_frame [simp]:
  "bk_config (emit e b) = bk_config b" "bk_configured (emit e b) = bk_configured b"
  "bk_closed (emit e b) = bk_closed b" "bk_sessions (emit e b) = bk_sessions b"
  "bk_config_listeners (emit e b) = bk_config_listeners b"
  by (simp_all add: emit_def)

lemma emits_frame:
  "bk_config (foldl (\<lambda>b x. emit (f x) b) b xs) = bk_config b"
  "bk_configured (foldl (\<lambda>b x. emit (f x) b) b xs) = bk_configured b"
  "bk_sessions (foldl (\<lambda>b x. emit (f x) b) b xs) = bk_sessions b"
  by (induction xs arbitrary: b) simp_all

lemma stop_sessions_frame [simp]:
  "bk_config (stop_sessions m b) = bk_config b"
  "bk_configured (stop_sessions m b) = bk_configured b"
  "bk_sessions (stop_sessions m b) = bk_sessions b"
  unfolding stop_sessions_def
  using emits_frame [of "\<lambda>e. session_stop (snd e)" b m] by (simp_all add: case_prod_unfold)

lemma notify_listeners_frame [simp]:
  "bk_config (notify_listeners c b) = bk_config b"
  "bk_configured (notify_listeners c b) = bk_configured b"
  "bk_sessions (notify_listeners c b) = bk_sessions b"
  by (simp_all add: notify_listeners_def emits_frame)

lemma drain_frame [simp]:
  "bk_config (drain_deferred_queue ec b) = bk_config b"
  "bk_configured (drain_deferred_queue ec b) = bk_configured b"
  "bk_sessions (drain_deferred_queue ec b) = bk_sessions b"
  by (simp_all add: drain_deferred_queue_def emits_frame)

lemma place_sessions_frame:
  "place_sessions opts ns k old new b = (old', new', b') \<Longrightarrow>
     bk_config b' = bk_config b \<and> bk_configured b' = bk_configured b"
  by (induction opts ns k old new b rule: place_sessions.induct)
    (auto simp: Let_def split: if_splits option.splits prod.splits dest: open_session_frame)

lemma rebuild_sessions_frame [simp]:
  "bk_config (rebuild_sessions opts c b) = bk_config b"
  "bk_configured (rebuild_sessions opts c b) = bk_configured b"
  by (auto simp: rebuild_sessions_def Let_def split: prod.splits dest: place_sessions_frame)





lemma outdated_initially: "sessions_outdated opts None config"
  by (simp add: sessions_outdated_def)


definition sample_node :: "string \<Rightarrow> u16 option \<Rightarrow> node" where
  "sample_node h p = default_node\<lparr>n_hostname := h,
     n_services_plain := empty_port_map\<lparr>pm_key_value := p\<rparr>\<rparr>"

definition sample_options :: bucket_options where
  "sample_options = \<lparr>opt_network = ''default'', opt_enable_tls = False,
     opt_enable_lazy_connections = False\<rparr>"

definition sample_config :: "int \<Rightarrow> node list \<Rightarrow> configuration" where
  "sample_config r ns = default_configuration\<lparr>cfg_rev := Some r, cfg_nodes := ns,
     cfg_vbmap := Some [[0], [0]]\<rparr>"

lemmas sample_bucket = sample_options_def sample_config_def sample_node_def default_node_def
  empty_port_map_def default_configuration_def new_bucket_def kv_port_def kv_hostname_def
  port_or_network_def port_or_def hostname_for_def value_or_def


subsection \<open>Restarting sessions\<close>

text \<open>
  The first slots, as far as the loop has come, when every node has the service: a session for the
  node with that index.
\<close>

definition placed :: "bucket_options \<Rightarrow> node list \<Rightarrow> (nat, kv_session) omap \<Rightarrow> bool" where
  "placed opts ns m \<longleftrightarrow> (\<forall>i < length ns. \<exists>s. om_find m i = Some s \<and> serves opts (ns ! i) s)"

definition kv_address :: "bucket_options \<Rightarrow> node \<Rightarrow> string \<times> u16" where
  "kv_address opts n = (kv_hostname opts n, kv_port opts n)"

lemma serves_iff: "serves opts n s \<longleftrightarrow> kv_address opts n = (ses_hostname s, ses_port s)"
  by (auto simp: serves_def session_for_def kv_address_def)

lemma placed_snoc:
  "placed opts (ns @ [n]) m \<longleftrightarrow>
     placed opts ns m \<and> (\<exists>s. om_find m (length ns) = Some s \<and> serves opts n s)"
  by (auto simp: placed_def nth_append less_Suc_eq)

lemma placed_change:
  "placed opts ns m \<Longrightarrow> (\<And>i. i < length ns \<Longrightarrow> om_find m' i = om_find m i) \<Longrightarrow> placed opts ns m'"
  by (simp add: placed_def)

lemma placed_beyond:
  assumes "placed opts ns m" and "om_find m i = Some s" and "serves opts n s"
    and "kv_address opts n \<notin> kv_address opts ` set ns"
  shows "length ns \<le> i"
proof (rule ccontr)
  assume "\<not> length ns \<le> i"
  then have "i < length ns" by simp
  with assms(1,2) have "serves opts (ns ! i) s" by (fastforce simp: placed_def)
  with assms(3) have "kv_address opts n = kv_address opts (ns ! i)" by (simp add: serves_iff)
  with \<open>i < length ns\<close> assms(4) show False by auto
qed

lemma find_session_entry:
  assumes "om_ordered m" and "find_session (kv_hostname opts n) (kv_port opts n) m = Some (i, s)"
  shows "om_find m i = Some s \<and> serves opts n s"
  using find_session_serves [OF assms(2)] om.find_entry [OF assms(1)] by simp

lemma restart_move_ordered:
  "om_ordered (bk_sessions b) \<Longrightarrow> om_ordered (bk_sessions (restart_move kv found s b))"
  by (simp add: restart_move_def om.ordered_assign om.ordered_erase split: option.split)

lemma restart_loop_placed:
  assumes "om_ordered (bk_sessions b)" and "placed opts pre (bk_sessions b)"
    and "index = length pre" and "kv = length pre"
    and "\<forall>n \<in> set ns. kv_port opts n \<noteq> 0"
    and "distinct (map (kv_address opts) (pre @ ns))"
  shows "placed opts (pre @ ns) (bk_sessions (restart_loop opts ns index kv b))"
  using assms
proof (induction opts ns index kv b arbitrary: pre rule: restart_loop.induct)
  case (2 opts n ns index kv b)
  let ?m = "bk_sessions b"
  have port: "kv_port opts n \<noteq> 0" using 2 by simp
  have new: "kv_address opts n \<notin> kv_address opts ` set pre" using "2.prems" by auto
  show ?case
  proof (cases "find_session (kv_hostname opts n) (kv_port opts n) ?m")
    case None
    obtain s b1 where o: "open_session opts n b = (s, b1)" by fastforce
    let ?b = "b1\<lparr>bk_sessions := om_assign index s (bk_sessions b1)\<rparr>"
    have "placed opts (pre @ [n]) (bk_sessions ?b)"
      using "2.prems" open_session_serves [OF o] open_session_frame [OF o]
      by (auto simp: placed_snoc om.find_assign elim: placed_change)
    moreover have "om_ordered (bk_sessions ?b)"
      using "2.prems"(1) open_session_frame [OF o] by (simp add: om.ordered_assign)
    ultimately show ?thesis
      using "2.IH"(2) [OF port None o [symmetric], where pre = "pre @ [n]"] "2.prems" port None o by simp
  next
    case (Some e)
    obtain found s where e: "e = (found, s)" by fastforce
    have f: "om_find ?m found = Some s" "serves opts n s"
      using find_session_entry "2.prems"(1) Some e by auto
    have "length pre \<le> found" using placed_beyond [OF "2.prems"(2) f new] .
    then have "placed opts (pre @ [n]) (bk_sessions (restart_move kv found s b))"
      using f "2.prems"(2-4)
      by (auto simp: restart_move_def placed_snoc om.find_assign om.find_erase
          elim!: placed_change split: option.splits)
    moreover have "om_ordered (bk_sessions (restart_move kv found s b))"
      using "2.prems"(1) by (rule restart_move_ordered)
    ultimately show ?thesis
      using "2.IH"(3) [OF port Some e [symmetric], where pre = "pre @ [n]"] "2.prems" port Some e by simp
  qed
qed simp

text \<open>
  C39: when every node of the configuration has the key-value service and no two nodes share an
  address, restarting puts a session for the i-th node at index i, whatever sessions were lost or
  misplaced before.
\<close>

theorem restart_sessions_restores:
  assumes "bk_config b = Some c" and "om_ordered (bk_sessions b)"
    and "\<forall>n \<in> set (cfg_nodes c). kv_port opts n \<noteq> 0"
    and "distinct (map (kv_address opts) (cfg_nodes c))"
  shows "placed opts (cfg_nodes c) (bk_sessions (restart_sessions opts b))"
  using restart_loop_placed [of b opts "[]" 0 0 "cfg_nodes c"] assms
  by (simp add: restart_sessions_def placed_def)

theorem restart_sessions_restores_witness:
  "let c = sample_config 1 [sample_node ''a'' (Some 11210), sample_node ''b'' (Some 11210)] in
   placed sample_options (cfg_nodes c)
     (bk_sessions (restart_sessions sample_options (new_bucket\<lparr>bk_config := Some c\<rparr>)))"
  unfolding Let_def
  by (rule restart_sessions_restores) (simp_all add: sample_bucket kv_address_def om.ordered_empty)

subsection \<open>A node without the service in front\<close>

definition gap_config :: configuration where
  "gap_config = sample_config 1 [sample_node ''web'' None, sample_node ''a'' (Some 11210)]"

definition gap_session :: "nat \<Rightarrow> kv_session" where
  "gap_session k = \<lparr>ses_id = k, ses_hostname = ''a'', ses_port = 11210, ses_node_uuid = []\<rparr>"

lemma gap_ports:
  "kv_port sample_options (sample_node h None) = 0"
  "kv_port sample_options (sample_node h (Some p)) = p"
  "kv_hostname sample_options (sample_node h q) = h"
  by (simp_all add: sample_bucket)

lemma gap_nodes: "cfg_nodes gap_config = [sample_node ''web'' None, sample_node ''a'' (Some 11210)]"
  by (simp add: gap_config_def sample_config_def)

lemma gap_open:
  "open_session sample_options (sample_node ''a'' (Some 11210)) b =
     (gap_session (bk_next_id b),
      emit (session_bootstrap (gap_session (bk_next_id b))) (b\<lparr>bk_next_id := bk_next_id b + 1\<rparr>))"
  by (simp add: open_session_def Let_def gap_ports gap_session_def) (simp add: sample_bucket)

lemma gap_update:
  "bk_sessions (update_config sample_options gap_config new_bucket) = [(0, gap_session 0)]"
  "bk_config (update_config sample_options gap_config new_bucket) = Some gap_config"
  "bk_next_id (update_config sample_options gap_config new_bucket) = 1"
proof -
  have "decide_config None gap_config = accept_config"
    by (simp add: decide_config_def gap_config_def sample_config_def)
  then have u: "update_config sample_options gap_config new_bucket =
      rebuild_sessions sample_options gap_config
        (new_bucket\<lparr>bk_config := Some gap_config, bk_configured := True\<rparr>)"
    by (simp add: update_config_def outdated_initially notify_listeners_def new_bucket_def)
  have "opt_enable_lazy_connections sample_options = False" by (simp add: sample_options_def)
  then show "bk_sessions (update_config sample_options gap_config new_bucket) = [(0, gap_session 0)]"
    "bk_config (update_config sample_options gap_config new_bucket) = Some gap_config"
    "bk_next_id (update_config sample_options gap_config new_bucket) = 1"
    unfolding u by (simp_all add: rebuild_sessions_def gap_nodes gap_ports find_session_def gap_open
      new_bucket_def stop_sessions_def emit_def)
qed

definition gap_bucket :: bucket_state where
  "gap_bucket = restart_sessions sample_options
     (remove_session 0 (update_config sample_options gap_config new_bucket))"

lemma gap_bucket_eq:
  "bk_sessions gap_bucket = [(1, gap_session 1)]" "bk_config gap_bucket = Some gap_config"
  by (simp_all add: gap_bucket_def restart_sessions_def remove_session_def gap_update Let_def
      gap_session_def [of 0] gap_nodes gap_ports find_session_def gap_open emit_def)

lemma gap_connect: "connect_session sample_options 0 gap_bucket = Some gap_bucket"
  by (simp add: connect_session_def gap_bucket_eq gap_nodes gap_ports)

lemma gap_server: "server_by_vbucket gap_config vb 0 \<in> {Some None, Some (Some 0)}"
  by (auto simp: server_by_vbucket_def gap_config_def sample_config_def less_Suc_eq not_le
      numeral_2_eq_2)

lemma gap_map_key: "\<exists>vb srv. map_key gap_config key 0 = Some (vb, srv) \<and> srv \<in> {None, Some 0}"
  using gap_server [of "of_nat (unat (hash_crc32 key) mod 2)"]
  by (auto simp: map_key_def Let_def gap_config_def sample_config_def numeral_2_eq_2)

text \<open>
  with a node without the key-value service in front, restarting a lost session puts it at the
  index the node has in the configuration instead of the index the partition map uses; from then on
  no request for the active copy finds a session, and trying to connect on demand does nothing.
\<close>

theorem restart_misplaces:
  "sessions_ok sample_options (update_config sample_options gap_config new_bucket) \<and>
   \<not> sessions_ok sample_options gap_bucket \<and>
   (\<exists>req'. route sample_options (req\<lparr>rr_replica_index := 0\<rparr>) gap_bucket = Some (None, req', gap_bucket))"
proof (intro conjI)
  have kv: "kv_nodes sample_options (cfg_nodes gap_config) = [sample_node ''a'' (Some 11210)]"
    by (simp add: gap_nodes kv_nodes_def gap_ports)
  show "sessions_ok sample_options (update_config sample_options gap_config new_bucket)"
    by (simp add: sessions_ok_def gap_update aligned_def complete_def kv om_find_def serves_def
        session_for_def gap_ports gap_session_def)
  show "\<not> sessions_ok sample_options gap_bucket"
    by (simp add: sessions_ok_def gap_bucket_eq aligned_def kv om_find_def)
  have none: "find_or_connect_session_by_index sample_options 0 gap_bucket = Some (None, gap_bucket)"
    by (simp add: find_or_connect_session_by_index_def gap_bucket_eq om_find_def gap_connect)
  show "\<exists>req'. route sample_options (req\<lparr>rr_replica_index := 0\<rparr>) gap_bucket = Some (None, req', gap_bucket)"
    using gap_server [of "rr_vbucket req"] gap_map_key [of "rr_key req"] none
    by (auto simp: route_def bk_server_by_vbucket_def map_id_def gap_bucket_eq(2))
qed

subsection \<open>Steps\<close>

datatype bucket_label =
  take_config configuration | lose_session nat | restart | connect nat | dispatch route_request
  | bootstrapped kv_session nat configuration | add_listener nat | deferral deferred_command
  | drain "bucket_error option" | ask_configuration nat | pick_session | close_bucket

inductive bucket_step :: "bucket_options \<Rightarrow> bucket_state \<Rightarrow> bucket_label \<Rightarrow> bucket_state \<Rightarrow> bool"
  for opts where
  "bucket_step opts b (take_config c) (update_config opts c b)"
| "bucket_step opts b (lose_session k) (remove_session k b)"
| "bucket_step opts b restart (restart_sessions opts b)"
| "connect_session opts i b = Some b' \<Longrightarrow> bucket_step opts b (connect i) b'"
| "route opts req b = Some (s, req', b') \<Longrightarrow> bucket_step opts b (dispatch req) b'"
| "bucket_step opts b (bootstrapped s i c) (bk_bootstrapped opts s i c b)"
| "bucket_step opts b (add_listener l) (on_configuration_update l b)"
| "bucket_step opts b (deferral d) (defer_command d b)"
| "bucket_step opts b (drain ec) (drain_deferred_queue ec b)"
| "bucket_step opts b (ask_configuration h) (snd (with_configuration h b))"
| "bucket_step opts b pick_session (snd (next_session_index b))"
| "bucket_step opts b close_bucket (bk_close b)"

fun forced :: "bucket_label \<Rightarrow> bool" where
  "forced (take_config c) = cfg_force c"
| "forced (bootstrapped s i c) = cfg_force c"
| "forced _ = False"

text \<open>Only taking over a configuration changes the current one.\<close>

lemma restart_move_frame [simp]:
  "bk_config (restart_move k i s b) = bk_config b"
  "bk_configured (restart_move k i s b) = bk_configured b"
  by (simp_all add: restart_move_def split: option.split)

lemma restart_loop_frame:
  "bk_config (restart_loop opts ns i k b) = bk_config b \<and>
   bk_configured (restart_loop opts ns i k b) = bk_configured b"
proof (induction opts ns i k b rule: restart_loop.induct)
  case (2 opts n ns i k b)
  obtain s b1 where o: "open_session opts n b = (s, b1)" by fastforce
  show ?case
    using 2 open_session_frame [OF o]
    by (cases "find_session (kv_hostname opts n) (kv_port opts n) (bk_sessions b)")
      (simp_all add: o split: prod.split)
qed simp

lemma connect_session_frame:
  "connect_session opts i b = Some b' \<Longrightarrow> bk_config b' = bk_config b \<and> bk_configured b' = bk_configured b"
  by (auto simp: connect_session_def Let_def split: option.splits bind_splits if_splits prod.splits
      dest: open_session_frame)

lemma find_or_connect_frame:
  "find_or_connect_session_by_index opts i b = Some (s, b') \<Longrightarrow>
     bk_config b' = bk_config b \<and> bk_configured b' = bk_configured b"
  by (auto simp: find_or_connect_session_by_index_def split: option.splits
      dest: connect_session_frame)

lemma route_frame:
  "route opts req b = Some (s, req', b') \<Longrightarrow>
     bk_config b' = bk_config b \<and> bk_configured b' = bk_configured b"
  by (auto simp: route_def split: if_splits option.splits bind_splits prod.splits
      dest: find_or_connect_frame)

lemma other_steps_frame:
  assumes "bucket_step opts b l b'"
    and "\<And>c. l \<noteq> take_config c" and "\<And>s i c. l \<noteq> bootstrapped s i c"
  shows "bk_config b' = bk_config b \<and> bk_configured b' = bk_configured b"
  using assms
  by cases (auto simp: remove_session_def restart_sessions_def restart_loop_frame
      on_configuration_update_def defer_command_def with_configuration_def next_session_index_def
      bk_close_def Let_def split: option.split dest: connect_session_frame route_frame)

lemma step_config_cases:
  assumes "bucket_step opts b l b'"
  obtains (same) "bk_config b' = bk_config b" "bk_configured b' = bk_configured b"
  | (taken) c where "decide_config (bk_config b) c = accept_config" "bk_config b' = Some c"
      "bk_configured b'" "forced l = cfg_force c"
proof -
  have upd: "bk_config (update_config opts c b0) =
        (if decide_config (bk_config b0) c = accept_config then Some c else bk_config b0) \<and>
      bk_configured (update_config opts c b0) =
        (if decide_config (bk_config b0) c = accept_config then True else bk_configured b0)" for c b0
    by (simp add: update_config_def Let_def split: config_decision.split)
  consider c where "l = take_config c" "b' = update_config opts c b"
    | s i c where "l = bootstrapped s i c" "b' = bk_bootstrapped opts s i c b"
    | "\<And>c. l \<noteq> take_config c" "\<And>s i c. l \<noteq> bootstrapped s i c"
    using assms by cases auto
  then show ?thesis
  proof cases
    case (1 c)
    then show ?thesis using upd [of c b] same taken [of c] by (auto split: if_splits)
  next
    case (2 s i c)
    then show ?thesis
      using upd [of c "b\<lparr>bk_sessions := om_assign i s (bk_sessions b)\<rparr>"] same taken [of c]
      by (auto simp: bk_bootstrapped_def split: if_splits)
  next
    case 3
    then show ?thesis using other_steps_frame [OF assms] same by blast
  qed
qed

subsection \<open>The current configuration\<close>

definition bucket_init :: "bucket_state \<Rightarrow> bool" where
  "bucket_init b \<longleftrightarrow> b = new_bucket"

definition config_inv :: "bucket_state \<Rightarrow> bool" where
  "config_inv b \<longleftrightarrow>
     (bk_configured b \<longleftrightarrow> bk_config b \<noteq> None) \<and>
     (\<forall>c. bk_config b = Some c \<longrightarrow> cfg_vbmap c \<noteq> Some [])"

lemma accepted_map: "decide_config cur c = accept_config \<Longrightarrow> cfg_vbmap c \<noteq> Some []"
  by (auto simp: decide_config_def)

interpretation bucket_config: state_invariant bucket_init "bucket_step opts" config_inv for opts
proof
  fix b assume "bucket_init b"
  then show "config_inv b" by (simp add: bucket_init_def config_inv_def new_bucket_def)
next
  fix b l b' assume "config_inv b" and "bucket_step opts b l b'"
  from this(2,1) show "config_inv b'"
    by (cases rule: step_config_cases) (auto simp: config_inv_def dest: accepted_map)
qed

text \<open>
  in every reachable state, mapping a key has a defined result except when the partition map has
  a row without the requested copy: the map of the current configuration is never empty.
\<close>

theorem map_id_defined:
  assumes "reachable bucket_init (bucket_step opts) b"
    and "\<forall>c m row. bk_config b = Some c \<and> cfg_vbmap c = Some m \<and> row \<in> set m \<longrightarrow> index < length row"
  shows "map_id key index b \<noteq> None"
proof (cases "bk_config b")
  case None
  then show ?thesis by (simp add: map_id_def)
next
  case (Some c)
  have "cfg_vbmap c \<noteq> Some []"
    using bucket_config.inv_reachable [OF assms(1)] Some by (simp add: config_inv_def)
  moreover have "index < length (m ! v)" if "cfg_vbmap c = Some m" "v < length m" for m v
    using assms(2) Some that by (meson nth_mem)
  ultimately show ?thesis
    by (auto simp: map_id_def Some map_key_undefined_iff Let_def not_le [symmetric])
qed

theorem map_id_defined_witness:
  "map_id [107] 0 (update_config sample_options (sample_config 1 []) new_bucket) \<noteq> None"
proof (rule map_id_defined)
  show "reachable bucket_init (bucket_step sample_options)
      (update_config sample_options (sample_config 1 []) new_bucket)"
  proof (rule reach_step)
    show "reachable bucket_init (bucket_step sample_options) new_bucket"
      by (rule reach_init) (simp add: bucket_init_def)
    show "bucket_step sample_options new_bucket (take_config (sample_config 1 []))
        (update_config sample_options (sample_config 1 []) new_bucket)"
      by (rule bucket_step.intros)
  qed
  show "\<forall>c m row. bk_config (update_config sample_options (sample_config 1 []) new_bucket) = Some c \<and>
      cfg_vbmap c = Some m \<and> row \<in> set m \<longrightarrow> 0 < length row"
    by (auto simp: update_config_def Let_def decide_config_def sample_bucket split: if_splits)
qed

definition unforced_step :: "bucket_options \<Rightarrow> bucket_state \<Rightarrow> bucket_label \<Rightarrow> bucket_state \<Rightarrow> bool" where
  "unforced_step opts b l b' \<longleftrightarrow> bucket_step opts b l b' \<and> \<not> forced l"

definition at_least :: "configuration \<Rightarrow> bucket_state \<Rightarrow> bool" where
  "at_least c b \<longleftrightarrow> (\<exists>c'. bk_config b = Some c' \<and> \<not> cfg_less c' c)"

lemma accepted_newer:
  "decide_config (Some c) c' = accept_config \<Longrightarrow> \<not> cfg_force c' \<Longrightarrow> cfg_less c c'"
  by (auto simp: decide_config_def split: if_splits)

interpretation newest: stable_property "unforced_step opts" "at_least c" for opts c
proof
  fix b l b' assume b: "at_least c b" and "unforced_step opts b l b'"
  then have "bucket_step opts b l b'" and "\<not> forced l" by (simp_all add: unforced_step_def)
  then show "at_least c b'"
  proof (cases rule: step_config_cases)
    case (taken c')
    with b \<open>\<not> forced l\<close> show ?thesis
      by (auto simp: at_least_def dest!: accepted_newer) (metis cfg_less_trans)
  qed (use b in \<open>simp add: at_least_def\<close>)
qed

text \<open>
  C17: the current configuration never goes back to an older revision: after any sequence of steps
  without a forced configuration it is not older than it was.
\<close>

theorem bucket_config_monotone:
  assumes "bk_config b = Some c" and "reachable (\<lambda>b0. b0 = b) (unforced_step opts) b'"
  shows "\<exists>c'. bk_config b' = Some c' \<and> \<not> cfg_less c' c"
  using newest.P_forever [of c b opts b'] assms by (simp add: at_least_def)

theorem bucket_config_monotone_witness:
  "\<exists>c'. bk_config (update_config sample_options (sample_config 0 [])
           (new_bucket\<lparr>bk_config := Some (sample_config 1 [])\<rparr>)) = Some c' \<and>
     \<not> cfg_less c' (sample_config 1 [])"
proof (rule bucket_config_monotone)
  show "bk_config (new_bucket\<lparr>bk_config := Some (sample_config 1 [])\<rparr>) = Some (sample_config 1 [])"
    by simp
  show "reachable (\<lambda>b0. b0 = new_bucket\<lparr>bk_config := Some (sample_config 1 [])\<rparr>)
      (unforced_step sample_options)
      (update_config sample_options (sample_config 0 []) (new_bucket\<lparr>bk_config := Some (sample_config 1 [])\<rparr>))"
  proof (rule reach_step [OF reach_init])
    show "unforced_step sample_options (new_bucket\<lparr>bk_config := Some (sample_config 1 [])\<rparr>)
        (take_config (sample_config 0 []))
        (update_config sample_options (sample_config 0 []) (new_bucket\<lparr>bk_config := Some (sample_config 1 [])\<rparr>))"
      by (simp add: unforced_step_def bucket_step.intros(1) sample_config_def default_configuration_def)
  qed simp
qed

end
