(* ===== verification/Base64.thy ===== *)
theory Base64
  imports Prelude
begin

text \<open>
  The Base64 codec of \<^verbatim>\<open>core/platform/base64.cc\<close>. The pointer arithmetic over the blob is
  recursion over the list; an exception is \<open>Inl\<close>. Taking the last character of an empty string
  has no result. No character above 127 is a space.
\<close>

subsection \<open>The alphabet\<close>

definition codemap :: string where
  "codemap = ''ABCDEFGHIJKLMNOPQRSTUVWXYZabcdefghijklmnopqrstuvwxyz0123456789+/''"

datatype base64_error = base64_invalid_argument

definition code2val :: "char \<Rightarrow> base64_error + u32" where
  "code2val code =
     (if char_upper code then Inr (of_nat (uchar code - 65))
      else if char_lower code then Inr (of_nat (uchar code - 97) + 26)
      else if char_digit code then Inr (of_nat (uchar code - 48) + 52)
      else if code = CHR ''+'' then Inr 62
      else if code = CHR ''/'' then Inr 63
      else Inl base64_invalid_argument)"

definition sextet :: "u32 \<Rightarrow> nat \<Rightarrow> char" where
  "sextet v k = codemap ! unat (drop_bit k v AND 63)"

subsection \<open>Encoding\<close>

definition encode_triplet :: "byte \<Rightarrow> byte \<Rightarrow> byte \<Rightarrow> string" where
  "encode_triplet a b c =
     (let val = push_bit 16 (ucast a) OR push_bit 8 (ucast b) OR ucast c
      in [sextet val 18, sextet val 12, sextet val 6, sextet val 0])"

fun encode_rest :: "bytes \<Rightarrow> base64_error + string" where
  "encode_rest [a, b] =
     (let val = push_bit 16 (ucast a) OR push_bit 8 (ucast b)
      in Inr [sextet val 18, sextet val 12, sextet val 6, CHR ''=''])"
| "encode_rest [a] =
     (let val = push_bit 16 (ucast a)
      in Inr [sextet val 18, sextet val 12, CHR ''='', CHR ''=''])"
| "encode_rest _ = Inl base64_invalid_argument"

fun encode_chunks :: "bool \<Rightarrow> nat \<Rightarrow> bytes \<Rightarrow> base64_error + string" where
  "encode_chunks pretty_print chunks (a # b # c # rest) =
     map_sum id (\<lambda>result.
       encode_triplet a b c @
       (if pretty_print \<and> (chunks + 1) mod 16 = 0 then [CHR 0x0A] else []) @ result)
     (encode_chunks pretty_print (chunks + 1) rest)"
| "encode_chunks pretty_print chunks rest = (if length rest > 0 then encode_rest rest else Inr [])"

definition base64_encode :: "bytes \<Rightarrow> bool \<Rightarrow> (base64_error + string) run" where
  "base64_encode blob pretty_print =
     (case encode_chunks pretty_print 0 blob of
        Inl e \<Rightarrow> fails e
      | Inr result \<Rightarrow>
          if pretty_print
          then if result = [] then None
               else if last result \<noteq> CHR 0x0A then Some (Inr (result @ [CHR 0x0A]))
               else Some (Inr result)
          else Some (Inr result))"

definition base64_encode_string :: "string \<Rightarrow> bool \<Rightarrow> (base64_error + string) run" where
  "base64_encode_string blob pretty_print =
     base64_encode (map (\<lambda>c. of_nat (uchar c)) blob) pretty_print"

subsection \<open>Decoding\<close>

definition decode_quad :: "char \<Rightarrow> char \<Rightarrow> char \<Rightarrow> char \<Rightarrow> base64_error + bytes" where
  "decode_quad s0 s1 s2 s3 =
     (case code2val s0 of Inl e \<Rightarrow> Inl e | Inr v0 \<Rightarrow>
      case code2val s1 of Inl e \<Rightarrow> Inl e | Inr v1 \<Rightarrow>
      let value = push_bit 18 v0 OR push_bit 12 v1 in
      if s2 = CHR ''='' then Inr [ucast (drop_bit 16 value)]
      else case code2val s2 of Inl e \<Rightarrow> Inl e | Inr v2 \<Rightarrow>
      let value = value OR push_bit 6 v2 in
      if s3 = CHR ''='' then Inr [ucast (drop_bit 16 value), ucast (drop_bit 8 value)]
      else case code2val s3 of Inl e \<Rightarrow> Inl e | Inr v3 \<Rightarrow>
      let value = value OR v3 in
      Inr [ucast (drop_bit 16 value), ucast (drop_bit 8 value), ucast value])"

fun base64_decode :: "string \<Rightarrow> base64_error + bytes" where
  "base64_decode [] = Inr []"
| "base64_decode (s0 # s) =
     (if char_space s0 then base64_decode s
      else case s of
             s1 # s2 # s3 # rest \<Rightarrow>
               (case decode_quad s0 s1 s2 s3 of
                  Inl e \<Rightarrow> Inl e
                | Inr d \<Rightarrow> map_sum id (\<lambda>ds. d @ ds) (base64_decode rest))
           | _ \<Rightarrow> Inl base64_invalid_argument)"

definition decode_to_string :: "string \<Rightarrow> base64_error + string" where
  "decode_to_string blob = map_sum id (map (\<lambda>b. char_of (unat b))) (base64_decode blob)"

subsection \<open>Round trip\<close>

lemma codemap_ok:
  "list_all (\<lambda>i. code2val (codemap ! i) = Inr (of_nat i) \<and> \<not> char_space (codemap ! i) \<and>
     codemap ! i \<noteq> CHR ''='') [0..<64]"
  by code_simp

lemma sextet_index: "unat (drop_bit k v AND 63 :: u32) < 64"
proof -
  have "(63 :: u32) = mask 6" by (simp add: mask_eq_exp_minus_1)
  then have "drop_bit k v AND 63 = take_bit 6 (drop_bit k v)" by (simp add: take_bit_eq_mask)
  then show ?thesis by (simp add: unsigned_take_bit_eq take_bit_nat_def)
qed

lemma sextet_decode:
  "code2val (sextet v k) = Inr (take_bit 6 (drop_bit k v))"
  "\<not> char_space (sextet v k)" "sextet v k \<noteq> CHR ''=''"
proof -
  have "unat (drop_bit k v AND 63) \<in> set [0..<64]" using sextet_index by simp
  from codemap_ok [unfolded list_all_iff, rule_format, OF this]
  have "code2val (sextet v k) = Inr (of_nat (unat (drop_bit k v AND 63)))"
    "\<not> char_space (sextet v k)" "sextet v k \<noteq> CHR ''=''"
    by (simp_all add: sextet_def)
  moreover have "(63 :: u32) = mask 6" by (simp add: mask_eq_exp_minus_1)
  ultimately show "code2val (sextet v k) = Inr (take_bit 6 (drop_bit k v))"
    "\<not> char_space (sextet v k)" "sextet v k \<noteq> CHR ''=''"
    by (simp_all add: take_bit_eq_mask)
qed

lemma sextets_join:
  "push_bit 18 (take_bit 6 (drop_bit 18 v)) OR push_bit 12 (take_bit 6 (drop_bit 12 v)) OR
     push_bit 6 (take_bit 6 (drop_bit 6 v)) OR take_bit 6 v = take_bit 24 (v :: u32)"
  using take_bit_step [of 6 v 6] take_bit_step [of 12 v 6] take_bit_step [of 18 v 6]
  by (simp add: ac_simps)

lemma take_bit_ucast_byte:
  "8 \<le> n \<Longrightarrow> take_bit n (ucast (b :: byte) :: u32) = ucast b"
  by (rule bit_word_eqI) (auto simp: bit_simps dest: byte_bit_bound)

lemma take_bit_24_id:
  fixes a b c :: byte
  shows "take_bit 24 (push_bit 16 (ucast a) OR push_bit 8 (ucast b) OR ucast c :: u32)
      = push_bit 16 (ucast a) OR push_bit 8 (ucast b) OR ucast c"
  by (simp add: take_bit_push_bit take_bit_ucast_byte)

lemma low_sextets_0:
  fixes a b :: byte
  shows "take_bit 6 (push_bit 16 (ucast a) OR push_bit 8 (ucast b) :: u32) = 0"
    and "take_bit 6 (drop_bit 6 (push_bit 16 (ucast a) :: u32)) = 0"
    and "take_bit 6 (push_bit 16 (ucast a) :: u32) = 0"
  by (rule bit_word_eqI; auto simp: bit_simps dest!: byte_bit_bound)+

lemma decode_sextets:
  assumes "take_bit 24 v = v"
  shows "decode_quad (sextet v 18) (sextet v 12) (sextet v 6) (sextet v 0)
      = Inr [ucast (drop_bit 16 v), ucast (drop_bit 8 v), ucast v]"
    and "take_bit 6 v = 0 \<Longrightarrow> decode_quad (sextet v 18) (sextet v 12) (sextet v 6) (CHR ''='')
      = Inr [ucast (drop_bit 16 v), ucast (drop_bit 8 v)]"
    and "take_bit 6 v = 0 \<Longrightarrow> take_bit 6 (drop_bit 6 v) = 0 \<Longrightarrow>
      decode_quad (sextet v 18) (sextet v 12) (CHR ''='') (CHR ''='') = Inr [ucast (drop_bit 16 v)]"
  using sextets_join [of v] assms
  by (simp_all add: decode_quad_def sextet_decode Let_def or.assoc del: drop_bit_or)

lemma decode_triplet:
  "encode_triplet a b c = [s0, s1, s2, s3] \<Longrightarrow> decode_quad s0 s1 s2 s3 = Inr [a, b, c]"
  using decode_sextets(1) [OF take_bit_24_id [of a b c]]
  by (auto simp: encode_triplet_def Let_def byte_of_shifts)

lemma decode_rest_2:
  "encode_rest [a, b] = Inr [s0, s1, s2, s3] \<Longrightarrow> decode_quad s0 s1 s2 s3 = Inr [a, b]"
  using decode_sextets(2) [OF take_bit_24_id [of a b 0]] low_sextets_0(1) [of a b]
  by (auto simp: Let_def byte_of_shifts simp del: take_bit_or)

lemma decode_rest_1:
  "encode_rest [a] = Inr [s0, s1, s2, s3] \<Longrightarrow> decode_quad s0 s1 s2 s3 = Inr [a]"
  using decode_sextets(3) [OF take_bit_24_id [of a 0 0]] low_sextets_0(2,3) [of a]
  by (auto simp: Let_def byte_of_shifts)

lemma base64_decode_quad:
  assumes "\<not> char_space s0" and "decode_quad s0 s1 s2 s3 = Inr d"
  shows "base64_decode (s0 # s1 # s2 # s3 # rest) = map_sum id (\<lambda>ds. d @ ds) (base64_decode rest)"
  using assms by simp

lemma base64_decode_triplet:
  "base64_decode (encode_triplet a b c @ rest) =
     map_sum id (\<lambda>ds. a # b # c # ds) (base64_decode rest)"
proof -
  obtain s0 s1 s2 s3 where s: "encode_triplet a b c = [s0, s1, s2, s3]" "\<not> char_space s0"
    by (simp add: encode_triplet_def Let_def sextet_decode)
  show ?thesis
    using base64_decode_quad [OF s(2) decode_triplet [OF s(1)], of rest] by (simp add: s(1))
qed

lemma base64_decode_rest:
  assumes "length bs \<in> {1, 2}"
  obtains q where "encode_rest bs = Inr q" and "q \<noteq> []"
    and "\<And>rest. base64_decode (q @ rest) = map_sum id (\<lambda>ds. bs @ ds) (base64_decode rest)"
proof -
  from assms consider a where "bs = [a]" | a b where "bs = [a, b]"
    by (auto simp: length_2_conv length_Suc_conv numeral_2_eq_2)
  then obtain s0 s1 s2 s3 where q: "encode_rest bs = Inr [s0, s1, s2, s3]" "\<not> char_space s0"
    "decode_quad s0 s1 s2 s3 = Inr bs"
    by cases (simp_all add: Let_def sextet_decode decode_rest_1 decode_rest_2)
  show ?thesis using that [OF q(1)] base64_decode_quad [OF q(2,3)] by simp
qed

lemma map_sum_id_Inr [simp]: "map_sum id f (Inr x) = Inr (f x)"
  by simp

lemma base64_decode_spaces: "\<forall>c \<in> set ws. char_space c \<Longrightarrow> base64_decode ws = Inr []"
  by (induction ws) simp_all

lemma base64_decode_newline: "base64_decode (CHR 0x0A # s) = base64_decode s"
  by (simp add: char_space_def uchar_def)

lemma encode_triplet_nonempty [simp]: "encode_triplet a b c \<noteq> []"
  by (simp add: encode_triplet_def Let_def)

definition decodes_to :: "string \<Rightarrow> bytes \<Rightarrow> bool" where
  "decodes_to s bs \<longleftrightarrow>
     (bs \<noteq> [] \<longrightarrow> s \<noteq> []) \<and>
     (\<forall>ws. (\<forall>c \<in> set ws. char_space c) \<longrightarrow> base64_decode (s @ ws) = Inr bs)"

lemma decodes_to_triplet:
  assumes "decodes_to s bs"
  shows "decodes_to (encode_triplet a b c @ s) (a # b # c # bs)"
    and "decodes_to (encode_triplet a b c @ CHR 0x0A # s) (a # b # c # bs)"
  using assms by (simp_all add: decodes_to_def base64_decode_triplet base64_decode_newline
      del: base64_decode.simps)

lemma decodes_to_ending:
  "decodes_to s bs \<Longrightarrow> base64_decode s = Inr bs \<and> base64_decode (s @ [CHR 0x0A]) = Inr bs"
  unfolding decodes_to_def
  by (elim conjE, frule spec [of _ "[]"], drule spec [of _ "[CHR 0x0A]"])
    (simp add: char_space_def uchar_def)

lemma decodes_to_rest:
  assumes "length bs \<in> {1, 2}"
  shows "\<exists>q. encode_rest bs = Inr q \<and> decodes_to q bs"
proof -
  obtain q where "encode_rest bs = Inr q" and "q \<noteq> []"
    and "\<And>rest. base64_decode (q @ rest) = map_sum id (\<lambda>ds. bs @ ds) (base64_decode rest)"
    by (rule base64_decode_rest [OF assms]) blast
  then show ?thesis by (auto simp: decodes_to_def base64_decode_spaces)
qed

lemma encode_chunks_short:
  assumes "length bs < 3"
  shows "\<exists>s. encode_chunks pretty n bs = Inr s \<and> decodes_to s bs"
proof -
  consider "bs = []" | a where "bs = [a]" | a b where "bs = [a, b]"
    using assms by (cases bs rule: remdups_adj.cases) auto
  then show ?thesis
  proof cases
    case 1
    then show ?thesis by (simp add: decodes_to_def base64_decode_spaces)
  next
    case (2 a)
    then show ?thesis using decodes_to_rest [of "[a]"] by simp
  next
    case (3 a b)
    then show ?thesis using decodes_to_rest [of "[a, b]"] by simp
  qed
qed

lemma encode_chunks_decode: "\<exists>s. encode_chunks pretty n bs = Inr s \<and> decodes_to s bs"
proof (induction pretty n bs rule: encode_chunks.induct)
  case (1 pretty n a b c rest)
  then obtain s where "encode_chunks pretty (n + 1) rest = Inr s" "decodes_to s rest" by blast
  then show ?case by (auto intro!: decodes_to_triplet)
qed (rule encode_chunks_short, simp)+

text \<open>
  C33: decoding reverses encoding for every blob, in the compact and in the pretty-printed form;
  the only blob with no encoding is the empty one in the pretty-printed form, where the code takes
  the last character of an empty string.
\<close>

theorem base64_roundtrip:
  "if pretty \<and> blob = [] then base64_encode blob pretty = None
   else \<exists>s. base64_encode blob pretty = Some (Inr s) \<and> base64_decode s = Inr blob"
proof -
  obtain s where s: "encode_chunks pretty 0 blob = Inr s" "decodes_to s blob"
    using encode_chunks_decode by blast
  have "s \<noteq> []" if "blob \<noteq> []" using s(2) that by (simp add: decodes_to_def)
  then show ?thesis using s(1) decodes_to_ending [OF s(2)]
    by (cases "blob = []") (simp_all add: base64_encode_def)
qed

subsection \<open>Strings\<close>

lemma sextet_in_codemap: "sextet v k \<in> set codemap"
  unfolding sextet_def by (rule nth_mem) (use sextet_index [of k v] in \<open>simp add: codemap_def\<close>)

lemma encode_chunks_chars:
  "encode_chunks False n bs = Inr s \<Longrightarrow> set s \<subseteq> set codemap \<union> {CHR ''=''}"
proof (induction False n bs arbitrary: s rule: encode_chunks.induct)
  case (1 n a b c rest)
  then show ?case
    by (cases "encode_chunks False (n + 1) rest")
      (auto simp: encode_triplet_def Let_def sextet_in_codemap)
qed (auto simp: Let_def sextet_in_codemap)

lemma bytes_of_chars:
  "map (\<lambda>b. char_of (unat b)) (map (\<lambda>c. of_nat (uchar c) :: byte) s) = s"
  by (simp add: comp_def map_idI)

lemma base64_string:
  obtains t where "base64_encode_string s False = Some (Inr t)" and "decode_to_string t = Inr s"
    and "CHR '','' \<notin> set t"
proof -
  let ?b = "map (\<lambda>c. of_nat (uchar c) :: byte) s"
  obtain t where t: "encode_chunks False 0 ?b = Inr t" "decodes_to t ?b"
    using encode_chunks_decode by blast
  have "CHR '','' \<notin> set t" using encode_chunks_chars [OF t(1)] by (auto simp: codemap_def)
  moreover have "decode_to_string t = Inr s"
    using decodes_to_ending [OF t(2)] bytes_of_chars [of s] by (simp add: decode_to_string_def)
  ultimately show ?thesis
    using that t(1) by (simp add: base64_encode_string_def base64_encode_def)
qed

end
