(* ===== verification/Sasl.thy ===== *)
theory Sasl
  imports Base64 Std_String Ordered_Map Protocol
begin

text \<open>
  SASL authentication: the choice of the mechanism (\<^verbatim>\<open>core/sasl/mechanism.cc\<close>), PLAIN and
  OAUTHBEARER, the SCRAM client of \<^verbatim>\<open>core/sasl/scram-sha\<close> and the part of the session bootstrap
  that drives it (\<^verbatim>\<open>core/io/mcbp_session.cxx\<close>). HMAC, the digest and PBKDF2 belong to the
  cryptographic library and are parameters. A C++ exception is \<open>Inl\<close>; reading past the end of the
  client signature has no result.
\<close>

subsection \<open>Mechanisms\<close>

datatype sasl_error =
  sasl_OK | sasl_CONTINUE | sasl_FAIL | sasl_BAD_PARAM | sasl_NO_MEM | sasl_NO_MECH | sasl_NO_USER
  | sasl_PASSWORD_ERROR | sasl_NO_RBAC_PROFILE | sasl_AUTH_PROVIDER_DIED

datatype mechanism = SCRAM_SHA512 | SCRAM_SHA256 | SCRAM_SHA1 | PLAIN | OAUTHBEARER

datatype sasl_exception =
  exn_unknown_mechanism | exn_logic_error | exn_invalid_argument | exn_runtime_error

definition mechs :: "(string \<times> mechanism) list" where
  "mechs = [(''SCRAM-SHA512'', SCRAM_SHA512), (''SCRAM-SHA256'', SCRAM_SHA256),
     (''SCRAM-SHA1'', SCRAM_SHA1), (''PLAIN'', PLAIN), (''OAUTHBEARER'', OAUTHBEARER)]"

definition select_mechanism :: "string list \<Rightarrow> sasl_exception + mechanism" where
  "select_mechanism available_mechanisms =
     (case List.find (\<lambda>(name, code). name \<in> set available_mechanisms) mechs of
        Some (name, code) \<Rightarrow> Inr code
      | None \<Rightarrow> Inl exn_unknown_mechanism)"

definition plain_start :: "string \<Rightarrow> string \<Rightarrow> sasl_error \<times> string" where
  "plain_start usernm passwd = (sasl_OK, [CHR 0x00] @ usernm @ [CHR 0x00] @ passwd)"

definition oauthbearer_start :: "string \<Rightarrow> sasl_error \<times> string" where
  "oauthbearer_start token =
     (sasl_OK, ''n,,'' @ [CHR 0x01] @ ''auth=Bearer '' @ token @ [CHR 0x01, CHR 0x01])"

definition sasl_mechanisms :: "string list option \<Rightarrow> bool \<Rightarrow> bool \<Rightarrow> string list" where
  "sasl_mechanisms allowed uses_jwt is_tls =
     (case allowed of
        Some user_mechanisms \<Rightarrow> user_mechanisms
      | None \<Rightarrow>
          if uses_jwt then [''OAUTHBEARER'']
          else if is_tls then [''PLAIN'']
          else [''SCRAM-SHA512'', ''SCRAM-SHA256'', ''SCRAM-SHA1''])"

subsection \<open>Names\<close>

definition char_cntrl :: "char \<Rightarrow> bool" where
  "char_cntrl c \<longleftrightarrow> uchar c < 32 \<or> uchar c = 127"

definition char_print :: "char \<Rightarrow> bool" where
  "char_print c \<longleftrightarrow> 32 \<le> uchar c \<and> uchar c < 127"

fun sasl_prep :: "string \<Rightarrow> sasl_exception + string" where
  "sasl_prep [] = Inr []"
| "sasl_prep (c # s) =
     (if uchar c AND 0x80 \<noteq> 0 then Inl exn_runtime_error
      else if char_cntrl c then Inl exn_runtime_error
      else map_sum id (\<lambda>t. c # t) (sasl_prep s))"

text \<open>
  The replacement loop over a string and an index; \<^verbatim>\<open>find_first_of\<close> starts at the index and
  returns none at the end.
\<close>

definition find_first_of :: "char set \<Rightarrow> string \<Rightarrow> nat \<Rightarrow> nat option" where
  "find_first_of cs s index =
     (let i = index + length (takeWhile (\<lambda>c. c \<notin> cs) (drop index s))
      in if i < length s then Some i else None)"

definition specials :: "char set" where
  "specials = {CHR '','', CHR ''=''}"

definition special_count :: "string \<Rightarrow> nat" where
  "special_count s = length (filter (\<lambda>c. c \<in> specials) s)"

definition replace_special :: "string \<Rightarrow> nat \<Rightarrow> string" where
  "replace_special ret index =
     take index ret @ (if ret ! index = CHR '','' then ''=2C'' else ''=3D'') @ drop (index + 1) ret"

lemma find_first_of_Some:
  assumes "find_first_of cs s index = Some i"
  shows "index \<le> i \<and> i < length s \<and> s ! i \<in> cs \<and>
    drop index s = takeWhile (\<lambda>c. c \<notin> cs) (drop index s) @ s ! i # drop (i + 1) s"
proof -
  let ?w = "takeWhile (\<lambda>c. c \<notin> cs) (drop index s)"
  from assms have i: "i = index + length ?w" "i < length s"
    by (auto simp: find_first_of_def Let_def split: if_splits)
  then have "length ?w < length (drop index s)" by simp
  then have "drop index s ! length ?w \<in> cs" using nth_length_takeWhile by blast
  moreover have "drop index s ! length ?w = s ! i" using i by simp
  moreover have "drop index s = ?w @ drop (length ?w) (drop index s)"
    by (metis append_take_drop_id takeWhile_eq_take)
  moreover have "drop (length ?w) (drop index s) = s ! i # drop (i + 1) s"
    using i by (simp add: Cons_nth_drop_Suc add.commute)
  ultimately show ?thesis using i by simp
qed

lemma special_count_replace:
  assumes "find_first_of specials ret index = Some i"
  shows "special_count (drop (i + 1) (replace_special ret i)) < special_count (drop index ret)"
proof -
  from find_first_of_Some [OF assms] have i: "i < length ret" "ret ! i \<in> specials"
    and split: "drop index ret = takeWhile (\<lambda>c. c \<notin> specials) (drop index ret) @ ret ! i # drop (i + 1) ret"
    by auto
  have "drop (i + 1) (replace_special ret i) = (if ret ! i = CHR '','' then ''2C'' else ''3D'') @ drop (i + 1) ret"
    using i by (simp add: replace_special_def)
  then have "special_count (drop (i + 1) (replace_special ret i)) = special_count (drop (i + 1) ret)"
    by (simp add: special_count_def specials_def)
  also have "\<dots> < special_count (drop index ret)"
    using i(2) by (subst split) (simp add: special_count_def)
  finally show ?thesis .
qed

function encode_username_loop :: "string \<Rightarrow> nat \<Rightarrow> string" where
  "encode_username_loop ret index =
     (case find_first_of specials ret index of
        None \<Rightarrow> ret
      | Some i \<Rightarrow> encode_username_loop (replace_special ret i) (i + 1))"
  by auto
termination
  by (relation "measure (\<lambda>(ret, index). special_count (drop index ret))")
    (auto dest: special_count_replace)

declare encode_username_loop.simps [simp del]

definition encode_username :: "string \<Rightarrow> string" where
  "encode_username username = encode_username_loop username 0"

subsection \<open>Attributes\<close>

type_synonym attribute_map = "(int, string) omap"

text \<open>The keys are ordered as signed characters.\<close>

definition schar :: "char \<Rightarrow> int" where
  "schar c = (if uchar c < 128 then int (uchar c) else int (uchar c) - 256)"

function decodeAttributeList :: "string \<Rightarrow> attribute_map \<Rightarrow> attribute_map option" where
  "decodeAttributeList list attributes =
     (if list = [] then Some attributes
      else let equal = length (takeWhile (\<lambda>c. c \<noteq> CHR ''='') list) in
           if equal = length list then None
           else if equal \<noteq> 1 then None
           else let key = schar (list ! 0); rest = drop 2 list in
                if om_find attributes key \<noteq> None then None
                else let val = takeWhile (\<lambda>c. c \<noteq> CHR '','') rest in
                     decodeAttributeList (drop (length val + 1) rest) (om_assign key val attributes))"
  by auto
termination
  by (relation "measure (\<lambda>(list, attributes). length list)") auto

declare decodeAttributeList.simps [simp del]

text \<open>What one attribute adds to a message, without the separator.\<close>

definition addAttribute :: "char \<Rightarrow> string \<Rightarrow> bool \<Rightarrow> (sasl_exception + string) run" where
  "addAttribute key val more =
     (let finish = (\<lambda>s. Some (Inr ([key] @ ''='' @ s @ (if more then '','' else []))));
          printable = (if list_ex (\<lambda>c. c = CHR '','' \<or> \<not> char_print c) val
                       then fails exn_invalid_argument else finish val)
      in if key = CHR ''n''
         then (case sasl_prep val of Inl e \<Rightarrow> fails e | Inr s \<Rightarrow> finish (encode_username s))
         else if key = CHR ''r'' then printable
         else if key \<in> {CHR ''c'', CHR ''s'', CHR ''p'', CHR ''v''}
         then (case base64_encode_string val False of
                 None \<Rightarrow> None
               | Some (Inl e) \<Rightarrow> fails exn_invalid_argument
               | Some (Inr s) \<Rightarrow> finish s)
         else if key = CHR ''i''
         then (case stoi val of Inl e \<Rightarrow> fails exn_invalid_argument | Inr i \<Rightarrow> finish val)
         else if key = CHR ''e'' then printable
         else fails exn_invalid_argument)"

subsection \<open>SCRAM\<close>

record crypto =
  cr_hmac :: "string \<Rightarrow> string \<Rightarrow> string"
  cr_digest :: "string \<Rightarrow> string"
  cr_pbkdf2 :: "string \<Rightarrow> string \<Rightarrow> u32 \<Rightarrow> string option"

record scram_client =
  client_first_message :: string
  client_first_message_bare :: string
  client_final_message :: string
  client_final_message_without_proof :: string
  server_first_message :: string
  server_final_message :: string
  clientNonce :: string
  nonce :: string
  saltedPassword :: string
  salt :: string
  iterationCount :: u32

definition new_scram_client :: "string \<Rightarrow> scram_client" where
  "new_scram_client random_nonce = \<lparr>client_first_message = [], client_first_message_bare = [],
     client_final_message = [], client_final_message_without_proof = [],
     server_first_message = [], server_final_message = [], clientNonce = random_nonce, nonce = [],
     saltedPassword = [], salt = [], iterationCount = 4096\<rparr>"

definition getSaltedPassword :: "scram_client \<Rightarrow> sasl_exception + string" where
  "getSaltedPassword c =
     (if saltedPassword c = [] then Inl exn_logic_error else Inr (saltedPassword c))"

definition getAuthMessage :: "scram_client \<Rightarrow> sasl_exception + string" where
  "getAuthMessage c =
     (if client_first_message_bare c = [] then Inl exn_logic_error
      else if server_first_message c = [] then Inl exn_logic_error
      else if client_final_message_without_proof c = [] then Inl exn_logic_error
      else Inr (client_first_message_bare c @ '','' @ server_first_message c @ '','' @
                client_final_message_without_proof c))"

definition getServerSignature :: "crypto \<Rightarrow> scram_client \<Rightarrow> sasl_exception + string" where
  "getServerSignature cr c =
     (case getSaltedPassword c of Inl e \<Rightarrow> Inl e | Inr sp \<Rightarrow>
      case getAuthMessage c of Inl e \<Rightarrow> Inl e | Inr m \<Rightarrow>
        Inr (cr_hmac cr (cr_hmac cr sp ''Server Key'') m))"

definition char_xor :: "char \<Rightarrow> char \<Rightarrow> char" where
  "char_xor c d = char_of (uchar c XOR uchar d)"

fun xor_loop :: "string \<Rightarrow> string \<Rightarrow> string run" where
  "xor_loop [] cs = Some []"
| "xor_loop (k # ck) [] = None"
| "xor_loop (k # ck) (s # cs) = map_option (\<lambda>p. char_xor k s # p) (xor_loop ck cs)"

definition getClientProof :: "crypto \<Rightarrow> scram_client \<Rightarrow> (sasl_exception + string) run" where
  "getClientProof cr c =
     (case getSaltedPassword c of Inl e \<Rightarrow> fails e | Inr sp \<Rightarrow>
      case getAuthMessage c of Inl e \<Rightarrow> fails e | Inr m \<Rightarrow>
        let clientKey = cr_hmac cr sp ''Client Key'';
            clientSignature = cr_hmac cr (cr_digest cr clientKey) m
        in map_option Inr (xor_loop clientKey clientSignature))"

definition scram_start :: "string \<Rightarrow> scram_client \<Rightarrow> ((sasl_exception + sasl_error \<times> string) \<times> scram_client) run" where
  "scram_start username c = do {
     n \<leftarrow> addAttribute (CHR ''n'') username True;
     r \<leftarrow> addAttribute (CHR ''r'') (clientNonce c) False;
     Some (case n of Inl e \<Rightarrow> (Inl e, c) | Inr n \<Rightarrow>
           case r of Inl e \<Rightarrow> (Inl e, c) | Inr r \<Rightarrow>
             let c = c\<lparr>client_first_message := ''n,,'' @ n @ r,
                       client_first_message_bare := n @ r\<rparr>
             in (Inr (sasl_OK, client_first_message c), c)) }"

datatype attribute_outcome =
  attributes_taken | attributes_rejected | attributes_thrown sasl_exception

fun take_attributes :: "attribute_map \<Rightarrow> scram_client \<Rightarrow> attribute_outcome \<times> scram_client" where
  "take_attributes [] c = (attributes_taken, c)"
| "take_attributes ((key, val) # attributes) c =
     (if key = schar (CHR ''r'') then take_attributes attributes (c\<lparr>nonce := val\<rparr>)
      else if key = schar (CHR ''s'')
      then (case decode_to_string val of
              Inl e \<Rightarrow> (attributes_thrown exn_invalid_argument, c)
            | Inr s \<Rightarrow> take_attributes attributes (c\<lparr>salt := s\<rparr>))
      else if key = schar (CHR ''i'')
      then (case stoul val of
              Inl e \<Rightarrow> (attributes_rejected, c)
            | Inr i \<Rightarrow> take_attributes attributes (c\<lparr>iterationCount := ucast i\<rparr>))
      else (attributes_rejected, c))"

definition generateSaltedPassword :: "crypto \<Rightarrow> string \<Rightarrow> scram_client \<Rightarrow> bool \<times> scram_client" where
  "generateSaltedPassword cr secret c =
     (case cr_pbkdf2 cr secret (salt c) (iterationCount c) of
        Some sp \<Rightarrow> (True, c\<lparr>saltedPassword := sp\<rparr>)
      | None \<Rightarrow> (False, c))"

type_synonym step_result = "(sasl_exception + sasl_error \<times> string) \<times> scram_client"

definition client_final :: "crypto \<Rightarrow> scram_client \<Rightarrow> step_result run" where
  "client_final cr c = do {
     ch \<leftarrow> addAttribute (CHR ''c'') ''n,,'' True;
     r \<leftarrow> addAttribute (CHR ''r'') (nonce c) False;
     case ch of Inl e \<Rightarrow> Some (Inl e, c) | Inr ch \<Rightarrow>
     case r of Inl e \<Rightarrow> Some (Inl e, c) | Inr r \<Rightarrow>
     let c = c\<lparr>client_final_message_without_proof := ch @ r\<rparr> in do {
       pf \<leftarrow> getClientProof cr c;
       case pf of Inl e \<Rightarrow> Some (Inl e, c) | Inr pf \<Rightarrow> do {
         p \<leftarrow> addAttribute (CHR ''p'') pf False;
         case p of Inl e \<Rightarrow> Some (Inl e, c) | Inr p \<Rightarrow>
         let c = c\<lparr>client_final_message := ch @ r @ '','' @ p\<rparr> in
         Some (Inr (sasl_CONTINUE, client_final_message c), c) } } }"

definition server_first :: "crypto \<Rightarrow> string \<Rightarrow> string \<Rightarrow> scram_client \<Rightarrow> step_result run" where
  "server_first cr password input c =
     (let c = c\<lparr>server_first_message := input\<rparr> in
      case decodeAttributeList input [] of
        None \<Rightarrow> Some (Inr (sasl_BAD_PARAM, []), c)
      | Some attributes \<Rightarrow>
          (case take_attributes attributes c of
             (attributes_thrown e, c) \<Rightarrow> Some (Inl e, c)
           | (attributes_rejected, c) \<Rightarrow> Some (Inr (sasl_BAD_PARAM, []), c)
           | (attributes_taken, c) \<Rightarrow>
               if om_find attributes (schar (CHR ''r'')) = None \<or>
                  om_find attributes (schar (CHR ''s'')) = None \<or>
                  om_find attributes (schar (CHR ''i'')) = None
               then Some (Inr (sasl_BAD_PARAM, []), c)
               else case generateSaltedPassword cr password c of
                      (False, c) \<Rightarrow> Some (Inr (sasl_FAIL, []), c)
                    | (True, c) \<Rightarrow> client_final cr c))"

definition server_final :: "crypto \<Rightarrow> string \<Rightarrow> scram_client \<Rightarrow> step_result run" where
  "server_final cr input c =
     (let c = c\<lparr>server_final_message := input\<rparr> in
      case decodeAttributeList input [] of
        None \<Rightarrow> Some (Inr (sasl_BAD_PARAM, []), c)
      | Some attributes \<Rightarrow>
          if om_find attributes (schar (CHR ''e'')) \<noteq> None then Some (Inr (sasl_FAIL, []), c)
          else case om_find attributes (schar (CHR ''v'')) of
                 None \<Rightarrow> Some (Inr (sasl_BAD_PARAM, []), c)
               | Some v \<Rightarrow>
                   (case getServerSignature cr c of
                      Inl e \<Rightarrow> Some (Inl e, c)
                    | Inr sig \<Rightarrow>
                        (case base64_encode_string sig False of
                           None \<Rightarrow> None
                         | Some (Inl e) \<Rightarrow> Some (Inl exn_invalid_argument, c)
                         | Some (Inr encoded) \<Rightarrow>
                             if encoded \<noteq> v then Some (Inr (sasl_FAIL, []), c)
                             else Some (Inr (sasl_OK, []), c))))"

definition scram_step :: "crypto \<Rightarrow> string \<Rightarrow> string \<Rightarrow> scram_client \<Rightarrow> step_result run" where
  "scram_step cr password input c =
     (if input = [] then Some (Inr (sasl_BAD_PARAM, []), c)
      else if server_first_message c = [] then server_first cr password input c
      else server_final cr input c)"

subsection \<open>The bootstrap of a session\<close>

datatype auth_outcome = auth_success | auth_send_step string | auth_failure

text \<open>The answers to \<^verbatim>\<open>SASL_AUTH\<close> and \<^verbatim>\<open>SASL_STEP\<close>.\<close>

definition on_sasl_auth ::
  "crypto \<Rightarrow> string \<Rightarrow> key_value_status_code \<Rightarrow> string \<Rightarrow> scram_client \<Rightarrow>
   ((sasl_exception + auth_outcome) \<times> scram_client) run" where
  "on_sasl_auth cr password status val c =
     (if status = status_success then Some (Inr auth_success, c)
      else if status = status_auth_continue
      then do {
        (r, c) \<leftarrow> scram_step cr password val c;
        Some (case r of
                Inl e \<Rightarrow> (Inl e, c)
              | Inr (code, payload) \<Rightarrow>
                  (Inr (if code = sasl_OK then auth_success
                        else if code = sasl_CONTINUE then auth_send_step payload
                        else auth_failure), c)) }
      else Some (Inr auth_failure, c))"

definition on_sasl_step ::
  "key_value_status_code \<Rightarrow> string \<Rightarrow> scram_client \<Rightarrow> auth_outcome \<times> scram_client" where
  "on_sasl_step status val c =
     (if status = status_success then (auth_success, c) else (auth_failure, c))"

subsection \<open>Escaped user names\<close>

definition escape_char :: "char \<Rightarrow> string" where
  "escape_char c =
     (if c = CHR '','' then ''=2C'' else if c = CHR ''='' then ''=3D'' else [c])"

lemma find_first_of_skip:
  "c \<notin> cs \<Longrightarrow> find_first_of cs (pre @ c # s) (length pre) = find_first_of cs (pre @ c # s) (Suc (length pre))"
  by (simp add: find_first_of_def)

lemma encode_username_skip:
  assumes "c \<notin> specials"
  shows "encode_username_loop (pre @ c # s) (length pre) = encode_username_loop (pre @ c # s) (Suc (length pre))"
  using find_first_of_skip [OF assms, of pre s]
  by (subst (1 2) encode_username_loop.simps) simp

lemma encode_username_hit:
  assumes "c \<in> specials"
  shows "encode_username_loop (pre @ c # s) (length pre) =
    encode_username_loop ((pre @ ''='') @ tl (escape_char c) @ s) (length (pre @ ''=''))"
  using assms
  by (subst encode_username_loop.simps)
    (auto simp: find_first_of_def replace_special_def escape_char_def specials_def)

lemma encode_username_loop_eq:
  "encode_username_loop (pre @ s) (length pre) = pre @ concat (map escape_char s)"
proof (induction s arbitrary: pre)
  case Nil
  show ?case by (subst encode_username_loop.simps) (simp add: find_first_of_def)
next
  case (Cons c s)
  show ?case
  proof (cases "c \<in> specials")
    case True
    then obtain x d where e: "escape_char c = [CHR ''='', x, d]" and xd: "x \<notin> specials" "d \<notin> specials"
      by (auto simp: specials_def escape_char_def)
    have "encode_username_loop (pre @ c # s) (length pre) =
        encode_username_loop ((pre @ ''='') @ x # d # s) (length (pre @ ''=''))"
      using encode_username_hit [OF True, of pre s] by (simp add: e)
    also have "\<dots> = encode_username_loop ((pre @ [CHR ''='', x]) @ d # s) (length (pre @ [CHR ''='', x]))"
      using encode_username_skip [OF xd(1), of "pre @ ''=''" "d # s"] by simp
    also have "\<dots> = encode_username_loop ((pre @ [CHR ''='', x, d]) @ s) (length (pre @ [CHR ''='', x, d]))"
      using encode_username_skip [OF xd(2), of "pre @ [CHR ''='', x]" s] by simp
    finally show ?thesis using Cons.IH [of "pre @ [CHR ''='', x, d]"] by (simp add: e)
  next
    case False
    then have "escape_char c = [c]" by (auto simp: specials_def escape_char_def)
    then show ?thesis
      using Cons.IH [of "pre @ [c]"] encode_username_skip [OF False, of pre s] by simp
  qed
qed

text \<open>
  the replacement loop over the growing user name stops and replaces every comma and every equals
  sign of the name by its escape, nothing else; no comma is left.
\<close>

theorem encode_username_escapes:
  "encode_username s = concat (map escape_char s) \<and> CHR '','' \<notin> set (encode_username s)"
proof -
  have "encode_username s = concat (map escape_char s)"
    using encode_username_loop_eq [of "[]" s] by (simp add: encode_username_def)
  moreover have "CHR '','' \<notin> set (escape_char c)" for c by (simp add: escape_char_def)
  ultimately show ?thesis by simp
qed

subsection \<open>The server is accepted only with its signature\<close>

lemma client_final_code:
  "client_final cr c = Some (Inr (code, out), c') \<Longrightarrow> code = sasl_CONTINUE"
  by (auto simp: client_final_def Let_def split: bind_splits sum.splits)

lemma server_first_code:
  "server_first cr pw input c = Some (Inr (code, out), c') \<Longrightarrow> code \<noteq> sasl_OK"
  by (auto simp: server_first_def Let_def split: option.splits prod.splits attribute_outcome.splits
      if_splits bool.splits dest: client_final_code)

text \<open>
  C22: a step of the client reports success only for a message from the server that carries the
  encoded server signature over the whole exchange, computed from the salted password, and only
  after a first message from the server was taken.
\<close>

theorem scram_accepts_signature:
  assumes "scram_step cr pw input c = Some (Inr (sasl_OK, out), c')"
  shows "server_first_message c \<noteq> [] \<and> saltedPassword c \<noteq> [] \<and>
    (\<exists>attributes v.
       decodeAttributeList input [] = Some attributes \<and>
       om_find attributes (schar (CHR ''v'')) = Some v \<and>
       base64_encode_string
         (cr_hmac cr (cr_hmac cr (saltedPassword c) ''Server Key'')
           (client_first_message_bare c @ '','' @ server_first_message c @ '','' @
            client_final_message_without_proof c)) False = Some (Inr v))"
  using assms
  by (auto simp: scram_step_def server_final_def Let_def getServerSignature_def getSaltedPassword_def
      getAuthMessage_def split: if_splits option.splits sum.splits dest: server_first_code)

subsection \<open>The proof convinces the server\<close>

text \<open>What a server that stores the digest of the client key checks.\<close>

definition server_accepts :: "crypto \<Rightarrow> string \<Rightarrow> string \<Rightarrow> string \<Rightarrow> bool" where
  "server_accepts cr storedKey authMessage pf \<longleftrightarrow>
     (case xor_loop pf (cr_hmac cr storedKey authMessage) of
        None \<Rightarrow> False
      | Some key \<Rightarrow> cr_digest cr key = storedKey)"

lemma uchar_xor_less: "uchar c XOR uchar d < 256"
proof -
  have "take_bit 8 (uchar c XOR uchar d) = uchar c XOR uchar d"
    by (simp add: take_bit_nat_eq_self)
  then show ?thesis using take_bit_nat_less_exp [of 8 "uchar c XOR uchar d"] by simp
qed

lemma char_xor_cancel [simp]: "char_xor (char_xor c d) d = c"
  by (simp add: char_xor_def uchar_xor_less xor.assoc)

lemma xor_loop_inverse: "xor_loop ck cs = Some p \<Longrightarrow> xor_loop p cs = Some ck"
  by (induction ck cs arbitrary: p rule: xor_loop.induct) auto

lemma decode_attribute_last:
  "k \<noteq> CHR ''='' \<Longrightarrow> CHR '','' \<notin> set v \<Longrightarrow> om_find attributes (schar k) = None \<Longrightarrow>
   decodeAttributeList (k # CHR ''='' # v) attributes = Some (om_assign (schar k) v attributes)"
proof -
  assume "k \<noteq> CHR ''=''" "CHR '','' \<notin> set v" "om_find attributes (schar k) = None"
  moreover from this(2) have v: "takeWhile (\<lambda>c. c \<noteq> CHR '','') v = v"
    by (auto simp: takeWhile_eq_all_conv)
  ultimately show ?thesis
    by (subst decodeAttributeList.simps) (simp add: v decodeAttributeList.simps [of "[]"])
qed

lemma takeWhile_no_comma: "CHR '','' \<notin> set v \<Longrightarrow> takeWhile (\<lambda>c. c \<noteq> CHR '','') (v @ CHR '','' # rest) = v"
  by (subst takeWhile_append2) auto

lemma decode_attribute_more:
  "k \<noteq> CHR ''='' \<Longrightarrow> CHR '','' \<notin> set v \<Longrightarrow> om_find attributes (schar k) = None \<Longrightarrow>
   decodeAttributeList (k # CHR ''='' # v @ CHR '','' # rest) attributes =
     decodeAttributeList rest (om_assign (schar k) v attributes)"
  by (subst decodeAttributeList.simps) (simp add: takeWhile_no_comma)

lemma schar_inject [simp]: "schar a = schar b \<longleftrightarrow> a = b"
  using uchar_inj [of a b] uchar_less [of a] uchar_less [of b] by (auto simp: schar_def simp del: uchar_less split: if_splits)

lemma addAttribute_encoded:
  assumes "key \<in> {CHR ''c'', CHR ''p''}"
  obtains t where "addAttribute key val sep = Some (Inr (key # CHR ''='' # t @ (if sep then '','' else [])))"
    and "decode_to_string t = Inr val" and "CHR '','' \<notin> set t"
proof -
  obtain t where "base64_encode_string val False = Some (Inr t)" "decode_to_string t = Inr val"
    "CHR '','' \<notin> set t" by (rule base64_string)
  then show ?thesis using that assms by (auto simp: addAttribute_def Let_def)
qed

lemma addAttribute_nonce:
  "addAttribute (CHR ''r'') v False = Some (Inr r) \<Longrightarrow> r = ''r='' @ v \<and> CHR '','' \<notin> set v"
  by (auto simp: addAttribute_def Let_def fails_def list_ex_iff split: if_splits)

lemma client_final_shape:
  assumes "client_final cr c = Some (Inr (code, msg), c')"
  obtains t p pf where "msg = ''c='' @ t @ '',r='' @ nonce c @ '',p='' @ p"
    and "CHR '','' \<notin> set t" "CHR '','' \<notin> set (nonce c)" "CHR '','' \<notin> set p"
    and "c' = c\<lparr>client_final_message_without_proof := ''c='' @ t @ '',r='' @ nonce c,
                client_final_message := msg\<rparr>"
    and "decode_to_string p = Inr pf"
    and "getClientProof cr c' = Some (Inr pf)"
proof -
  obtain t where t: "addAttribute (CHR ''c'') ''n,,'' True = Some (Inr (''c='' @ t @ '',''))"
    "CHR '','' \<notin> set t"
    by (rule addAttribute_encoded [of "CHR ''c''" "''n,,''" True]) simp_all
  let ?wp = "''c='' @ t @ '',r='' @ nonce c"
  let ?c = "c\<lparr>client_final_message_without_proof := ?wp\<rparr>"
  from assms t(1) obtain r where "addAttribute (CHR ''r'') (nonce c) False = Some (Inr r)"
    by (auto simp: client_final_def split: bind_splits sum.splits)
  note r = this addAttribute_nonce [OF this]
  from assms t(1) r obtain pf where pf: "getClientProof cr ?c = Some (Inr pf)"
    by (auto simp: client_final_def Let_def split: bind_splits sum.splits)
  obtain p where p: "addAttribute (CHR ''p'') pf False = Some (Inr (''p='' @ p))"
    "decode_to_string p = Inr pf" "CHR '','' \<notin> set p"
    by (rule addAttribute_encoded [of "CHR ''p''" pf False]) simp_all
  from assms t(1) r pf p(1) have m: "msg = ?wp @ '',p='' @ p" "c' = ?c\<lparr>client_final_message := msg\<rparr>"
    by (auto simp: client_final_def Let_def)
  have "getClientProof cr c' = getClientProof cr ?c"
    by (simp add: m getClientProof_def getSaltedPassword_def getAuthMessage_def)
  then show ?thesis using that [of t p pf] t r m p pf by simp
qed

text \<open>
  C25: the message that continues the exchange has the form the protocol prescribes, with the nonce of
  the server, and carries a proof that a server storing only the digest of the client key accepts
  for the messages exchanged so far.
\<close>

theorem scram_proof_accepted:
  assumes "client_final cr c = Some (Inr (code, msg), c')"
  shows "\<exists>attributes p pf.
     decodeAttributeList msg [] = Some attributes \<and>
     om_find attributes (schar (CHR ''r'')) = Some (nonce c) \<and>
     om_find attributes (schar (CHR ''p'')) = Some p \<and> decode_to_string p = Inr pf \<and>
     msg = client_final_message_without_proof c' @ '',p='' @ p \<and>
     server_accepts cr (cr_digest cr (cr_hmac cr (saltedPassword c) ''Client Key''))
       (client_first_message_bare c @ '','' @ server_first_message c @ '','' @
        client_final_message_without_proof c') pf"
proof -
  obtain t p pf where m: "msg = ''c='' @ t @ '',r='' @ nonce c @ '',p='' @ p"
    and comma: "CHR '','' \<notin> set t" "CHR '','' \<notin> set (nonce c)" "CHR '','' \<notin> set p"
    and c': "c' = c\<lparr>client_final_message_without_proof := ''c='' @ t @ '',r='' @ nonce c,
                client_final_message := msg\<rparr>"
    and pf: "decode_to_string p = Inr pf" "getClientProof cr c' = Some (Inr pf)"
    by (rule client_final_shape [OF assms])
  have "decodeAttributeList msg [] = Some (om_assign (schar (CHR ''p'')) p
      (om_assign (schar (CHR ''r'')) (nonce c) (om_assign (schar (CHR ''c'')) t [])))"
    using decode_attribute_more [of "CHR ''c''" t "[]"] decode_attribute_more [of "CHR ''r''" "nonce c"]
      decode_attribute_last [of "CHR ''p''" p] comma
    by (simp add: m om.find_assign om.find_empty del: om_assign.simps)
  moreover have "server_accepts cr (cr_digest cr (cr_hmac cr (saltedPassword c) ''Client Key''))
       (client_first_message_bare c @ '','' @ server_first_message c @ '','' @
        client_final_message_without_proof c') pf"
    using pf(2) by (auto simp: c' getClientProof_def getSaltedPassword_def getAuthMessage_def
        server_accepts_def fails_def Let_def split: if_splits dest: xor_loop_inverse)
  ultimately show ?thesis using pf(1) by (auto simp: m c' om.find_assign simp del: om_assign.simps)
qed

lemma xor_loop_defined: "length ck \<le> length cs \<Longrightarrow> xor_loop ck cs \<noteq> None"
  by (induction ck cs rule: xor_loop.induct) auto

lemma getClientProof_defined:
  assumes "\<And>k k' m m'. length (cr_hmac cr k m) = length (cr_hmac cr k' m')"
  shows "getClientProof cr c \<noteq> None"
proof -
  have "xor_loop (cr_hmac cr k m) (cr_hmac cr k' m') \<noteq> None" for k m k' m'
    by (rule xor_loop_defined) (metis assms order_refl)
  then show ?thesis by (simp add: getClientProof_def fails_def Let_def split: sum.split)
qed

subsection \<open>A concrete exchange\<close>

definition sample_crypto :: crypto where
  "sample_crypto = \<lparr>cr_hmac = (\<lambda>k m. ''ab''), cr_digest = (\<lambda>k. ''d''),
     cr_pbkdf2 = (\<lambda>p s i. Some ''sp'')\<rparr>"

definition sample_client :: scram_client where
  "sample_client = (new_scram_client ''cn'')\<lparr>client_first_message_bare := ''n=u,r=cn''\<rparr>"

definition sample_server_first :: string where
  "sample_server_first = ''r=sn,s=AAAA,i=1''"

lemma sample_encodings:
  "base64_encode_string ''n,,'' False = Some (Inr ''biws'')"
  "base64_encode_string [CHR 0x00, CHR 0x00] False = Some (Inr ''AAA='')"
  "base64_encode_string ''ab'' False = Some (Inr ''YWI='')"
  by (simp_all add: base64_encode_string_def base64_encode_def encode_triplet_def sextet_def
      codemap_def uchar_def)

lemma sample_attributes:
  "decodeAttributeList sample_server_first [] = Some
     (om_assign (schar (CHR ''i'')) ''1'' (om_assign (schar (CHR ''s'')) ''AAAA''
       (om_assign (schar (CHR ''r'')) ''sn'' [])))"
  using decode_attribute_more [of "CHR ''r''" "''sn''" "[]"] decode_attribute_more [of "CHR ''s''" "''AAAA''"]
    decode_attribute_last [of "CHR ''i''" "''1''"]
  by (simp add: sample_server_first_def om.find_assign om.find_empty del: om_assign.simps)

definition sample_taken :: scram_client where
  "sample_taken = sample_client\<lparr>server_first_message := sample_server_first, nonce := ''sn'',
     salt := [CHR 0x00, CHR 0x00, CHR 0x00], iterationCount := 1, saltedPassword := ''sp''\<rparr>"

definition sample_final :: string where
  "sample_final = ''c=biws,r=sn,p=AAA=''"

definition sample_done :: scram_client where
  "sample_done = sample_taken\<lparr>client_final_message_without_proof := ''c=biws,r=sn'',
     client_final_message := sample_final\<rparr>"

lemmas sample_scram = sample_done_def sample_taken_def sample_client_def new_scram_client_def
  sample_crypto_def

lemma char_of_0: "char_of (0 :: nat) = CHR 0x00"
  by (simp add: char_of_def)

lemma sample_take:
  "take_attributes (om_assign (schar (CHR ''i'')) ''1'' (om_assign (schar (CHR ''s'')) ''AAAA''
       (om_assign (schar (CHR ''r'')) ''sn'' []))) c =
     (attributes_taken, c\<lparr>iterationCount := 1, nonce := ''sn'',
        salt := [CHR 0x00, CHR 0x00, CHR 0x00]\<rparr>)"
proof -
  have "decode_to_string ''AAAA'' = Inr [CHR 0x00, CHR 0x00, CHR 0x00]"
    by (simp add: decode_to_string_def char_space_def uchar_def decode_quad_def code2val_def
        char_upper_def char_of_0)
  moreover have "stoul ''1'' = Inr 1"
    by (simp add: stoul_def strto_prefix_def digits_value_def digit_value_def char_space_def
        char_digit_def uchar_def)
  ultimately show ?thesis by (simp add: schar_def uchar_def)
qed

lemma sample_client_final:
  "client_final sample_crypto sample_taken = Some (Inr (sasl_CONTINUE, sample_final), sample_done)"
  by (simp add: client_final_def addAttribute_def Let_def sample_encodings char_print_def uchar_def
      getClientProof_def getSaltedPassword_def getAuthMessage_def sample_scram sample_final_def
      sample_server_first_def char_xor_def char_of_0)

lemma sample_first_step:
  "scram_step sample_crypto pw sample_server_first sample_client =
     Some (Inr (sasl_CONTINUE, sample_final), sample_done)"
proof -
  have "generateSaltedPassword sample_crypto pw (sample_client\<lparr>server_first_message := sample_server_first,
      iterationCount := 1, nonce := ''sn'', salt := [CHR 0x00, CHR 0x00, CHR 0x00]\<rparr>) = (True, sample_taken)"
    by (simp add: generateSaltedPassword_def sample_scram)
  then show ?thesis
    using sample_client_final
    by (simp add: scram_step_def server_first_def sample_attributes sample_take om.find_assign
        del: om_assign.simps) (simp add: sample_scram sample_server_first_def)
qed

theorem scram_proof_accepted_witness:
  "\<exists>attributes p pf.
     decodeAttributeList sample_final [] = Some attributes \<and>
     om_find attributes (schar (CHR ''r'')) = Some (nonce sample_taken) \<and>
     om_find attributes (schar (CHR ''p'')) = Some p \<and> decode_to_string p = Inr pf \<and>
     sample_final = client_final_message_without_proof sample_done @ '',p='' @ p \<and>
     server_accepts sample_crypto
       (cr_digest sample_crypto (cr_hmac sample_crypto (saltedPassword sample_taken) ''Client Key''))
       (client_first_message_bare sample_taken @ '','' @ server_first_message sample_taken @ '','' @
        client_final_message_without_proof sample_done) pf"
  by (rule scram_proof_accepted [OF sample_client_final])

lemma sample_v_attribute:
  "CHR '','' \<notin> set v \<Longrightarrow>
   decodeAttributeList (CHR ''v'' # CHR ''='' # v) [] = Some (om_assign (schar (CHR ''v'')) v [])"
  using decode_attribute_last [of "CHR ''v''" v "[]"] by (simp add: om.find_empty)

lemma sample_final_step:
  "CHR '','' \<notin> set v \<Longrightarrow> scram_step sample_crypto pw (CHR ''v'' # CHR ''='' # v) sample_done =
     Some (Inr (if v = ''YWI='' then sasl_OK else sasl_FAIL, []),
       sample_done\<lparr>server_final_message := CHR ''v'' # CHR ''='' # v\<rparr>)"
  by (auto simp: scram_step_def server_final_def sample_v_attribute om.find_assign om.find_empty
      getServerSignature_def getSaltedPassword_def getAuthMessage_def sample_encodings sample_scram
      sample_server_first_def simp del: om_assign.simps)

theorem scram_accepts_signature_witness:
  "server_first_message sample_done \<noteq> [] \<and> saltedPassword sample_done \<noteq> [] \<and>
    (\<exists>attributes v.
       decodeAttributeList ''v=YWI='' [] = Some attributes \<and>
       om_find attributes (schar (CHR ''v'')) = Some v \<and>
       base64_encode_string
         (cr_hmac sample_crypto (cr_hmac sample_crypto (saltedPassword sample_done) ''Server Key'')
           (client_first_message_bare sample_done @ '','' @ server_first_message sample_done @ '','' @
            client_final_message_without_proof sample_done)) False = Some (Inr v))"
proof (rule scram_accepts_signature)
  show "scram_step sample_crypto [] ''v=YWI='' sample_done =
      Some (Inr (sasl_OK, []), sample_done\<lparr>server_final_message := ''v=YWI=''\<rparr>)"
    using sample_final_step [of "''YWI=''" "[]"] by simp
qed

text \<open>
  two checks are missing: the client goes on with a server nonce that does not start with its
  own nonce, and the session takes a successful status of the last answer as authentication although
  the answer carries a signature that the client rejects.
\<close>

theorem scram_server_unverified:
  "scram_step sample_crypto pw sample_server_first sample_client =
     Some (Inr (sasl_CONTINUE, sample_final), sample_done) \<and>
   take (length (clientNonce sample_client)) (nonce sample_done) \<noteq> clientNonce sample_client \<and>
   (\<exists>c. scram_step sample_crypto pw ''v=AAAA'' sample_done = Some (Inr (sasl_FAIL, []), c)) \<and>
   fst (on_sasl_step status_success ''v=AAAA'' sample_done) = auth_success"
  using sample_first_step sample_final_step [of "''AAAA''" pw]
  by (simp add: on_sasl_step_def) (simp add: sample_scram)

end
