(* ===== verification/Document_Id.thy ===== *)
theory Document_Id
  imports Leb128
begin

text \<open>
  \<^verbatim>\<open>core/document_id.hxx\<close> and \<^verbatim>\<open>document_id.cxx\<close>: the address of a document and the key sent
  to the server, which carries the resolved collection in front of the document key.
\<close>

record document_id =
  id_bucket :: string
  id_scope :: string
  id_collection :: string
  id_key :: string
  id_collection_path :: string
  id_collection_uid :: "u32 option"
  id_use_collections :: bool
  id_use_any_session :: bool
  id_node_index :: nat

definition compile_collection_path :: "string \<Rightarrow> string \<Rightarrow> string" where
  "compile_collection_path scope collection = scope @ ''.'' @ collection"

definition document_id_in_bucket :: "string \<Rightarrow> string \<Rightarrow> document_id" where
  "document_id_in_bucket bucket key =
     \<lparr> id_bucket = bucket, id_scope = [], id_collection = [], id_key = key,
       id_collection_path = [], id_collection_uid = None, id_use_collections = False,
       id_use_any_session = False, id_node_index = 0 \<rparr>"

definition mk_document_id :: "string \<Rightarrow> string \<Rightarrow> string \<Rightarrow> string \<Rightarrow> document_id" where
  "mk_document_id bucket scope collection key =
     \<lparr> id_bucket = bucket, id_scope = scope, id_collection = collection, id_key = key,
       id_collection_path = compile_collection_path scope collection, id_collection_uid = None,
       id_use_collections = True, id_use_any_session = False, id_node_index = 0 \<rparr>"

definition has_default_collection :: "document_id \<Rightarrow> bool" where
  "has_default_collection i \<longleftrightarrow>
     \<not> id_use_collections i \<or> id_collection_path i = ''_default._default''"

text \<open>\<^verbatim>\<open>utils::to_binary\<close>: the characters of a string as bytes.\<close>

definition to_binary :: "string \<Rightarrow> bytes" where
  "to_binary s = map (\<lambda>c. of_nat (uchar c)) s"

definition make_protocol_key :: "document_id \<Rightarrow> bytes run" where
  "make_protocol_key i = do {
     prefix \<leftarrow> (case id_collection_uid i of None \<Rightarrow> Some [] | Some uid \<Rightarrow> unsigned_leb128 uid);
     Some (prefix @ to_binary (id_key i)) }"

lemma to_binary_inj: "to_binary s = to_binary t \<Longrightarrow> s = t"
proof (induction s arbitrary: t)
  case Nil
  then show ?case by (simp add: to_binary_def)
next
  case (Cons c s)
  then obtain d u where t: "t = d # u" by (cases t) (auto simp: to_binary_def)
  have "(of_nat (uchar c) :: byte) = of_nat (uchar d)" and "to_binary s = to_binary u"
    using Cons.prems by (simp_all add: to_binary_def t)
  then have "uchar c = uchar d"
    by (metis uchar_less unat_of_nat_byte)
  then show ?case using Cons.IH [OF \<open>to_binary s = to_binary u\<close>] t by (simp add: uchar_inj)
qed

lemma make_protocol_key_resolved:
  assumes "id_collection_uid i = Some uid"
  shows "make_protocol_key i = Some (leb_bytes (unat uid) @ to_binary (id_key i))"
  by (simp add: make_protocol_key_def assms unsigned_leb128_u32)

text \<open>
  Building the protocol key is always defined, and the keys of two documents whose collections
  are resolved agree only if the collections and the document keys do: decoding the prefix gives
  back the collection and leaves the document key.
\<close>

theorem make_protocol_key_separates:
  assumes "id_collection_uid i = Some u" and "id_collection_uid j = Some v"
  shows "\<exists>k. make_protocol_key i = Some k
      \<and> decode_unsigned_leb128 k = Some (Inr (u, to_binary (id_key i)))
      \<and> (make_protocol_key j = Some k \<longrightarrow> u = v \<and> id_key i = id_key j)"
proof -
  have dec: "decode_unsigned_leb128 (leb_bytes (unat w) @ to_binary s) = Some (Inr (w, to_binary s))"
    for w :: u32 and s
    using decode_leb_bytes [of "unat w" "to_binary s", where 'a = 32] by simp
  have "u = v \<and> id_key i = id_key j"
    if "leb_bytes (unat v) @ to_binary (id_key j) = leb_bytes (unat u) @ to_binary (id_key i)"
    using dec [of u "id_key i"] dec [of v "id_key j"] to_binary_inj that by auto
  then show ?thesis
    using dec by (auto simp: make_protocol_key_resolved [OF assms(1)]
        make_protocol_key_resolved [OF assms(2)])
qed

theorem make_protocol_key_separates_witness:
  "\<exists>k. make_protocol_key ((mk_document_id ''b'' ''s'' ''c'' ''k'')\<lparr> id_collection_uid := Some 300 \<rparr>)
     = Some k \<and> decode_unsigned_leb128 k = Some (Inr (300 :: u32, to_binary ''k''))"
  using make_protocol_key_separates
    [of "(mk_document_id ''b'' ''s'' ''c'' ''k'')\<lparr> id_collection_uid := Some 300 \<rparr>" 300
        "(mk_document_id ''b'' ''s'' ''c'' ''k'')\<lparr> id_collection_uid := Some 300 \<rparr>" 300]
  by (auto simp: mk_document_id_def)

end
