(* ===== verification/Subdoc.thy ===== *)
theory Subdoc
  imports Protocol Big_Endian Document_Id "HOL-Library.Multiset"
begin

text \<open>
  Sub-document operations: the commands of \<^verbatim>\<open>core/impl/subdoc\<close>, the requests
  \<^verbatim>\<open>mutate_in\<close> and \<^verbatim>\<open>lookup_in\<close> of \<^verbatim>\<open>core/operations\<close> that put them in the order the
  server wants, their bodies (\<^verbatim>\<open>core/protocol/cmd_mutate_in.cxx\<close>, \<^verbatim>\<open>cmd_lookup_in.cxx\<close>) and
  the responses, whose entries are put back into the order of the caller.
\<close>

subsection \<open>Commands\<close>

type_synonym subdoc_opcode = byte

abbreviation (input) subdoc_get_doc :: subdoc_opcode where "subdoc_get_doc \<equiv> 0x00"
abbreviation (input) subdoc_set_doc :: subdoc_opcode where "subdoc_set_doc \<equiv> 0x01"
abbreviation (input) subdoc_remove_doc :: subdoc_opcode where "subdoc_remove_doc \<equiv> 0x04"
abbreviation (input) subdoc_get :: subdoc_opcode where "subdoc_get \<equiv> 0xc5"
abbreviation (input) subdoc_exists :: subdoc_opcode where "subdoc_exists \<equiv> 0xc6"
abbreviation (input) subdoc_dict_add :: subdoc_opcode where "subdoc_dict_add \<equiv> 0xc7"
abbreviation (input) subdoc_dict_upsert :: subdoc_opcode where "subdoc_dict_upsert \<equiv> 0xc8"
abbreviation (input) subdoc_remove :: subdoc_opcode where "subdoc_remove \<equiv> 0xc9"
abbreviation (input) subdoc_replace :: subdoc_opcode where "subdoc_replace \<equiv> 0xca"
abbreviation (input) subdoc_array_push_last :: subdoc_opcode where "subdoc_array_push_last \<equiv> 0xcb"
abbreviation (input) subdoc_array_push_first :: subdoc_opcode where "subdoc_array_push_first \<equiv> 0xcc"
abbreviation (input) subdoc_array_insert :: subdoc_opcode where "subdoc_array_insert \<equiv> 0xcd"
abbreviation (input) subdoc_array_add_unique :: subdoc_opcode where "subdoc_array_add_unique \<equiv> 0xce"
abbreviation (input) subdoc_counter :: subdoc_opcode where "subdoc_counter \<equiv> 0xcf"
abbreviation (input) subdoc_get_count :: subdoc_opcode where "subdoc_get_count \<equiv> 0xd2"
abbreviation (input) subdoc_replace_body_with_xattr :: subdoc_opcode where
  "subdoc_replace_body_with_xattr \<equiv> 0xd3"

record subdoc_command =
  sc_opcode :: subdoc_opcode
  sc_path :: string
  sc_value :: bytes
  sc_flags :: byte
  sc_original_index :: nat

definition path_flag_create_parents :: byte where "path_flag_create_parents = 0b00000001"
definition path_flag_xattr :: byte where "path_flag_xattr = 0b00000100"
definition path_flag_expand_macros :: byte where "path_flag_expand_macros = 0b00010000"
definition path_flag_binary_value :: byte where "path_flag_binary_value = 0b00100000"

lemmas path_flag_defs = path_flag_create_parents_def path_flag_xattr_def
  path_flag_expand_macros_def path_flag_binary_value_def

definition build_mutate_in_path_flags :: "bool \<Rightarrow> bool \<Rightarrow> bool \<Rightarrow> bool \<Rightarrow> byte" where
  "build_mutate_in_path_flags xattr create_path expand_macro binary =
     (let flags = 0 :: byte;
          flags = (if xattr then (let f = flags OR path_flag_xattr
                                  in if binary then f OR path_flag_binary_value else f) else flags);
          flags = (if create_path then flags OR path_flag_create_parents else flags)
      in if expand_macro then flags OR path_flag_expand_macros else flags)"

definition build_lookup_in_path_flags :: "bool \<Rightarrow> bool \<Rightarrow> byte" where
  "build_lookup_in_path_flags xattr binary =
     (if xattr then (let f = 0 OR path_flag_xattr
                     in if binary then f OR path_flag_binary_value else f) else 0)"

definition has_xattr_path_flag :: "byte \<Rightarrow> bool" where
  "has_xattr_path_flag flags \<longleftrightarrow> flags AND path_flag_xattr = path_flag_xattr"

definition has_binary_value_path_flag :: "byte \<Rightarrow> bool" where
  "has_binary_value_path_flag flags \<longleftrightarrow> flags AND path_flag_binary_value = path_flag_binary_value"

definition reset_binary_value_path_flag :: "byte \<Rightarrow> byte" where
  "reset_binary_value_path_flag flags = flags AND NOT path_flag_binary_value"

text \<open>\<^verbatim>\<open>join_values\<close>: the values of an array operation separated by commas.\<close>

fun join_copy :: "bytes list \<Rightarrow> bytes \<Rightarrow> nat \<Rightarrow> bytes run" where
  "join_copy [] buf off = Some buf"
| "join_copy (v # vs) buf off = do {
     buf \<leftarrow> mem_write buf off [0x2c];
     buf \<leftarrow> mem_write buf (off + 1) v;
     join_copy vs buf (off + 1 + length v) }"

definition join_values :: "bytes list \<Rightarrow> bytes run" where
  "join_values vs =
     (case vs of [] \<Rightarrow> Some []
      | [v] \<Rightarrow> Some v
      | v # rest \<Rightarrow> do {
          let total_length = length vs - 1 + sum_list (map length vs);
          buf \<leftarrow> mem_write (vec_resize total_length []) 0 v;
          join_copy rest buf (length v) })"

text \<open>The builders: each appends one command to the bundle.\<close>

definition mk_command :: "subdoc_opcode \<Rightarrow> string \<Rightarrow> bytes \<Rightarrow> byte \<Rightarrow> subdoc_command" where
  "mk_command opc path v flags = \<lparr> sc_opcode = opc, sc_path = path, sc_value = v,
     sc_flags = flags, sc_original_index = 0 \<rparr>"

definition spec_get :: "string \<Rightarrow> bool \<Rightarrow> bool \<Rightarrow> subdoc_command" where
  "spec_get path xattr binary =
     mk_command (if path = [] then subdoc_get_doc else subdoc_get) path []
       (build_lookup_in_path_flags xattr binary)"

definition spec_exists :: "string \<Rightarrow> bool \<Rightarrow> subdoc_command" where
  "spec_exists path xattr = mk_command subdoc_exists path [] (build_lookup_in_path_flags xattr False)"

definition spec_count :: "string \<Rightarrow> bool \<Rightarrow> subdoc_command" where
  "spec_count path xattr = mk_command subdoc_get_count path [] (build_lookup_in_path_flags xattr False)"

definition spec_remove :: "string \<Rightarrow> bool \<Rightarrow> subdoc_command" where
  "spec_remove path xattr =
     mk_command (if path = [] then subdoc_remove_doc else subdoc_remove) path []
       (build_mutate_in_path_flags xattr False False False)"

definition spec_replace :: "string \<Rightarrow> bytes \<Rightarrow> bool \<Rightarrow> bool \<Rightarrow> bool \<Rightarrow> subdoc_command" where
  "spec_replace path v xattr expand_macro binary =
     mk_command (if path = [] then subdoc_set_doc else subdoc_replace) path v
       (build_mutate_in_path_flags xattr False expand_macro binary)"

definition spec_upsert ::
  "string \<Rightarrow> bytes \<Rightarrow> bool \<Rightarrow> bool \<Rightarrow> bool \<Rightarrow> bool \<Rightarrow> subdoc_command" where
  "spec_upsert path v xattr create_path expand_macro binary =
     mk_command subdoc_dict_upsert path v
       (build_mutate_in_path_flags xattr create_path expand_macro binary)"

definition spec_insert :: "string \<Rightarrow> bytes \<Rightarrow> bool \<Rightarrow> bool \<Rightarrow> bool \<Rightarrow> subdoc_command" where
  "spec_insert path v xattr create_path expand_macro =
     mk_command subdoc_dict_add path v
       (build_mutate_in_path_flags xattr create_path expand_macro False)"

definition spec_array_add_unique ::
  "string \<Rightarrow> bytes \<Rightarrow> bool \<Rightarrow> bool \<Rightarrow> bool \<Rightarrow> subdoc_command" where
  "spec_array_add_unique path v xattr create_path expand_macro =
     mk_command subdoc_array_add_unique path v
       (build_mutate_in_path_flags xattr create_path expand_macro False)"

definition spec_array_append ::
  "string \<Rightarrow> bytes list \<Rightarrow> bool \<Rightarrow> bool \<Rightarrow> subdoc_command run" where
  "spec_array_append path vs xattr create_path = do {
     v \<leftarrow> join_values vs;
     Some (mk_command subdoc_array_push_last path v
       (build_mutate_in_path_flags xattr create_path False False)) }"

definition spec_array_prepend ::
  "string \<Rightarrow> bytes list \<Rightarrow> bool \<Rightarrow> bool \<Rightarrow> subdoc_command run" where
  "spec_array_prepend path vs xattr create_path = do {
     v \<leftarrow> join_values vs;
     Some (mk_command subdoc_array_push_first path v
       (build_mutate_in_path_flags xattr create_path False False)) }"

definition spec_array_insert ::
  "string \<Rightarrow> bytes list \<Rightarrow> bool \<Rightarrow> bool \<Rightarrow> subdoc_command run" where
  "spec_array_insert path vs xattr create_path = do {
     v \<leftarrow> join_values vs;
     Some (mk_command subdoc_array_insert path v
       (build_mutate_in_path_flags xattr create_path False False)) }"

subsection \<open>Macros\<close>

datatype mutate_in_macro = mutation_cas | mutation_seqno | mutation_value_crc32c

definition macro_cas_bytes :: bytes where
  "macro_cas_bytes = [0x22, 0x24, 0x7b, 0x4d, 0x75, 0x74, 0x61, 0x74, 0x69, 0x6f, 0x6e, 0x2e, 0x43,
     0x41, 0x53, 0x7d, 0x22]"

definition macro_seqno_bytes :: bytes where
  "macro_seqno_bytes = [0x22, 0x24, 0x7b, 0x4d, 0x75, 0x74, 0x61, 0x74, 0x69, 0x6f, 0x6e, 0x2e, 0x73,
     0x65, 0x71, 0x6e, 0x6f, 0x7d, 0x22]"

definition macro_crc32_bytes :: bytes where
  "macro_crc32_bytes = [0x22, 0x24, 0x7b, 0x4d, 0x75, 0x74, 0x61, 0x74, 0x69, 0x6f, 0x6e, 0x2e, 0x76,
     0x61, 0x6c, 0x75, 0x65, 0x5f, 0x63, 0x72, 0x63, 0x33, 0x32, 0x63, 0x7d, 0x22]"

primrec macro_to_binary :: "mutate_in_macro \<Rightarrow> bytes" where
  "macro_to_binary mutation_cas = macro_cas_bytes"
| "macro_to_binary mutation_seqno = macro_seqno_bytes"
| "macro_to_binary mutation_value_crc32c = macro_crc32_bytes"

definition to_mutate_in_macro :: "string \<Rightarrow> mutate_in_macro option" where
  "to_mutate_in_macro input =
     (if input = ''\"${Mutation.CAS}\"'' then Some mutation_cas
      else if input = ''\"${Mutation.seqno}\"'' then Some mutation_seqno
      else if input = ''\"${Mutation.value_crc32c}\"'' then Some mutation_value_crc32c
      else None)"

datatype lookup_in_macro =
  lookup_document | lookup_expiry_time | lookup_cas | lookup_sequence_number | lookup_vbucket_uuid
  | lookup_last_modified | lookup_is_deleted | lookup_value_size_bytes | lookup_revision_id
  | lookup_flags | lookup_vbucket

primrec lookup_macro_string :: "lookup_in_macro \<Rightarrow> string" where
  "lookup_macro_string lookup_document = ''$document''"
| "lookup_macro_string lookup_expiry_time = ''$document.exptime''"
| "lookup_macro_string lookup_cas = ''$document.CAS''"
| "lookup_macro_string lookup_sequence_number = ''$document.seqno''"
| "lookup_macro_string lookup_vbucket_uuid = ''$document.vbucket_uuid''"
| "lookup_macro_string lookup_last_modified = ''$document.last_modified''"
| "lookup_macro_string lookup_is_deleted = ''$document.deleted''"
| "lookup_macro_string lookup_value_size_bytes = ''$document.value_bytes''"
| "lookup_macro_string lookup_revision_id = ''$document.revision_id''"
| "lookup_macro_string lookup_flags = ''$document.flags''"
| "lookup_macro_string lookup_vbucket = ''$vbucket''"

definition to_lookup_in_macro :: "string \<Rightarrow> lookup_in_macro option" where
  "to_lookup_in_macro input =
     (if input = ''$document'' then Some lookup_document
      else if input = ''$document.exptime'' then Some lookup_expiry_time
      else if input = ''$document.CAS'' then Some lookup_cas
      else if input = ''$document.seqno'' then Some lookup_sequence_number
      else if input = ''$document.vbucket_uuid'' then Some lookup_vbucket_uuid
      else if input = ''$document.last_modified'' then Some lookup_last_modified
      else if input = ''$document.deleted'' then Some lookup_is_deleted
      else if input = ''$document.value_bytes'' then Some lookup_value_size_bytes
      else if input = ''$document.revision_id'' then Some lookup_revision_id
      else if input = ''$document.flags'' then Some lookup_flags
      else if input = ''$vbucket'' then Some lookup_vbucket
      else None)"

subsection \<open>Frame info of requests\<close>

text \<open>\<^verbatim>\<open>core/protocol/frame_info_utils.cxx\<close>\<close>

definition add_durability_frame_info ::
  "bytes \<Rightarrow> durability_level \<Rightarrow> u16 option \<Rightarrow> bytes run" where
  "add_durability_frame_info framing_extras level timeout =
     (let frame_id = request_sync_durability; old = length framing_extras
      in case timeout of
        Some t \<Rightarrow> do {
          let b = vec_resize (old + 1 + 3) framing_extras;
          b \<leftarrow> mem_write b old [push_bit 4 frame_id OR 3];
          b \<leftarrow> mem_write b (old + 1) [level];
          mem_write b (old + 2) (store_le16 (byte_swap16 t)) }
      | None \<Rightarrow> do {
          let b = vec_resize (old + 1 + 1) framing_extras;
          b \<leftarrow> mem_write b old [push_bit 4 frame_id OR 1];
          mem_write b (old + 1) [level] })"


subsection \<open>The mutation request\<close>

datatype store_semantics = store_replace | store_upsert | store_insert | store_revive

record mutate_in_request =
  mq_id :: document_id
  mq_cas :: u64
  mq_access_deleted :: bool
  mq_create_as_deleted :: bool
  mq_revive_document :: bool
  mq_expiry :: "u32 option"
  mq_store_semantics :: store_semantics
  mq_specs :: "subdoc_command list"
  mq_durability_level :: durability_level
  mq_preserve_expiry :: bool
  mq_flags :: "u32 option"

definition new_mutate_in_request :: "document_id \<Rightarrow> mutate_in_request" where
  "new_mutate_in_request i = \<lparr> mq_id = i, mq_cas = 0, mq_access_deleted = False,
     mq_create_as_deleted = False, mq_revive_document = False, mq_expiry = None,
     mq_store_semantics = store_replace, mq_specs = [], mq_durability_level = 0,
     mq_preserve_expiry = False, mq_flags = None \<rparr>"

text \<open>\<^verbatim>\<open>mutate_in_request_body\<close>: the parts the request is encoded from.\<close>

record mutate_in_body =
  mb_key :: bytes
  mb_framing_extras :: bytes
  mb_user_flags :: "u32 option"
  mb_expiry :: u32
  mb_flags :: byte
  mb_specs :: "subdoc_command list"


definition doc_flag_access_deleted :: byte where "doc_flag_access_deleted = 0b00000100"


text \<open>
  Each command remembers its position; commands on extended attributes go first, in their order
  (\<^verbatim>\<open>std::stable_sort\<close>).
\<close>

definition number_spec :: "hello_feature list \<Rightarrow> nat \<times> subdoc_command \<Rightarrow> subdoc_command" where
  "number_spec features p =
     (case p of (i, c) \<Rightarrow>
        let c = c\<lparr> sc_original_index := i \<rparr>
        in if has_binary_value_path_flag (sc_flags c) \<and> feature_subdoc_binary_xattr \<notin> set features
           then c\<lparr> sc_flags := reset_binary_value_path_flag (sc_flags c) \<rparr> else c)"

definition prepare_specs :: "hello_feature list \<Rightarrow> subdoc_command list \<Rightarrow> subdoc_command list" where
  "prepare_specs features specs =
     sort_key (\<lambda>c. \<not> has_xattr_path_flag (sc_flags c))
       (map (number_spec features) (enumerate 0 specs))"


definition mutate_in_fill_extras :: "mutate_in_body \<Rightarrow> bytes run" where
  "mutate_in_fill_extras b = do {
     e \<leftarrow> (if mb_expiry b \<noteq> 0 \<or> mb_user_flags b \<noteq> None
           then mem_write (vec_resize 4 []) 0 (store_le32 (byte_swap32 (mb_expiry b))) else Some []);
     e \<leftarrow> (case mb_user_flags b of
             None \<Rightarrow> Some e
           | Some f \<Rightarrow> mem_write (vec_resize (length e + 4) e) (length e) (store_le32 (byte_swap32 f)));
     if mb_flags b \<noteq> 0 then mem_write (vec_resize (length e + 1) e) (length e) [mb_flags b]
     else Some e }"

fun mutate_in_fill_specs :: "subdoc_command list \<Rightarrow> bytes \<Rightarrow> nat \<Rightarrow> bytes run" where
  "mutate_in_fill_specs [] v off = Some v"
| "mutate_in_fill_specs (c # specs) v off = do {
     v \<leftarrow> mem_write v off [sc_opcode c];
     v \<leftarrow> mem_write v (off + 1) [sc_flags c];
     v \<leftarrow> mem_write v (off + 2) (store_le16 (byte_swap16 (of_nat (length (sc_path c)))));
     let param_size = byte_swap32 (of_nat (length (sc_value c)));
     v \<leftarrow> mem_write v (off + 4) (store_le32 param_size);
     v \<leftarrow> mem_write v (off + 8) (to_binary (sc_path c));
     let off = off + 8 + length (sc_path c);
     if param_size \<noteq> 0
     then do { v \<leftarrow> mem_write v off (sc_value c);
               mutate_in_fill_specs specs v (off + length (sc_value c)) }
     else mutate_in_fill_specs specs v off }"

definition mutate_in_fill_value :: "subdoc_command list \<Rightarrow> bytes run" where
  "mutate_in_fill_value specs =
     (let value_size = sum_list (map (\<lambda>c. 8 + length (sc_path c) + length (sc_value c)) specs)
      in if value_size > 0 then mutate_in_fill_specs specs (vec_resize value_size []) 0 else None)"

subsection \<open>The lookup request\<close>

fun lookup_in_fill_specs :: "subdoc_command list \<Rightarrow> bytes \<Rightarrow> nat \<Rightarrow> bytes run" where
  "lookup_in_fill_specs [] v off = Some v"
| "lookup_in_fill_specs (c # specs) v off = do {
     v \<leftarrow> mem_write v off [sc_opcode c];
     v \<leftarrow> mem_write v (off + 1) [sc_flags c];
     v \<leftarrow> mem_write v (off + 2) (store_le16 (byte_swap16 (of_nat (length (sc_path c)))));
     v \<leftarrow> mem_write v (off + 4) (to_binary (sc_path c));
     lookup_in_fill_specs specs v (off + 4 + length (sc_path c)) }"

definition lookup_in_fill_value :: "subdoc_command list \<Rightarrow> bytes run" where
  "lookup_in_fill_value specs =
     (let value_size = sum_list (map (\<lambda>c. 4 + length (sc_path c)) specs)
      in if value_size > 0 then lookup_in_fill_specs specs (vec_resize value_size []) 0 else None)"

definition lookup_in_fill_extras :: "byte \<Rightarrow> bytes run" where
  "lookup_in_fill_extras flags =
     (if flags \<noteq> 0 then mem_write (vec_resize 1 []) 0 [flags] else Some [])"

definition lookup_in_encode_to ::
  "hello_feature list \<Rightarrow> document_id \<Rightarrow> bool \<Rightarrow> subdoc_command list \<Rightarrow>
   (errc + bytes \<times> byte \<times> subdoc_command list) run" where
  "lookup_in_encode_to features i access_deleted specs =
     (if specs = [] then fails (errc_common common_invalid_argument)
      else do {
        key \<leftarrow> make_protocol_key i;
        Some (Inr (key, (if access_deleted then doc_flag_access_deleted else 0),
                   prepare_specs features specs)) })"

subsection \<open>Responses on the wire\<close>

text \<open>
  \<^verbatim>\<open>parse\<close> of the two response bodies. The loops read the entries with \<^verbatim>\<open>memcpy\<close> and
  no check that the entry lies in the body; an entry with a status code the client does not know
  fails an \<^verbatim>\<open>Expects\<close>.
\<close>

type_synonym mutate_in_entry = "byte \<times> u16 \<times> bytes"
type_synonym lookup_in_entry = "u16 \<times> bytes"

definition max_entry_size :: nat where
  "max_entry_size = 20 * 1024 * 1024"

definition read_entry_value :: "bytes \<Rightarrow> nat \<Rightarrow> (bytes \<times> nat) run" where
  "read_entry_value body off = do {
     size \<leftarrow> map_option byte_swap32 (load_le32 body off);
     if unat size < max_entry_size
     then do { v \<leftarrow> mem_read body (off + 4) (unat size); Some (v, off + 4 + unat size) }
     else None }"

definition read_entry_status :: "bytes \<Rightarrow> nat \<Rightarrow> u16 run" where
  "read_entry_status body off = do {
     status \<leftarrow> map_option byte_swap16 (load_le16 body off);
     if is_valid_status status then Some status else None }"

lemma read_entry_value_off: "read_entry_value body off = Some (v, off') \<Longrightarrow> off < off'"
  by (auto simp: read_entry_value_def bind_eq_Some_conv split: if_splits)

function parse_mutate_in_entries :: "bytes \<Rightarrow> nat \<Rightarrow> mutate_in_entry list run" where
  "parse_mutate_in_entries body off =
     (if off < length body
      then do {
        index \<leftarrow> span_at body off;
        status \<leftarrow> read_entry_status body (off + 1);
        if status = status_success
        then (case read_entry_value body (off + 3) of
                None \<Rightarrow> None
              | Some (v, off') \<Rightarrow> do {
                  es \<leftarrow> parse_mutate_in_entries body off';
                  Some ((index, status, v) # es) })
        else do {
          es \<leftarrow> parse_mutate_in_entries body (off + 3);
          Some ((index, status, []) # es) } }
      else Some [])"
  by pat_completeness auto

termination
  by (relation "measure (\<lambda>(body, off). length body - off)") (auto dest: read_entry_value_off)

declare parse_mutate_in_entries.simps [simp del]

definition parse_mutate_in_body ::
  "u16 \<Rightarrow> nat \<Rightarrow> nat \<Rightarrow> nat \<Rightarrow> bytes \<Rightarrow> (bool \<times> (u64 \<times> u64) option \<times> mutate_in_entry list) run" where
  "parse_mutate_in_body status framing_extras_size key_size extras_size body =
     (if status = status_success \<or> status = status_subdoc_multi_path_failure
      then do {
        (token, off) \<leftarrow>
          (if extras_size = 16
           then do {
             uuid \<leftarrow> map_option byte_swap64 (load_le64 body framing_extras_size);
             seqno \<leftarrow> map_option byte_swap64 (load_le64 body (framing_extras_size + 8));
             Some (Some (uuid, seqno), framing_extras_size + 16) }
           else Some (None, framing_extras_size + extras_size));
        es \<leftarrow> parse_mutate_in_entries body (off + key_size);
        Some (True, token, es) }
      else Some (False, None, []))"

function parse_lookup_in_entries :: "bytes \<Rightarrow> nat \<Rightarrow> lookup_in_entry list run" where
  "parse_lookup_in_entries body off =
     (if off < length body
      then do {
        status \<leftarrow> read_entry_status body off;
        (case read_entry_value body (off + 2) of
           None \<Rightarrow> None
         | Some (v, off') \<Rightarrow> do {
             es \<leftarrow> parse_lookup_in_entries body off';
             Some ((status, v) # es) }) }
      else Some [])"
  by pat_completeness auto

termination
  by (relation "measure (\<lambda>(body, off). length body - off)") (auto dest: read_entry_value_off)

declare parse_lookup_in_entries.simps [simp del]

definition parse_lookup_in_body ::
  "u16 \<Rightarrow> nat \<Rightarrow> nat \<Rightarrow> nat \<Rightarrow> bytes \<Rightarrow> (bool \<times> lookup_in_entry list) run" where
  "parse_lookup_in_body status framing_extras_size key_size extras_size body =
     (if status = status_success \<or> status = status_subdoc_multi_path_failure
        \<or> status = status_subdoc_success_deleted
        \<or> status = status_subdoc_multi_path_failure_deleted
      then do {
        es \<leftarrow> parse_lookup_in_entries body (framing_extras_size + key_size + extras_size);
        Some (True, es) }
      else Some (False, []))"

subsection \<open>Responses of the operations\<close>

record subdoc_field =
  sf_path :: string
  sf_value :: bytes
  sf_original_index :: nat
  sf_opcode :: subdoc_opcode
  sf_status :: u16
  sf_ec :: "errc option"
  sf_exists :: bool

record mutate_in_response =
  mi_ec :: "errc option"
  mi_first_error_path :: "string option"
  mi_first_error_index :: "nat option"
  mi_deleted :: bool
  mi_cas :: u64
  mi_token :: "(u64 \<times> u64) option"
  mi_fields :: "subdoc_field list"

record lookup_in_response =
  li_ec :: "errc option"
  li_first_error_path :: "string option"
  li_first_error_index :: "nat option"
  li_deleted :: bool
  li_cas :: u64
  li_fields :: "subdoc_field list"

definition field_of_spec :: "subdoc_command \<Rightarrow> subdoc_field" where
  "field_of_spec c = \<lparr> sf_path = sc_path c, sf_value = [], sf_original_index = sc_original_index c,
     sf_opcode = sc_opcode c, sf_status = status_success, sf_ec = None, sf_exists = False \<rparr>"

text \<open>
  The entries of the response fill the fields, which are still in the order of the wire; the
  subscripts are unchecked. The first failed entry ends the loop.
\<close>

fun mutate_in_fill_fields ::
  "mutate_in_entry list \<Rightarrow> subdoc_field list \<Rightarrow>
   (subdoc_field list \<times> (nat \<times> string \<times> errc option) option) run" where
  "mutate_in_fill_fields [] flds = Some (flds, None)"
| "mutate_in_fill_fields ((index, status, v) # es) flds =
     (let i = unat index
      in if i < length flds
         then (if status = status_success
               then mutate_in_fill_fields es (flds[i := (flds ! i)\<lparr> sf_value := v \<rparr>])
               else (let ec = map_status_code opcode_subdoc_multi_mutation status
                     in Some (flds[i := (flds ! i)\<lparr> sf_status := status, sf_ec := ec \<rparr>],
                              Some (i, sf_path (flds ! i), ec))))
         else None)"

definition is_deleted_status :: "u16 \<Rightarrow> bool" where
  "is_deleted_status status \<longleftrightarrow>
     status = status_subdoc_success_deleted \<or> status = status_subdoc_multi_path_failure_deleted"

definition mutate_in_make_response ::
  "mutate_in_request \<Rightarrow> errc option \<Rightarrow> u16 option \<Rightarrow> u16 \<Rightarrow> u64 \<Rightarrow>
   (u64 \<times> u64) option \<Rightarrow> mutate_in_entry list \<Rightarrow> mutate_in_response run" where
  "mutate_in_make_response req ctx_ec ctx_status status cas token entries =
     (if ctx_ec = None
      then do {
        (flds, err) \<leftarrow> mutate_in_fill_fields entries (map field_of_spec (mq_specs req));
        let ec = (case err of None \<Rightarrow> None | Some (_, _, ec) \<Rightarrow> ec);
        Some \<lparr> mi_ec = ec,
          mi_first_error_path = map_option (\<lambda>(_, path, _). path) err,
          mi_first_error_index = map_option (\<lambda>(i, _, _). i) err,
          mi_deleted = is_deleted_status status,
          mi_cas = (if ec = None then cas else 0),
          mi_token = (if ec = None then token else None),
          mi_fields = sort_key sf_original_index flds \<rparr> }
      else Some \<lparr> mi_ec = (if mq_store_semantics req = store_insert
             \<and> (ctx_ec = Some (errc_common common_cas_mismatch)
                \<or> ctx_status = Some status_not_stored)
           then Some (errc_key_value key_value_document_exists) else ctx_ec),
          mi_first_error_path = None, mi_first_error_index = None,
          mi_deleted = is_deleted_status status, mi_cas = 0, mi_token = None, mi_fields = [] \<rparr>)"

text \<open>JSON \<^verbatim>\<open>true\<close> and \<^verbatim>\<open>false\<close>, the value of an existence check.\<close>

definition json_bool :: "bool \<Rightarrow> bytes" where
  "json_bool b = to_binary (if b then ''true'' else ''false'')"

definition lookup_in_field :: "lookup_in_entry \<Rightarrow> subdoc_field \<Rightarrow> subdoc_field" where
  "lookup_in_field e f =
     (case e of (status, v) \<Rightarrow>
        let ec = map_status_code opcode_subdoc_multi_mutation status;
            is_exists = sf_opcode f = subdoc_exists;
            ec = (if is_exists \<and> ec = Some (errc_key_value key_value_path_not_found)
                  then None else ec);
            found = status = status_success \<or> status = status_subdoc_success_deleted
        in f\<lparr> sf_status := status, sf_ec := ec, sf_exists := found,
              sf_value := (if is_exists \<and> ec = None then json_bool found else v) \<rparr>)"

fun lookup_in_fill_fields ::
  "lookup_in_entry list \<Rightarrow> subdoc_field list \<Rightarrow> (nat \<times> string) option \<Rightarrow>
   (subdoc_field list \<times> (nat \<times> string) option) run" where
  "lookup_in_fill_fields [] flds err = Some (flds, err)"
| "lookup_in_fill_fields (e # es) [] err = None"
| "lookup_in_fill_fields (e # es) (f # flds) err =
     (let f' = lookup_in_field e f;
          err' = (if err = None \<and> sf_ec f' \<noteq> None
                  then Some (sf_original_index f', sf_path f') else err)
      in do {
        (flds', err'') \<leftarrow> lookup_in_fill_fields es flds err';
        Some (f' # flds', err'') })"

definition lookup_in_make_response ::
  "subdoc_command list \<Rightarrow> errc option \<Rightarrow> u16 \<Rightarrow> u64 \<Rightarrow> lookup_in_entry list \<Rightarrow>
   lookup_in_response run" where
  "lookup_in_make_response specs ctx_ec status cas entries =
     (if ctx_ec = None
      then do {
        (flds, err) \<leftarrow> lookup_in_fill_fields entries (map field_of_spec specs) None;
        Some \<lparr> li_ec = None, li_first_error_path = map_option snd err,
          li_first_error_index = map_option fst err, li_deleted = is_deleted_status status,
          li_cas = cas, li_fields = sort_key sf_original_index flds \<rparr> }
      else Some \<lparr> li_ec = ctx_ec, li_first_error_path = None, li_first_error_index = None,
          li_deleted = is_deleted_status status, li_cas = 0, li_fields = [] \<rparr>)"

subsection \<open>What the server reads from a mutation request\<close>

text \<open>
  The layout of one command in the value of the request, and a reader of that layout: opcode,
  flags, the lengths of the path and of the value in network order, the path and the value.
\<close>

type_synonym wire_spec = "byte \<times> byte \<times> bytes \<times> bytes"

definition wire_of_spec :: "subdoc_command \<Rightarrow> wire_spec" where
  "wire_of_spec c = (sc_opcode c, sc_flags c, to_binary (sc_path c), sc_value c)"

definition put_spec :: "wire_spec \<Rightarrow> bytes" where
  "put_spec w = (case w of (opc, flags, path, v) \<Rightarrow>
     [opc, flags] @ be16_bytes (of_nat (length path)) @ be32_bytes (of_nat (length v)) @ path @ v)"

definition read_spec :: "bytes \<Rightarrow> (wire_spec \<times> bytes) option" where
  "read_spec b = do {
     opc \<leftarrow> read_uint8 b 0;
     flags \<leftarrow> read_uint8 b 1;
     path_size \<leftarrow> read_uint16 b 2;
     value_size \<leftarrow> read_uint32 b 4;
     path \<leftarrow> mem_read b 8 (unat path_size);
     v \<leftarrow> mem_read b (8 + unat path_size) (unat value_size);
     Some ((opc, flags, path, v), drop (8 + unat path_size + unat value_size) b) }"

definition wire_spec_ok :: "wire_spec \<Rightarrow> bool" where
  "wire_spec_ok w = (case w of (opc, flags, path, v) \<Rightarrow>
     length path < 65536 \<and> length v < 4294967296)"

lemma to_binary_length [simp]: "length (to_binary s) = length s"
  by (simp add: to_binary_def)

lemma store_swap16: "store_le16 (byte_swap16 v) = be16_bytes v"
proof -
  have "(ucast (push_bit 8 v OR drop_bit 8 v) :: byte) = ucast (drop_bit 8 v)"
    by (rule bit_word_eqI) (auto simp: bit_simps)
  moreover have "(ucast (drop_bit 8 (push_bit 8 v OR drop_bit 8 v)) :: byte) = ucast v"
    by (rule bit_word_eqI) (auto simp: bit_simps dest: bit_imp_le_length)
  ultimately show ?thesis by (simp add: store_le16_def byte_swap16_def be16_bytes_def Let_def)
qed

lemma store_swap32: "store_le32 (byte_swap32 v) = be32_bytes v"
proof -
  have v: "v = ucast (ucast v :: byte) OR push_bit 8 (ucast (ucast (drop_bit 8 v) :: byte)) OR
      push_bit 16 (ucast (ucast (drop_bit 16 v) :: byte)) OR
      push_bit 24 (ucast (ucast (drop_bit 24 v) :: byte))" (is "v = ?r")
  proof (rule bit_word_eqI)
    fix n assume "n < LENGTH(32)"
    then consider "n < 8" | "8 \<le> n" "n < 16" | "16 \<le> n" "n < 24" | "24 \<le> n" "n < 32" by fastforce
    then show "bit v n = bit ?r n" by cases (auto simp: bit_simps dest: byte_bit_bound)
  qed
  have "byte_swap32 v = ucast (ucast (drop_bit 24 v) :: byte) OR
      push_bit 8 (ucast (ucast (drop_bit 16 v) :: byte)) OR
      push_bit 16 (ucast (ucast (drop_bit 8 v) :: byte)) OR push_bit 24 (ucast (ucast v :: byte))"
    by (subst v) (rule byte_swap32_bytes)
  then show ?thesis
    by (simp add: store_le32_def be32_bytes_def byte_of_shifts)
qed

lemma byte_swap32_eq_0: "byte_swap32 v = 0 \<longleftrightarrow> v = 0"
proof
  assume "byte_swap32 v = 0"
  then have "be32_bytes v = be32_bytes 0"
    using store_swap32 [of v] store_swap32 [of 0] by (simp add: byte_swap32_def)
  then show "v = 0" by (rule be32.field_inj)
qed (simp add: byte_swap32_def)

lemma read_spec_put:
  assumes "wire_spec_ok w"
  shows "read_spec (put_spec w @ rest) = Some (w, rest)"
proof -
  obtain opc flags path v where w: "w = (opc, flags, path, v)" by (cases w)
  define b where "b = put_spec w @ rest"
  have len: "length path < 65536" "length v < 4294967296"
    using assms by (simp_all add: wire_spec_ok_def w)
  have b: "b = opc # flags # be16_bytes (of_nat (length path)) @
      be32_bytes (of_nat (length v)) @ path @ v @ rest"
    by (simp add: b_def put_spec_def w)
  have r0: "read_uint8 b 0 = Some opc"
    using be8.field_at [of "[]" opc "tl b"] by (simp add: b)
  have r1: "read_uint8 b 1 = Some flags"
    using be8.field_at [of "[opc]" flags "tl (tl b)"] by (simp add: b)
  have r2: "read_uint16 b 2 = Some (of_nat (length path))"
    using be16.field_at_offset [of 2 "[opc, flags]" "of_nat (length path)"
        "be32_bytes (of_nat (length v)) @ path @ v @ rest"] by (simp add: b)
  have r4: "read_uint32 b 4 = Some (of_nat (length v))"
    using be32.field_at_offset [of 4 "[opc, flags] @ be16_bytes (of_nat (length path))"
        "of_nat (length v)" "path @ v @ rest"] by (simp add: b)
  have d8: "drop (8 + n) b = drop n (path @ v @ rest)" for n
    unfolding add.commute [of 8] drop_drop [symmetric] by (simp add: b)
  have lb: "length b = 8 + length path + length v + length rest" by (simp add: b)
  have r8: "mem_read b 8 (length path) = Some path"
    using d8 [of 0] by (simp add: lb mem_read_def)
  have rv: "mem_read b (8 + length path) (length v) = Some v"
    by (simp add: lb mem_read_def d8)
  have "drop (8 + length path + length v) b = rest" by (simp add: d8 add.assoc)
  then show ?thesis
    unfolding b_def [symmetric] read_spec_def by (simp add: r0 r1 [simplified] r2 r4 r8 rv len w)
qed

interpretation spec_codec: prefix_codec put_spec read_spec wire_spec_ok
proof
  show "wire_spec_ok w \<Longrightarrow> read_spec (put_spec w @ rest) = Some (w, rest)" for w rest
    by (rule read_spec_put)
  show "put_spec w \<noteq> []" for w
    by (cases w) (simp add: put_spec_def)
qed

lemma mem_write_join:
  "off' = off + length ys \<Longrightarrow>
     mem_write b off ys \<bind> (\<lambda>b. mem_write b off' zs \<bind> k) = mem_write b off (ys @ zs) \<bind> k"
  by (simp add: mem_write_def ac_simps)

lemma mem_write_fill:
  "length ys \<le> length zs \<Longrightarrow>
     mem_write (xs @ zs) (length xs) ys = Some (xs @ ys @ drop (length ys) zs)"
  by (simp add: mem_write_def)

lemma of_nat_u32_eq_0:
  assumes "n < 4294967296"
  shows "(of_nat n :: u32) = 0 \<longleftrightarrow> n = 0"
proof
  assume "(of_nat n :: u32) = 0"
  then have "unat (of_nat n :: u32) = 0" by simp
  then show "n = 0" unfolding unat_of_nat_u32 [OF assms] .
qed simp

definition spec_size :: "subdoc_command \<Rightarrow> nat" where
  "spec_size c = 8 + length (sc_path c) + length (sc_value c)"

lemma put_spec_length: "length (put_spec (wire_of_spec c)) = spec_size c"
  by (simp add: put_spec_def wire_of_spec_def spec_size_def add.assoc)

text \<open>All the writes of one command are one write of its encoding.\<close>

lemma mutate_in_fill_step:
  assumes "length (sc_value c) < 4294967296"
  shows "mutate_in_fill_specs (c # specs) v off =
    mem_write v off (put_spec (wire_of_spec c)) \<bind>
      (\<lambda>v. mutate_in_fill_specs specs v (off + spec_size c))"
proof (cases "sc_value c = []")
  case True
  have z: "byte_swap32 (of_nat (length (sc_value c))) = 0" by (simp add: True byte_swap32_def)
  have z': "store_le32 0 = be32_bytes 0" using store_swap32 [of 0] by (simp add: byte_swap32_def)
  show ?thesis
    unfolding mutate_in_fill_specs.simps Let_def z z' store_swap16
    by (simp add: mem_write_join put_spec_def wire_of_spec_def spec_size_def True add.assoc)
next
  case False
  then have z: "byte_swap32 (of_nat (length (sc_value c))) \<noteq> 0"
    using assms by (simp add: byte_swap32_eq_0 of_nat_u32_eq_0)
  show ?thesis
    unfolding mutate_in_fill_specs.simps Let_def store_swap16 store_swap32
    by (simp add: z mem_write_join put_spec_def wire_of_spec_def spec_size_def add.assoc)
qed

lemma mutate_in_fill_specs_bytes:
  assumes "\<forall>c \<in> set specs. wire_spec_ok (wire_of_spec c)"
    and "length zs = sum_list (map spec_size specs)"
  shows "mutate_in_fill_specs specs (xs @ zs) (length xs) =
     Some (xs @ concat (map put_spec (map wire_of_spec specs)))"
  using assms
proof (induction specs arbitrary: xs zs)
  case (Cons c specs)
  let ?e = "put_spec (wire_of_spec c)"
  have small: "length (sc_value c) < 4294967296"
    using Cons.prems(1) by (simp add: wire_spec_ok_def wire_of_spec_def)
  have "mem_write (xs @ zs) (length xs) ?e = Some ((xs @ ?e) @ drop (spec_size c) zs)"
    using mem_write_fill [of ?e zs xs] Cons.prems(2) by (simp add: put_spec_length)
  moreover have "length (xs @ ?e) = length xs + spec_size c" by (simp add: put_spec_length)
  ultimately show ?case
    using Cons.IH [of "drop (spec_size c) zs" "xs @ ?e"] Cons.prems mutate_in_fill_step [OF small]
    by simp
qed simp

text \<open>
  C35: Encoding the commands of a mutation request writes only inside its buffer, and a server that
  reads opcode, flags, path and value by the layout of the protocol recovers exactly the commands,
  in order, when every path is shorter than 64 KiB and every value shorter than 4 GiB.
\<close>

theorem mutate_in_value_roundtrip:
  assumes "specs \<noteq> []"
    and "\<forall>c \<in> set specs. length (sc_path c) < 65536 \<and> length (sc_value c) < 4294967296"
  shows "\<exists>v. mutate_in_fill_value specs = Some v \<and>
     spec_codec.dec_seq (length specs) v = Some (map wire_of_spec specs, [])"
proof -
  have ok: "\<forall>c \<in> set specs. wire_spec_ok (wire_of_spec c)"
    using assms(2) by (simp add: wire_spec_ok_def wire_of_spec_def)
  define n where "n = sum_list (map spec_size specs)"
  have pos: "n > 0" using assms(1) by (cases specs) (auto simp: n_def spec_size_def)
  have "mutate_in_fill_specs specs (vec_resize n []) 0 = Some (concat (map put_spec (map wire_of_spec specs)))"
    using mutate_in_fill_specs_bytes [OF ok, of "vec_resize n []" "[]"] by (simp add: n_def)
  then have "mutate_in_fill_value specs = Some (concat (map put_spec (map wire_of_spec specs)))"
    using pos by (simp add: mutate_in_fill_value_def n_def spec_size_def [abs_def])
  moreover have "spec_codec.dec_seq (length specs) (concat (map put_spec (map wire_of_spec specs)))
      = Some (map wire_of_spec specs, [])"
    using spec_codec.dec_seq_enc [of "map wire_of_spec specs" "[]"] ok by simp
  ultimately show ?thesis by blast
qed

theorem mutate_in_value_roundtrip_witness:
  "\<exists>v. mutate_in_fill_value [spec_remove ''txn'' True, spec_replace [] [1, 2] False False False] = Some v
     \<and> spec_codec.dec_seq 2 v =
       Some ([(0xc9, 4, to_binary ''txn'', []), (1, 0, [], [1, 2])], [])"
  using mutate_in_value_roundtrip
    [of "[spec_remove ''txn'' True, spec_replace [] [1, 2] False False False]"]
  by (simp add: spec_remove_def spec_replace_def mk_command_def wire_of_spec_def to_binary_def
      build_mutate_in_path_flags_def path_flag_defs numeral_2_eq_2)

subsection \<open>The order of the caller\<close>

lemma number_spec_fields [simp]:
  "sc_original_index (number_spec fs (i, c)) = i" "sc_path (number_spec fs (i, c)) = sc_path c"
  "sc_opcode (number_spec fs (i, c)) = sc_opcode c"
  by (simp_all add: number_spec_def Let_def)

lemma map_index_enumerate:
  "map sc_original_index (map (number_spec fs) (enumerate k specs)) = [k..<k + length specs]"
  by (induction specs arbitrary: k) (simp_all add: upt_rec)

lemma enumerate_mem:
  "c \<in> set (map (number_spec fs) (enumerate k specs)) \<Longrightarrow>
     k \<le> sc_original_index c \<and> sc_original_index c < k + length specs
     \<and> sc_path c = sc_path (specs ! (sc_original_index c - k))
     \<and> sc_opcode c = sc_opcode (specs ! (sc_original_index c - k))"
  by (induction specs arbitrary: k) (fastforce simp: nth_Cons')+

lemma prepare_specs_mset:
  "mset (map sc_original_index (prepare_specs fs specs)) = mset [0..<length specs]"
proof -
  have "mset (map sc_original_index (prepare_specs fs specs)) =
      mset (map sc_original_index (map (number_spec fs) (enumerate 0 specs)))"
    by (simp only: prepare_specs_def mset_map mset_sort)
  then show ?thesis by (simp only: map_index_enumerate add_0)
qed

lemma prepare_specs_length [simp]: "length (prepare_specs fs specs) = length specs"
  by (simp add: prepare_specs_def)

lemma prepare_specs_mem:
  "c \<in> set (prepare_specs fs specs) \<Longrightarrow> sc_original_index c < length specs
     \<and> sc_path c = sc_path (specs ! sc_original_index c)
     \<and> sc_opcode c = sc_opcode (specs ! sc_original_index c)"
  using enumerate_mem [of c fs 0 specs] by (simp add: prepare_specs_def)

lemma sort_by_index:
  assumes "mset (map f xs) = mset [0..<n]"
  shows "map f (sort_key f xs) = [0..<n]"
proof -
  have "sort [0..<n] = map f (sort_key f xs)"
  proof (rule properties_for_sort)
    show "mset (map f (sort_key f xs)) = mset [0..<n]"
      unfolding assms [symmetric] by (simp only: mset_map mset_sort)
  qed simp
  then show ?thesis by (simp add: sorted_sort_id)
qed

text \<open>What filling in the entries leaves alone.\<close>

definition field_frame :: "subdoc_field \<Rightarrow> string \<times> subdoc_opcode \<times> nat" where
  "field_frame f = (sf_path f, sf_opcode f, sf_original_index f)"





text \<open>
  The fields of a response, after filling and sorting: the field at the position of the caller is
  the one its command had on the wire.
\<close>

lemma sorted_field:
  assumes specs: "ws = prepare_specs fs specs"
    and frame: "map field_frame flds = map (field_frame \<circ> field_of_spec) ws"
    and i: "i < length ws"
  shows "sort_key sf_original_index flds ! sc_original_index (ws ! i) = flds ! i"
proof -
  have len: "length flds = length ws" using arg_cong [OF frame, of length] by simp
  have idx: "map sf_original_index flds = map sc_original_index ws"
    using arg_cong [OF frame, of "map (snd \<circ> snd)"]
    by (simp add: field_frame_def field_of_spec_def comp_def)
  have "mset (map sf_original_index flds) = mset [0..<length specs]"
    unfolding idx specs by (rule prepare_specs_mset)
  then have sorted: "map sf_original_index (sort_key sf_original_index flds) = [0..<length specs]"
    by (rule sort_by_index)
  let ?j = "sc_original_index (ws ! i)"
  have j: "?j < length specs"
    using prepare_specs_mem [of "ws ! i" fs specs] i by (simp add: specs)
  then have "sf_original_index (sort_key sf_original_index flds ! ?j) = ?j"
    using arg_cong [OF sorted, of "\<lambda>l. l ! ?j"] len by (simp add: specs)
  moreover have "sf_original_index (flds ! i) = ?j"
    using arg_cong [OF idx, of "\<lambda>l. l ! i"] i len by simp
  moreover have "distinct (map sf_original_index flds)"
    using sorted by (metis distinct_upt mset_eq_imp_distinct_iff mset_map mset_sort)
  moreover have "sort_key sf_original_index flds ! ?j \<in> set flds"
    using j len by (metis length_sort nth_mem prepare_specs_length set_sort specs)
  ultimately show ?thesis
    using i len by (metis distinct_map inj_onD nth_mem)
qed


lemma field_of_spec_frame:
  assumes "map field_frame flds = map (field_frame \<circ> field_of_spec) ws" and "i < length ws"
  shows "sf_path (flds ! i) = sc_path (ws ! i)" "sf_opcode (flds ! i) = sc_opcode (ws ! i)"
    "sf_original_index (flds ! i) = sc_original_index (ws ! i)" "length flds = length ws"
proof -
  show len: "length flds = length ws" using arg_cong [OF assms(1), of length] by simp
  show "sf_path (flds ! i) = sc_path (ws ! i)" "sf_opcode (flds ! i) = sc_opcode (ws ! i)"
    "sf_original_index (flds ! i) = sc_original_index (ws ! i)"
    using arg_cong [OF assms(1), of "\<lambda>l. l ! i"] assms(2) len
    by (simp_all add: field_frame_def field_of_spec_def)
qed




text \<open>
  The index of the first failed command of a mutation is the position on the wire, while the
  fields are in the order of the caller: with a command on the document in front of one on an
  extended attribute, of which the second fails, the reported index names the first, which
  succeeded.
\<close>

theorem mutate_in_error_index_misplaced:
  "\<exists>resp. mutate_in_make_response
       ((new_mutate_in_request i)
          \<lparr> mq_specs := prepare_specs [] [spec_remove ''a'' False, spec_remove ''x'' True] \<rparr>)
       None None status_subdoc_multi_path_failure 0 None
       [(0, status_subdoc_path_not_found, [])] = Some resp
     \<and> mi_first_error_index resp = Some 0 \<and> mi_first_error_path resp = Some ''x''
     \<and> sf_path (mi_fields resp ! 0) = ''a'' \<and> sf_ec (mi_fields resp ! 0) = None
     \<and> sf_path (mi_fields resp ! 1) = ''x''
     \<and> sf_ec (mi_fields resp ! 1) = Some (errc_key_value key_value_path_not_found)"
  by (simp add: mutate_in_make_response_def prepare_specs_def number_spec_def spec_remove_def
      mk_command_def build_mutate_in_path_flags_def path_flag_defs has_xattr_path_flag_def
      has_binary_value_path_flag_def new_mutate_in_request_def field_of_spec_def
      map_status_code_def Let_def)

subsection \<open>Lookups report the caller's index\<close>

lemma lookup_in_field_frame [simp]: "field_frame (lookup_in_field e f) = field_frame f"
  by (cases e) (simp add: lookup_in_field_def field_frame_def Let_def)

lemma lookup_in_fill_fields_frame:
  "lookup_in_fill_fields es fs err = Some (fs', err') \<Longrightarrow> map field_frame fs' = map field_frame fs"
  by (induction es fs err arbitrary: fs' rule: lookup_in_fill_fields.induct)
    (auto simp: Let_def bind_eq_Some_conv)

lemma lookup_in_fill_fields_error:
  assumes "lookup_in_fill_fields es fs err = Some (fs', Some (j, path))"
    and "err \<noteq> Some (j, path)"
  shows "\<exists>i < length fs'. sf_original_index (fs' ! i) = j \<and> sf_path (fs' ! i) = path
    \<and> sf_ec (fs' ! i) \<noteq> None"
  using assms
proof (induction es fs err arbitrary: fs' rule: lookup_in_fill_fields.induct)
  case (3 e es f fs err)
  let ?f = "lookup_in_field e f"
  let ?err = "if err = None \<and> sf_ec ?f \<noteq> None then Some (sf_original_index ?f, sf_path ?f) else err"
  obtain gs where gs: "lookup_in_fill_fields es fs ?err = Some (gs, Some (j, path))"
    and fs': "fs' = ?f # gs"
    using "3.prems"(1) by (auto simp: Let_def bind_eq_Some_conv)
  show ?case
  proof (cases "?err = Some (j, path)")
    case True
    then show ?thesis using "3.prems"(2) by (intro exI [of _ 0]) (auto simp: fs' split: if_splits)
  next
    case False
    from "3.IH" [OF refl refl gs this] obtain i where "i < length gs"
      "sf_original_index (gs ! i) = j \<and> sf_path (gs ! i) = path \<and> sf_ec (gs ! i) \<noteq> None"
      by blast
    then show ?thesis by (intro exI [of _ "Suc i"]) (simp add: fs')
  qed
qed simp_all

text \<open>
  A lookup reports the first error by the position of the caller: the field at that index is
  one that failed, and the reported path is the path of the caller's command there.
\<close>

theorem lookup_in_error_index:
  assumes resp: "lookup_in_make_response (prepare_specs features specs) None status cas entries
      = Some resp"
    and err: "li_first_error_index resp = Some j"
  shows "j < length specs \<and> sf_ec (li_fields resp ! j) \<noteq> None
    \<and> li_first_error_path resp = Some (sc_path (specs ! j))"
proof -
  let ?ws = "prepare_specs features specs"
  obtain flds path where
    fill: "lookup_in_fill_fields entries (map field_of_spec ?ws) None = Some (flds, Some (j, path))"
    and fields: "li_fields resp = sort_key sf_original_index flds"
    and path: "li_first_error_path resp = Some path"
    using resp err by (auto simp: lookup_in_make_response_def bind_eq_Some_conv)
  have frame: "map field_frame flds = map (field_frame \<circ> field_of_spec) ?ws"
    using lookup_in_fill_fields_frame [OF fill] by simp
  obtain i where i: "i < length flds" "sf_original_index (flds ! i) = j" "sf_path (flds ! i) = path"
      "sf_ec (flds ! i) \<noteq> None"
    using lookup_in_fill_fields_error [OF fill] by blast
  then have iw: "i < length ?ws" using arg_cong [OF frame, of length] by simp
  note eqs = field_of_spec_frame [OF frame iw]
  have "sort_key sf_original_index flds ! j = flds ! i"
    using sorted_field [OF refl frame iw] i eqs by simp
  moreover have "j < length specs \<and> path = sc_path (specs ! j)"
    using prepare_specs_mem [of "?ws ! i" features specs] iw i eqs by auto
  ultimately show ?thesis using i fields path by simp
qed

theorem lookup_in_error_index_witness:
  "li_first_error_path (the (lookup_in_make_response
      (prepare_specs [] [spec_get ''a'' False False, spec_get ''x'' True False]) None 0 7
      [(status_subdoc_path_not_found, [])])) = Some ''x''"
proof -
  let ?specs = "[spec_get ''a'' False False, spec_get ''x'' True False]"
  obtain resp where resp: "lookup_in_make_response (prepare_specs [] ?specs) None 0 7
      [(status_subdoc_path_not_found, [])] = Some resp" and "li_first_error_index resp = Some 1"
    by (simp add: lookup_in_make_response_def prepare_specs_def number_spec_def spec_get_def
        mk_command_def build_lookup_in_path_flags_def path_flag_defs has_xattr_path_flag_def
        has_binary_value_path_flag_def field_of_spec_def lookup_in_field_def map_status_code_def
        Let_def)
  from lookup_in_error_index [OF this] have "li_first_error_path resp = Some ''x''"
    by (simp add: spec_get_def mk_command_def)
  then show ?thesis unfolding resp by simp
qed

subsection \<open>Truncated responses\<close>

lemma load_le32_short: "length b < off + 4 \<Longrightarrow> load_le32 b off = None"
  by (simp add: load_le32_def mem_read_def)

lemma load_le16_short: "length b < off + 2 \<Longrightarrow> load_le16 b off = None"
  by (simp add: load_le16_def mem_read_def)

text \<open>
  A lookup response that ends inside the header of an entry makes the parser read past the end of
  the body.
\<close>

theorem parse_lookup_in_overrun:
  assumes "off < length body" and "length body < off + 6"
  shows "parse_lookup_in_entries body off = None"
  using assms
  by (subst parse_lookup_in_entries.simps)
    (auto simp: read_entry_status_def read_entry_value_def bind_eq_None_conv load_le32_short
      split: option.splits)

end
