(* ===== verification/Txn_Errors.thy ===== *)
theory Txn_Errors
  imports Errors Subdoc
begin

text \<open>
  The error vocabulary of distributed transactions: the error classes of
  \<^verbatim>\<open>core/transactions/error_class.hxx\<close>, the exceptions of \<^verbatim>\<open>exceptions.hxx\<close> and
  \<^verbatim>\<open>internal/exceptions_internal.hxx\<close>, the classification of server results
  (\<^verbatim>\<open>exceptions.cxx\<close>, \<^verbatim>\<open>internal/utils.hxx\<close>, \<^verbatim>\<open>utils.cxx\<close>) and the states of
  an attempt (\<^verbatim>\<open>attempt_state.hxx\<close>). The message of an exception (\<^verbatim>\<open>what()\<close>) plays
  no part in any decision and is left out.
\<close>

subsection \<open>Classes of errors and exceptions\<close>

datatype error_class =
  FAIL_HARD | FAIL_OTHER | FAIL_TRANSIENT | FAIL_AMBIGUOUS | FAIL_DOC_ALREADY_EXISTS
  | FAIL_DOC_NOT_FOUND | FAIL_PATH_NOT_FOUND | FAIL_CAS_MISMATCH | FAIL_WRITE_WRITE_CONFLICT
  | FAIL_ATR_FULL | FAIL_PATH_ALREADY_EXISTS | FAIL_EXPIRY

datatype external_exception =
  UNKNOWN | ACTIVE_TRANSACTION_RECORD_ENTRY_NOT_FOUND | ACTIVE_TRANSACTION_RECORD_FULL
  | ACTIVE_TRANSACTION_RECORD_NOT_FOUND | DOCUMENT_ALREADY_IN_TRANSACTION
  | DOCUMENT_EXISTS_EXCEPTION | DOCUMENT_NOT_FOUND_EXCEPTION | NOT_SET
  | FEATURE_NOT_AVAILABLE_EXCEPTION | TRANSACTION_ABORTED_EXTERNALLY | PREVIOUS_OPERATION_FAILED
  | FORWARD_COMPATIBILITY_FAILURE | PARSING_FAILURE | ILLEGAL_STATE_EXCEPTION
  | COUCHBASE_EXCEPTION | SERVICE_NOT_AVAILABLE_EXCEPTION | REQUEST_CANCELED_EXCEPTION
  | CONCURRENT_OPERATIONS_DETECTED_ON_SAME_DOCUMENT | COMMIT_NOT_PERMITTED
  | ROLLBACK_NOT_PERMITTED | TRANSACTION_ALREADY_ABORTED | TRANSACTION_ALREADY_COMMITTED
  | DOCUMENT_UNRETRIEVABLE_EXCEPTION

datatype final_error = FAILED | EXPIRED | FAILED_POST_COMMIT | AMBIGUOUS

datatype failure_type = failure_FAIL | failure_EXPIRY | failure_COMMIT_AMBIGUOUS

fun external_exception_from_error_class :: "error_class \<Rightarrow> external_exception" where
  "external_exception_from_error_class FAIL_DOC_NOT_FOUND = DOCUMENT_NOT_FOUND_EXCEPTION"
| "external_exception_from_error_class FAIL_DOC_ALREADY_EXISTS = DOCUMENT_EXISTS_EXCEPTION"
| "external_exception_from_error_class _ = UNKNOWN"

fun error_class_from_external_exception :: "external_exception \<Rightarrow> error_class" where
  "error_class_from_external_exception DOCUMENT_NOT_FOUND_EXCEPTION = FAIL_DOC_NOT_FOUND"
| "error_class_from_external_exception DOCUMENT_EXISTS_EXCEPTION = FAIL_DOC_ALREADY_EXISTS"
| "error_class_from_external_exception _ = FAIL_OTHER"

fun transaction_op_errc_from_external_exception ::
  "external_exception \<Rightarrow> transaction_op_errc option" where
  "transaction_op_errc_from_external_exception NOT_SET = None"
| "transaction_op_errc_from_external_exception UNKNOWN = Some transaction_op_generic"
| "transaction_op_errc_from_external_exception COUCHBASE_EXCEPTION = Some transaction_op_generic"
| "transaction_op_errc_from_external_exception ACTIVE_TRANSACTION_RECORD_ENTRY_NOT_FOUND =
     Some transaction_op_active_transaction_record_entry_not_found"
| "transaction_op_errc_from_external_exception ACTIVE_TRANSACTION_RECORD_FULL =
     Some transaction_op_active_transaction_record_full"
| "transaction_op_errc_from_external_exception COMMIT_NOT_PERMITTED =
     Some transaction_op_commit_not_permitted"
| "transaction_op_errc_from_external_exception ACTIVE_TRANSACTION_RECORD_NOT_FOUND =
     Some transaction_op_active_transaction_record_not_found"
| "transaction_op_errc_from_external_exception CONCURRENT_OPERATIONS_DETECTED_ON_SAME_DOCUMENT =
     Some transaction_op_concurrent_operations_detected_on_same_document"
| "transaction_op_errc_from_external_exception DOCUMENT_ALREADY_IN_TRANSACTION =
     Some transaction_op_document_already_in_transaction"
| "transaction_op_errc_from_external_exception DOCUMENT_EXISTS_EXCEPTION =
     Some transaction_op_document_exists"
| "transaction_op_errc_from_external_exception DOCUMENT_NOT_FOUND_EXCEPTION =
     Some transaction_op_document_not_found"
| "transaction_op_errc_from_external_exception FEATURE_NOT_AVAILABLE_EXCEPTION =
     Some transaction_op_feature_not_available"
| "transaction_op_errc_from_external_exception FORWARD_COMPATIBILITY_FAILURE =
     Some transaction_op_forward_compatibility_failure"
| "transaction_op_errc_from_external_exception ILLEGAL_STATE_EXCEPTION =
     Some transaction_op_illegal_state"
| "transaction_op_errc_from_external_exception PARSING_FAILURE =
     Some transaction_op_parsing_failure"
| "transaction_op_errc_from_external_exception PREVIOUS_OPERATION_FAILED =
     Some transaction_op_previous_operation_failed"
| "transaction_op_errc_from_external_exception REQUEST_CANCELED_EXCEPTION =
     Some transaction_op_request_canceled"
| "transaction_op_errc_from_external_exception ROLLBACK_NOT_PERMITTED =
     Some transaction_op_rollback_not_permitted"
| "transaction_op_errc_from_external_exception SERVICE_NOT_AVAILABLE_EXCEPTION =
     Some transaction_op_service_not_available"
| "transaction_op_errc_from_external_exception TRANSACTION_ABORTED_EXTERNALLY =
     Some transaction_op_transaction_aborted_externally"
| "transaction_op_errc_from_external_exception TRANSACTION_ALREADY_ABORTED =
     Some transaction_op_transaction_already_aborted"
| "transaction_op_errc_from_external_exception TRANSACTION_ALREADY_COMMITTED =
     Some transaction_op_transaction_already_committed"
| "transaction_op_errc_from_external_exception DOCUMENT_UNRETRIEVABLE_EXCEPTION =
     Some transaction_op_document_unretrievable"

fun external_exception_from_transaction_op_errc ::
  "transaction_op_errc \<Rightarrow> external_exception" where
  "external_exception_from_transaction_op_errc transaction_op_generic = UNKNOWN"
| "external_exception_from_transaction_op_errc
     transaction_op_active_transaction_record_entry_not_found =
     ACTIVE_TRANSACTION_RECORD_ENTRY_NOT_FOUND"
| "external_exception_from_transaction_op_errc transaction_op_active_transaction_record_full =
     ACTIVE_TRANSACTION_RECORD_FULL"
| "external_exception_from_transaction_op_errc
     transaction_op_active_transaction_record_not_found = ACTIVE_TRANSACTION_RECORD_NOT_FOUND"
| "external_exception_from_transaction_op_errc transaction_op_document_already_in_transaction =
     DOCUMENT_ALREADY_IN_TRANSACTION"
| "external_exception_from_transaction_op_errc transaction_op_document_exists =
     DOCUMENT_EXISTS_EXCEPTION"
| "external_exception_from_transaction_op_errc transaction_op_document_not_found =
     DOCUMENT_NOT_FOUND_EXCEPTION"
| "external_exception_from_transaction_op_errc transaction_op_feature_not_available =
     FEATURE_NOT_AVAILABLE_EXCEPTION"
| "external_exception_from_transaction_op_errc transaction_op_transaction_aborted_externally =
     TRANSACTION_ABORTED_EXTERNALLY"
| "external_exception_from_transaction_op_errc transaction_op_previous_operation_failed =
     PREVIOUS_OPERATION_FAILED"
| "external_exception_from_transaction_op_errc transaction_op_forward_compatibility_failure =
     FORWARD_COMPATIBILITY_FAILURE"
| "external_exception_from_transaction_op_errc transaction_op_parsing_failure = PARSING_FAILURE"
| "external_exception_from_transaction_op_errc transaction_op_illegal_state =
     ILLEGAL_STATE_EXCEPTION"
| "external_exception_from_transaction_op_errc transaction_op_service_not_available =
     SERVICE_NOT_AVAILABLE_EXCEPTION"
| "external_exception_from_transaction_op_errc transaction_op_request_canceled =
     REQUEST_CANCELED_EXCEPTION"
| "external_exception_from_transaction_op_errc
     transaction_op_concurrent_operations_detected_on_same_document =
     CONCURRENT_OPERATIONS_DETECTED_ON_SAME_DOCUMENT"
| "external_exception_from_transaction_op_errc transaction_op_commit_not_permitted =
     COMMIT_NOT_PERMITTED"
| "external_exception_from_transaction_op_errc transaction_op_rollback_not_permitted =
     ROLLBACK_NOT_PERMITTED"
| "external_exception_from_transaction_op_errc transaction_op_transaction_already_aborted =
     TRANSACTION_ALREADY_ABORTED"
| "external_exception_from_transaction_op_errc transaction_op_transaction_already_committed =
     TRANSACTION_ALREADY_COMMITTED"
| "external_exception_from_transaction_op_errc transaction_op_document_unretrievable =
     DOCUMENT_UNRETRIEVABLE_EXCEPTION"
| "external_exception_from_transaction_op_errc transaction_op_transaction_op_failed = UNKNOWN"

subsection \<open>The state of an attempt\<close>

datatype attempt_state =
  state_NOT_STARTED | state_PENDING | state_ABORTED | state_COMMITTED | state_COMPLETED
  | state_ROLLED_BACK | state_UNKNOWN

primrec attempt_state_name :: "attempt_state \<Rightarrow> string" where
  "attempt_state_name state_NOT_STARTED = ''NOT_STARTED''"
| "attempt_state_name state_PENDING = ''PENDING''"
| "attempt_state_name state_ABORTED = ''ABORTED''"
| "attempt_state_name state_COMMITTED = ''COMMITTED''"
| "attempt_state_name state_COMPLETED = ''COMPLETED''"
| "attempt_state_name state_ROLLED_BACK = ''ROLLED_BACK''"
| "attempt_state_name state_UNKNOWN = ''UNKNOWN''"

definition attempt_state_value :: "string \<Rightarrow> attempt_state" where
  "attempt_state_value str =
     (if str = ''NOT_STARTED'' then state_NOT_STARTED
      else if str = ''PENDING'' then state_PENDING
      else if str = ''ABORTED'' then state_ABORTED
      else if str = ''COMMITTED'' then state_COMMITTED
      else if str = ''COMPLETED'' then state_COMPLETED
      else if str = ''ROLLED_BACK'' then state_ROLLED_BACK
      else state_UNKNOWN)"

lemma attempt_state_value_name [simp]: "attempt_state_value (attempt_state_name s) = s"
  by (cases s) (simp_all add: attempt_state_value_def)

subsection \<open>The failure of an operation\<close>

text \<open>
  \<^verbatim>\<open>class transaction_operation_failed\<close>: whether the transaction may be retried, whether the
  attempt has to be rolled back first, and what is raised to the application in the end.
\<close>

record transaction_operation_failed =
  tof_ec :: error_class
  tof_retry :: bool
  tof_rollback :: bool
  tof_to_raise :: final_error
  tof_cause :: external_exception

definition op_failed :: "error_class \<Rightarrow> transaction_operation_failed" where
  "op_failed ec = \<lparr> tof_ec = ec, tof_retry = False, tof_rollback = True, tof_to_raise = FAILED,
     tof_cause = external_exception_from_error_class ec \<rparr>"

definition op_failed_cause ::
  "error_class \<Rightarrow> external_exception option \<Rightarrow> transaction_operation_failed" where
  "op_failed_cause ec c = (op_failed ec) \<lparr> tof_cause :=
     (let e = (case c of None \<Rightarrow> UNKNOWN | Some e \<Rightarrow> e)
      in if e = UNKNOWN then external_exception_from_error_class ec else e) \<rparr>"

text \<open>The builder methods, each returning the updated object.\<close>

definition with_retry :: "transaction_operation_failed \<Rightarrow> transaction_operation_failed" where
  "with_retry e = e\<lparr> tof_retry := True \<rparr>"

definition no_rollback :: "transaction_operation_failed \<Rightarrow> transaction_operation_failed" where
  "no_rollback e = e\<lparr> tof_rollback := False \<rparr>"

definition expired :: "transaction_operation_failed \<Rightarrow> transaction_operation_failed" where
  "expired e = e\<lparr> tof_to_raise := EXPIRED \<rparr>"

definition failed_post_commit :: "transaction_operation_failed \<Rightarrow> transaction_operation_failed" where
  "failed_post_commit e = e\<lparr> tof_to_raise := FAILED_POST_COMMIT \<rparr>"

definition ambiguous :: "transaction_operation_failed \<Rightarrow> transaction_operation_failed" where
  "ambiguous e = e\<lparr> tof_to_raise := AMBIGUOUS \<rparr>"

definition with_cause ::
  "external_exception \<Rightarrow> transaction_operation_failed \<Rightarrow> transaction_operation_failed" where
  "with_cause c e = e\<lparr> tof_cause := c \<rparr>"

lemmas tof_defs = op_failed_def op_failed_cause_def with_retry_def no_rollback_def expired_def
  failed_post_commit_def ambiguous_def with_cause_def

lemma tof_builders [simp]:
  "tof_retry (op_failed ec) = False" "tof_rollback (op_failed ec)"
  "tof_to_raise (op_failed ec) = FAILED" "tof_ec (op_failed ec) = ec"
  "tof_retry (op_failed_cause ec d) = False" "tof_rollback (op_failed_cause ec d)"
  "tof_retry (with_retry e)" "tof_rollback (with_retry e) = tof_rollback e"
  "tof_to_raise (with_retry e) = tof_to_raise e"
  "tof_rollback (no_rollback e) = False" "tof_retry (no_rollback e) = tof_retry e"
  "tof_to_raise (no_rollback e) = tof_to_raise e"
  "tof_rollback (expired e) = tof_rollback e" "tof_retry (expired e) = tof_retry e"
  "tof_to_raise (expired e) = EXPIRED"
  "tof_rollback (failed_post_commit e) = tof_rollback e"
  "tof_retry (failed_post_commit e) = tof_retry e"
  "tof_to_raise (failed_post_commit e) = FAILED_POST_COMMIT"
  "tof_rollback (ambiguous e) = tof_rollback e" "tof_retry (ambiguous e) = tof_retry e"
  "tof_to_raise (ambiguous e) = AMBIGUOUS"
  "tof_rollback (with_cause c e) = tof_rollback e" "tof_retry (with_cause c e) = tof_retry e"
  "tof_to_raise (with_cause c e) = tof_to_raise e" "tof_cause (with_cause c e) = c"
  by (simp_all add: tof_defs)

text \<open>
  \<^verbatim>\<open>merge_errors\<close>: one error out of the list of errors of an attempt. Merging an empty list
  reads the front of an empty \<^verbatim>\<open>std::list\<close>.
\<close>

fun merge_loop ::
  "transaction_operation_failed \<Rightarrow> transaction_operation_failed list \<Rightarrow>
   transaction_operation_failed" where
  "merge_loop error_to_throw [] = error_to_throw"
| "merge_loop error_to_throw (ex # errors) =
     (let error_to_throw' = (if \<not> tof_retry ex then ex else error_to_throw)
      in if \<not> tof_rollback ex then ex else merge_loop error_to_throw' errors)"

definition merge_errors ::
  "transaction_operation_failed list \<Rightarrow> external_exception option \<Rightarrow>
   transaction_operation_failed run" where
  "merge_errors errors c =
     (case errors of [] \<Rightarrow> None
      | e # _ \<Rightarrow> (let m = merge_loop e errors
                 in Some (case c of None \<Rightarrow> m | Some x \<Rightarrow> with_cause x m)))"

text \<open>What the application sees; \<open>None\<close> for a failure after the commit point.\<close>

definition get_final_exception :: "transaction_operation_failed \<Rightarrow> failure_type option" where
  "get_final_exception e =
     (case tof_to_raise e of
        EXPIRED \<Rightarrow> Some failure_EXPIRY
      | AMBIGUOUS \<Rightarrow> Some failure_COMMIT_AMBIGUOUS
      | FAILED_POST_COMMIT \<Rightarrow> None
      | FAILED \<Rightarrow> Some failure_FAIL)"

primrec failure_errc :: "failure_type \<Rightarrow> transaction_errc" where
  "failure_errc failure_FAIL = transaction_failed"
| "failure_errc failure_EXPIRY = transaction_expired"
| "failure_errc failure_COMMIT_AMBIGUOUS = transaction_ambiguous"

text \<open>The exceptions that travel through the transaction code.\<close>

datatype txn_exception =
    Op_failed transaction_operation_failed
  | Client_error error_class
  | Retry_operation
  | Retry_operation_retries_exhausted
  | Retry_operation_timeout
  | Async_operation_conflict
  | Op_exception external_exception
  | Std_exception

subsection \<open>Results of server operations\<close>

text \<open>
  \<^verbatim>\<open>struct result\<close>: the values are the contents and status codes of the sub-document
  operations. The asserted precondition of \<^verbatim>\<open>error_class_from_result\<close> is modelled as a
  definedness condition.
\<close>

record txn_result =
  res_ec :: "errc option"
  res_cas :: u64
  res_values :: "(bytes \<times> u16) list"
  res_is_deleted :: bool
  res_ignore_subdoc_errors :: bool

definition is_success :: "txn_result \<Rightarrow> bool" where
  "is_success res \<longleftrightarrow> res_ec res = None"

definition subdoc_status :: "txn_result \<Rightarrow> u16" where
  "subdoc_status res =
     (case find (\<lambda>v. snd v \<noteq> status_success) (res_values res) of
        Some v \<Rightarrow> snd v | None \<Rightarrow> status_success)"

definition error_class_of_code :: "errc \<Rightarrow> error_class option" where
  "error_class_of_code ec =
     (if ec = errc_key_value key_value_document_not_found then Some FAIL_DOC_NOT_FOUND
      else if ec = errc_key_value key_value_document_exists then Some FAIL_DOC_ALREADY_EXISTS
      else if ec = errc_common common_cas_mismatch then Some FAIL_CAS_MISMATCH
      else if ec = errc_key_value key_value_value_too_large then Some FAIL_ATR_FULL
      else if ec = errc_common common_unambiguous_timeout
        \<or> ec = errc_common common_temporary_failure
        \<or> ec = errc_key_value key_value_durable_write_in_progress then Some FAIL_TRANSIENT
      else if ec = errc_key_value key_value_durability_ambiguous
        \<or> ec = errc_common common_ambiguous_timeout
        \<or> ec = errc_common common_request_canceled then Some FAIL_AMBIGUOUS
      else if ec = errc_key_value key_value_path_not_found then Some FAIL_PATH_NOT_FOUND
      else if ec = errc_key_value key_value_path_exists then Some FAIL_PATH_ALREADY_EXISTS
      else None)"

definition error_class_from_result :: "txn_result \<Rightarrow> error_class run" where
  "error_class_from_result res =
     (if res_ec res = None \<and> (res_ignore_subdoc_errors res \<or> subdoc_status res = status_success)
      then None
      else if res_ec res \<noteq> None \<or> res_ignore_subdoc_errors res
      then Some (case res_ec res \<bind> error_class_of_code of Some c \<Rightarrow> c | None \<Rightarrow> FAIL_OTHER)
      else if subdoc_status res = status_subdoc_path_not_found then Some FAIL_PATH_NOT_FOUND
      else if subdoc_status res = status_subdoc_path_exists then Some FAIL_PATH_ALREADY_EXISTS
      else Some FAIL_OTHER)"

text \<open>\<^verbatim>\<open>throw client_error(res)\<close>, whose constructor classifies the result.\<close>

definition throw_client_error :: "txn_result \<Rightarrow> (txn_exception + 'a) run" where
  "throw_client_error res = map_option (\<lambda>c. Inl (Client_error c)) (error_class_from_result res)"

definition validate_operation_result ::
  "bool \<Rightarrow> txn_result \<Rightarrow> (txn_exception + txn_result) run" where
  "validate_operation_result ignore_subdoc_errors res =
     (if \<not> is_success res then throw_client_error res
      else if res_is_deleted res \<and> res_values res = []
      then throw_client_error
             (res\<lparr> res_ec := Some (errc_key_value key_value_document_not_found) \<rparr>)
      else if res_values res \<noteq> [] \<and> \<not> ignore_subdoc_errors
        \<and> (\<exists>v \<in> set (res_values res). snd v \<noteq> status_success)
      then throw_client_error res
      else Some (Inr res))"

definition create_from_subdoc_response :: "mutate_in_response \<Rightarrow> txn_result" where
  "create_from_subdoc_response resp =
     \<lparr> res_ec = mi_ec resp, res_cas = mi_cas resp,
       res_values = map (\<lambda>f. (sf_value f, sf_status f)) (mi_fields resp),
       res_is_deleted = mi_deleted resp, res_ignore_subdoc_errors = False \<rparr>"

definition create_from_mutation_response :: "errc option \<Rightarrow> u64 \<Rightarrow> txn_result" where
  "create_from_mutation_response ec cas =
     \<lparr> res_ec = ec, res_cas = cas, res_values = [], res_is_deleted = False,
       res_ignore_subdoc_errors = False \<rparr>"

text \<open>\<^verbatim>\<open>std::vector::at\<close> throws \<^verbatim>\<open>std::out_of_range\<close>.\<close>

definition field_at ::
  "mutate_in_response \<Rightarrow> nat \<Rightarrow> txn_exception + subdoc_field" where
  "field_at resp i =
     (if i < length (mi_fields resp) then Inr (mi_fields resp ! i) else Inl Std_exception)"

definition mi_is_error :: "mutate_in_response \<Rightarrow> bool" where
  "mi_is_error resp \<longleftrightarrow> mi_ec resp \<noteq> None \<or> mi_first_error_index resp \<noteq> None"

definition error_class_from_response_extras ::
  "mutate_in_response \<Rightarrow> txn_exception + error_class option" where
  "error_class_from_response_extras resp =
     (case mi_first_error_index resp of
        None \<Rightarrow> Inr None
      | Some i \<Rightarrow>
          (case field_at resp i of
             Inl e \<Rightarrow> Inl e
           | Inr f \<Rightarrow>
               Inr (Some (if sf_status f = status_subdoc_path_not_found then FAIL_PATH_NOT_FOUND
                          else if sf_status f = status_subdoc_path_exists
                          then FAIL_PATH_ALREADY_EXISTS
                          else FAIL_OTHER))))"

definition error_class_from_response ::
  "mutate_in_response \<Rightarrow> txn_exception + error_class option" where
  "error_class_from_response resp =
     (if \<not> mi_is_error resp then Inr None
      else case mi_ec resp \<bind> error_class_of_code of
        Some c \<Rightarrow> Inr (Some c)
      | None \<Rightarrow>
          (case error_class_from_response_extras resp of
             Inl e \<Rightarrow> Inl e
           | Inr (Some c) \<Rightarrow> Inr (Some c)
           | Inr None \<Rightarrow> Inr (if mi_ec resp \<noteq> None then Some FAIL_OTHER else None)))"

definition external_exception_from_response ::
  "mutate_in_response \<Rightarrow> txn_exception + external_exception" where
  "external_exception_from_response resp =
     (if mi_ec resp = Some (errc_key_value key_value_document_irretrievable)
      then Inr DOCUMENT_UNRETRIEVABLE_EXCEPTION
      else case mi_first_error_index resp of
        None \<Rightarrow> Inr UNKNOWN
      | Some i \<Rightarrow>
          (case field_at resp i of
             Inl e \<Rightarrow> Inl e
           | Inr f \<Rightarrow>
               Inr (if sf_status f = status_subdoc_value_cannot_insert \<and> sf_path f = ''txn.op.bin''
                    then FEATURE_NOT_AVAILABLE_EXCEPTION else UNKNOWN)))"

subsection \<open>Properties\<close>

lemma find_status_Some:
  "v \<in> set vs \<Longrightarrow> P v \<Longrightarrow> \<exists>w. find P vs = Some w \<and> P w"
  by (induction vs) auto

lemma error_class_from_result_defined:
  assumes "res_ec res \<noteq> None \<or> (\<not> res_ignore_subdoc_errors res \<and> subdoc_status res \<noteq> status_success)"
  shows "error_class_from_result res \<noteq> None"
  using assms by (auto simp: error_class_from_result_def)

lemma subdoc_status_failure:
  assumes "v \<in> set (res_values res)" and "snd v \<noteq> status_success"
  shows "subdoc_status res \<noteq> status_success"
  using find_status_Some [of v "res_values res" "\<lambda>v. snd v \<noteq> status_success"] assms
  by (auto simp: subdoc_status_def)

lemma validate_operation_result_defined:
  assumes "\<not> res_ignore_subdoc_errors res"
  shows "validate_operation_result ign res \<noteq> None"
proof -
  let ?del = "res\<lparr> res_ec := Some (errc_key_value key_value_document_not_found) \<rparr>"
  have "error_class_from_result ?del \<noteq> None"
    by (rule error_class_from_result_defined) simp
  moreover have "error_class_from_result res \<noteq> None" if "\<not> is_success res"
    using that by (intro error_class_from_result_defined) (simp add: is_success_def)
  moreover have "error_class_from_result res \<noteq> None"
    if "\<exists>v \<in> set (res_values res). snd v \<noteq> status_success"
    using that assms by (intro error_class_from_result_defined) (blast dest: subdoc_status_failure)
  ultimately show ?thesis
    unfolding validate_operation_result_def throw_client_error_def by simp
qed

lemma validate_success_iff:
  "validate_operation_result True res = Some (Inr r) \<longleftrightarrow>
     r = res \<and> is_success res \<and> \<not> (res_is_deleted res \<and> res_values res = [])"
  by (auto simp: validate_operation_result_def throw_client_error_def)

lemma merge_loop_rollback:
  "tof_rollback (merge_loop a es) \<longleftrightarrow>
     list_all tof_rollback es \<and> (list_all tof_retry es \<longrightarrow> tof_rollback a)"
  by (induction es arbitrary: a) (auto simp: Let_def)

lemma merge_loop_retry:
  "list_all tof_rollback es \<Longrightarrow>
     tof_retry (merge_loop a es) \<longleftrightarrow> tof_retry a \<and> list_all tof_retry es"
  by (induction es arbitrary: a) (auto simp: Let_def)

lemma merge_loop_first_fatal:
  "find (\<lambda>e. \<not> tof_rollback e) es = Some e \<Longrightarrow> merge_loop a es = e"
  by (induction es arbitrary: a) (auto simp: Let_def split: if_splits)

text \<open>
  Merging the errors of an attempt is defined for every non-empty list. The merged error asks
  for a rollback exactly when all of them do; if they all do, it allows a retry exactly when all of
  them do; and if one forbids the rollback, the first such error decides whether to retry and what
  is raised.
\<close>

theorem merge_errors_decision:
  assumes "errors \<noteq> []"
  shows "\<exists>m. merge_errors errors c = Some m
    \<and> (tof_rollback m \<longleftrightarrow> list_all tof_rollback errors)
    \<and> (list_all tof_rollback errors \<longrightarrow> (tof_retry m \<longleftrightarrow> list_all tof_retry errors))
    \<and> (\<forall>e. find (\<lambda>e. \<not> tof_rollback e) errors = Some e \<longrightarrow>
         tof_retry m = tof_retry e \<and> tof_to_raise m = tof_to_raise e)"
proof -
  obtain e es where es: "errors = e # es" using assms by (cases errors) auto
  let ?m = "merge_loop e errors"
  let ?r = "case c of None \<Rightarrow> ?m | Some x \<Rightarrow> with_cause x ?m"
  have same: "tof_rollback ?r = tof_rollback ?m" "tof_retry ?r = tof_retry ?m"
    "tof_to_raise ?r = tof_to_raise ?m"
    by (simp_all split: option.splits)
  have "merge_errors errors c = Some ?r" unfolding merge_errors_def Let_def es by simp
  moreover have "tof_rollback ?m \<longleftrightarrow> list_all tof_rollback errors"
    unfolding merge_loop_rollback by (auto simp: es)
  moreover have "list_all tof_rollback errors \<Longrightarrow> tof_retry ?m \<longleftrightarrow> list_all tof_retry errors"
    by (subst merge_loop_retry) (auto simp: es)
  ultimately show ?thesis
    using merge_loop_first_fatal [of errors _ e] by (intro exI [of _ ?r]) (auto simp: same)
qed

theorem merge_errors_decision_witness:
  "\<exists>m. merge_errors [with_retry (op_failed FAIL_TRANSIENT), no_rollback (op_failed FAIL_HARD)] None
     = Some m \<and> \<not> tof_rollback m"
  using merge_errors_decision
    [of "[with_retry (op_failed FAIL_TRANSIENT), no_rollback (op_failed FAIL_HARD)]" None]
  by auto

end
