(* ===== verification/Staged_Mutations.thy ===== *)
theory Staged_Mutations
  imports Txn_Errors Document_Id
begin

text \<open>
  The queue of staged mutations of an attempt, \<^verbatim>\<open>class staged_mutation_queue\<close> of
  \<^verbatim>\<open>core/transactions/staged_mutation.cxx\<close>: the mutations in the order they were staged, at most
  one for a document. The contract of the queue is a finite map from documents to mutations; the
  operations are shown to implement it.
\<close>

subsection \<open>Flags of encoded values\<close>

text \<open>\<^verbatim>\<open>couchbase/codec/codec_flags.hxx\<close>\<close>

definition common_format_mask :: u32 where
  "common_format_mask = 0x0F000000"

abbreviation (input) common_reserved :: u32 where "common_reserved \<equiv> 0"
abbreviation (input) common_client_specific :: u32 where "common_client_specific \<equiv> 1"
abbreviation (input) common_json :: u32 where "common_json \<equiv> 2"
abbreviation (input) common_binary :: u32 where "common_binary \<equiv> 3"
abbreviation (input) common_string :: u32 where "common_string \<equiv> 4"

definition create_common_flags :: "u32 \<Rightarrow> u32" where
  "create_common_flags flags = push_bit 24 flags"

definition extract_common_flags :: "u32 \<Rightarrow> u32" where
  "extract_common_flags flags =
     (let value = drop_bit 24 flags
      in if value \<in> {common_client_specific, common_json, common_binary, common_string}
         then value else common_reserved)"

definition has_common_flags :: "u32 \<Rightarrow> u32 \<Rightarrow> bool" where
  "has_common_flags flags expected \<longleftrightarrow>
     extract_common_flags flags \<noteq> common_reserved \<and> flags AND common_format_mask = expected"

definition json_common_flags :: u32 where
  "json_common_flags = create_common_flags common_json"

definition binary_common_flags :: u32 where
  "binary_common_flags = create_common_flags common_binary"

subsection \<open>Staged mutations\<close>

datatype staged_mutation_type = mutation_INSERT | mutation_REMOVE | mutation_REPLACE

record document_metadata =
  md_cas :: "string option"
  md_revid :: "string option"
  md_exptime :: "u32 option"
  md_crc32 :: "string option"

record staged_mutation =
  sm_type :: staged_mutation_type
  sm_id :: document_id
  sm_cas :: u64
  sm_content :: "bytes option"
  sm_staged_flags :: u32
  sm_user_flags :: u32
  sm_metadata :: "document_metadata option"
  sm_operation_id :: string

definition is_staged_binary :: "staged_mutation \<Rightarrow> bool" where
  "is_staged_binary m \<longleftrightarrow> extract_common_flags (sm_staged_flags m) = common_binary"

primrec type_as_string :: "staged_mutation_type \<Rightarrow> string" where
  "type_as_string mutation_INSERT = ''INSERT''"
| "type_as_string mutation_REMOVE = ''REMOVE''"
| "type_as_string mutation_REPLACE = ''REPLACE''"

definition document_ids_equal :: "document_id \<Rightarrow> document_id \<Rightarrow> bool" where
  "document_ids_equal id1 id2 \<longleftrightarrow>
     id_key id1 = id_key id2 \<and> id_bucket id1 = id_bucket id2 \<and> id_scope id1 = id_scope id2
     \<and> id_collection id1 = id_collection id2"

text \<open>The four components a document is identified by.\<close>

type_synonym doc_ref = "string \<times> string \<times> string \<times> string"

definition doc_ref :: "document_id \<Rightarrow> doc_ref" where
  "doc_ref i = (id_key i, id_bucket i, id_scope i, id_collection i)"

lemma document_ids_equal_ref [simp]: "document_ids_equal i j \<longleftrightarrow> doc_ref i = doc_ref j"
  by (simp add: document_ids_equal_def doc_ref_def)

subsection \<open>The queue\<close>

type_synonym mutation_queue = "staged_mutation list"

definition smq_empty :: "mutation_queue \<Rightarrow> bool" where
  "smq_empty q \<longleftrightarrow> q = []"

definition smq_remove_any :: "document_id \<Rightarrow> mutation_queue \<Rightarrow> mutation_queue" where
  "smq_remove_any i q = filter (\<lambda>item. \<not> document_ids_equal (sm_id item) i) q"

definition smq_add :: "staged_mutation \<Rightarrow> mutation_queue \<Rightarrow> mutation_queue" where
  "smq_add m q = filter (\<lambda>item. \<not> document_ids_equal (sm_id item) (sm_id m)) q @ [m]"

definition smq_find_any :: "document_id \<Rightarrow> mutation_queue \<Rightarrow> staged_mutation option" where
  "smq_find_any i q = find (\<lambda>item. document_ids_equal (sm_id item) i) q"

definition smq_find_replace :: "document_id \<Rightarrow> mutation_queue \<Rightarrow> staged_mutation option" where
  "smq_find_replace i q =
     find (\<lambda>item. sm_type item = mutation_REPLACE \<and> document_ids_equal (sm_id item) i) q"

definition smq_find_insert :: "document_id \<Rightarrow> mutation_queue \<Rightarrow> staged_mutation option" where
  "smq_find_insert i q =
     find (\<lambda>item. sm_type item = mutation_INSERT \<and> document_ids_equal (sm_id item) i) q"

definition smq_find_remove :: "document_id \<Rightarrow> mutation_queue \<Rightarrow> staged_mutation option" where
  "smq_find_remove i q =
     find (\<lambda>item. sm_type item = mutation_REMOVE \<and> document_ids_equal (sm_id item) i) q"

text \<open>
  \<^verbatim>\<open>extract_to\<close>: the documents written into the transaction record, one list for each type.
  The lists become JSON arrays of objects with the fields \<^verbatim>\<open>id\<close>, \<^verbatim>\<open>bkt\<close>,
  \<^verbatim>\<open>scp\<close> and \<^verbatim>\<open>col\<close>.
\<close>

fun extract_loop :: "mutation_queue \<Rightarrow> doc_ref list \<times> doc_ref list \<times> doc_ref list \<Rightarrow>
    doc_ref list \<times> doc_ref list \<times> doc_ref list" where
  "extract_loop [] acc = acc"
| "extract_loop (m # q) (inserts, replaces, removes) =
     extract_loop q
       (case sm_type m of
          mutation_INSERT \<Rightarrow> (inserts @ [doc_ref (sm_id m)], replaces, removes)
        | mutation_REMOVE \<Rightarrow> (inserts, replaces, removes @ [doc_ref (sm_id m)])
        | mutation_REPLACE \<Rightarrow> (inserts, replaces @ [doc_ref (sm_id m)], removes))"

definition extract_to :: "string \<Rightarrow> mutation_queue \<Rightarrow> (string \<times> doc_ref list) list" where
  "extract_to pre q =
     (case extract_loop q ([], [], []) of
        (inserts, replaces, removes) \<Rightarrow>
          [(pre @ ''ins'', inserts), (pre @ ''rep'', replaces), (pre @ ''rem'', removes)])"

subsection \<open>The contract: a map from documents to mutations\<close>

text \<open>
  What the attempt relies on: a lookup after staging or dropping a mutation, and that a lookup of
  one type sees the mutation of the document only when it has that type.
\<close>

locale staged_store =
  fixes lookup :: "'q \<Rightarrow> doc_ref \<Rightarrow> staged_mutation option"
    and stage :: "staged_mutation \<Rightarrow> 'q \<Rightarrow> 'q"
    and drop_doc :: "document_id \<Rightarrow> 'q \<Rightarrow> 'q"
    and ok :: "'q \<Rightarrow> bool"
  assumes lookup_stage: "lookup (stage m q) = (lookup q)(doc_ref (sm_id m) \<mapsto> m)"
    and lookup_drop: "lookup (drop_doc i q) = (lookup q)(doc_ref i := None)"
    and ok_stage: "ok q \<Longrightarrow> ok (stage m q)"
    and ok_drop: "ok q \<Longrightarrow> ok (drop_doc i q)"
    and lookup_ref: "ok q \<Longrightarrow> lookup q r = Some m \<Longrightarrow> doc_ref (sm_id m) = r"
begin

text \<open>Staging twice for one document keeps the later mutation only.\<close>

lemma stage_stage:
  "doc_ref (sm_id m) = doc_ref (sm_id m') \<Longrightarrow> lookup (stage m' (stage m q)) = lookup (stage m' q)"
  by (simp add: lookup_stage)

lemma drop_stage: "lookup (drop_doc (sm_id m) (stage m q)) = lookup (drop_doc (sm_id m) q)"
  by (simp add: lookup_stage lookup_drop)

lemma stage_other:
  "doc_ref (sm_id m) \<noteq> doc_ref i \<Longrightarrow> lookup (stage m q) (doc_ref i) = lookup q (doc_ref i)"
  by (simp add: lookup_stage)

end

definition smq_map :: "mutation_queue \<Rightarrow> doc_ref \<Rightarrow> staged_mutation option" where
  "smq_map q r = find (\<lambda>m. doc_ref (sm_id m) = r) q"

definition smq_ok :: "mutation_queue \<Rightarrow> bool" where
  "smq_ok q = distinct (map (\<lambda>m. doc_ref (sm_id m)) q)"

lemma find_append: "find P (xs @ ys) = (case find P xs of None \<Rightarrow> find P ys | Some x \<Rightarrow> Some x)"
  by (induction xs) auto

lemma find_filter: "find P (filter Q xs) = find (\<lambda>x. Q x \<and> P x) xs"
  by (induction xs) auto

lemma find_cong': "(\<And>x. x \<in> set xs \<Longrightarrow> P x = Q x) \<Longrightarrow> find P xs = find Q xs"
  by (induction xs) auto

lemma find_NoneI: "(\<And>x. x \<in> set xs \<Longrightarrow> \<not> P x) \<Longrightarrow> find P xs = None"
  by (simp add: find_None_iff)

lemma smq_map_filter:
  "smq_map (filter (\<lambda>m. doc_ref (sm_id m) \<noteq> r) q) = (smq_map q)(r := None)"
proof
  fix r'
  show "smq_map (filter (\<lambda>m. doc_ref (sm_id m) \<noteq> r) q) r' = ((smq_map q)(r := None)) r'"
    unfolding smq_map_def find_filter
    by (cases "r' = r") (auto intro: find_NoneI find_cong')
qed

interpretation smq: staged_store smq_map smq_add smq_remove_any smq_ok
proof
  show "smq_map (smq_add m q) = (smq_map q)(doc_ref (sm_id m) \<mapsto> m)" for m q
  proof
    fix r
    show "smq_map (smq_add m q) r = ((smq_map q)(doc_ref (sm_id m) \<mapsto> m)) r"
      using fun_cong [OF smq_map_filter [of "doc_ref (sm_id m)" q], of r]
      by (auto simp: smq_add_def smq_map_def find_append split: option.splits)
  qed
  show "smq_map (smq_remove_any i q) = (smq_map q)(doc_ref i := None)" for i q
    using smq_map_filter [of "doc_ref i" q] by (simp add: smq_remove_any_def)
  show "smq_ok q \<Longrightarrow> smq_ok (smq_add m q)" for m q
    by (auto simp: smq_ok_def smq_add_def distinct_map_filter)
  show "smq_ok q \<Longrightarrow> smq_ok (smq_remove_any i q)" for i q
    by (auto simp: smq_ok_def smq_remove_any_def distinct_map_filter)
  show "smq_map q r = Some m \<Longrightarrow> doc_ref (sm_id m) = r" for q r m
    by (auto simp: smq_map_def find_Some_iff)
qed

lemma smq_find_any_map: "smq_find_any i q = smq_map q (doc_ref i)"
  by (simp add: smq_find_any_def smq_map_def)

lemma smq_map_mem: "smq_ok q \<Longrightarrow> m \<in> set q \<Longrightarrow> smq_map q (doc_ref (sm_id m)) = Some m"
  unfolding smq_ok_def smq_map_def
  by (induction q) (auto simp: rev_image_eqI)

lemma smq_map_Some_mem: "smq_map q r = Some m \<Longrightarrow> m \<in> set q \<and> doc_ref (sm_id m) = r"
  by (auto simp: smq_map_def find_Some_iff)

lemma find_typed:
  assumes "smq_ok q"
  shows "find (\<lambda>item. sm_type item = t \<and> doc_ref (sm_id item) = r) q =
    (case smq_map q r of None \<Rightarrow> None | Some m \<Rightarrow> if sm_type m = t then Some m else None)"
  using assms unfolding smq_ok_def smq_map_def
proof (induction q)
  case (Cons m q)
  have "find (\<lambda>item. sm_type item = t \<and> doc_ref (sm_id item) = r) q = None"
    if "doc_ref (sm_id m) = r"
    using Cons.prems that by (intro find_NoneI) (auto simp: rev_image_eqI image_iff)
  then show ?case using Cons by auto
qed simp

lemma extract_loop_spec:
  "extract_loop q (a, b, c) =
     (a @ map (doc_ref \<circ> sm_id) (filter (\<lambda>m. sm_type m = mutation_INSERT) q),
      b @ map (doc_ref \<circ> sm_id) (filter (\<lambda>m. sm_type m = mutation_REPLACE) q),
      c @ map (doc_ref \<circ> sm_id) (filter (\<lambda>m. sm_type m = mutation_REMOVE) q))"
  by (induction q arbitrary: a b c) (auto split: staged_mutation_type.splits)

lemma extract_to_spec:
  "extract_to pre q =
     [(pre @ ''ins'', map (doc_ref \<circ> sm_id) (filter (\<lambda>m. sm_type m = mutation_INSERT) q)),
      (pre @ ''rep'', map (doc_ref \<circ> sm_id) (filter (\<lambda>m. sm_type m = mutation_REPLACE) q)),
      (pre @ ''rem'', map (doc_ref \<circ> sm_id) (filter (\<lambda>m. sm_type m = mutation_REMOVE) q))]"
  by (simp add: extract_to_def extract_loop_spec)

lemma extracted_docs:
  assumes "smq_ok q"
  shows "set (map (doc_ref \<circ> sm_id) (filter (\<lambda>m. sm_type m = t) q)) =
    {r. \<exists>m. smq_map q r = Some m \<and> sm_type m = t}"
proof (intro set_eqI iffI)
  fix r assume "r \<in> set (map (doc_ref \<circ> sm_id) (filter (\<lambda>m. sm_type m = t) q))"
  then obtain m where "m \<in> set q" "sm_type m = t" "r = doc_ref (sm_id m)" by auto
  then show "r \<in> {r. \<exists>m. smq_map q r = Some m \<and> sm_type m = t}"
    using smq_map_mem [OF assms] by blast
next
  fix r assume "r \<in> {r. \<exists>m. smq_map q r = Some m \<and> sm_type m = t}"
  then obtain m where "smq_map q r = Some m" "sm_type m = t" by blast
  then show "r \<in> set (map (doc_ref \<circ> sm_id) (filter (\<lambda>m. sm_type m = t) q))"
    using smq_map_Some_mem [of q r m] by auto
qed

text \<open>The operations that change the queue, and what they mean for the map.\<close>

datatype queue_op = Stage staged_mutation | Drop document_id

primrec queue_exec :: "queue_op \<Rightarrow> mutation_queue \<Rightarrow> mutation_queue" where
  "queue_exec (Stage m) q = smq_add m q"
| "queue_exec (Drop i) q = smq_remove_any i q"

primrec map_exec ::
  "queue_op \<Rightarrow> (doc_ref \<Rightarrow> staged_mutation option) \<Rightarrow> doc_ref \<Rightarrow> staged_mutation option" where
  "map_exec (Stage m) f = f(doc_ref (sm_id m) \<mapsto> m)"
| "map_exec (Drop i) f = f(doc_ref i := None)"

lemma queue_exec_map: "smq_map (queue_exec op q) = map_exec op (smq_map q)"
  by (cases op) (simp_all add: smq.lookup_stage smq.lookup_drop)

lemma queue_exec_ok: "smq_ok q \<Longrightarrow> smq_ok (queue_exec op q)"
  by (cases op) (simp_all add: smq.ok_stage smq.ok_drop)

lemma queue_run:
  "smq_ok q \<Longrightarrow> smq_ok (fold queue_exec ops q)
     \<and> smq_map (fold queue_exec ops q) = fold map_exec ops (smq_map q)"
  by (induction ops arbitrary: q) (simp_all add: queue_exec_ok queue_exec_map)

text \<open>
  C19: After any sequence of stagings and removals, the queue implements the finite map from
  documents to their latest mutation: it holds one mutation for a document, the typed lookups return
  that mutation exactly when it has their type, and the three lists written into the transaction
  record are duplicate-free and together hold every staged document once, under its type.
\<close>

theorem staged_queue_refines_map:
  fixes ops pre
  defines "q \<equiv> fold queue_exec ops []"
    and "f \<equiv> fold map_exec ops (\<lambda>_. None)"
    and "typed \<equiv> \<lambda>t i. case fold map_exec ops (\<lambda>_. None) (doc_ref i) of None \<Rightarrow> None
           | Some m \<Rightarrow> if sm_type m = t then Some m else None"
  shows "smq_ok q \<and> smq_find_any i q = f (doc_ref i)
    \<and> smq_find_insert i q = typed mutation_INSERT i
    \<and> smq_find_replace i q = typed mutation_REPLACE i
    \<and> smq_find_remove i q = typed mutation_REMOVE i
    \<and> (\<exists>ins rep rem. extract_to pre q =
          [(pre @ ''ins'', ins), (pre @ ''rep'', rep), (pre @ ''rem'', rem)]
        \<and> distinct (ins @ rep @ rem)
        \<and> set ins = {r. \<exists>m. f r = Some m \<and> sm_type m = mutation_INSERT}
        \<and> set rep = {r. \<exists>m. f r = Some m \<and> sm_type m = mutation_REPLACE}
        \<and> set rem = {r. \<exists>m. f r = Some m \<and> sm_type m = mutation_REMOVE})"
proof -
  have "smq_ok q \<and> smq_map q = fold map_exec ops (smq_map [])"
    unfolding q_def by (rule queue_run) (simp add: smq_ok_def)
  moreover have "smq_map [] = (\<lambda>_. None)" by (simp add: smq_map_def fun_eq_iff)
  ultimately have ok: "smq_ok q" and f: "smq_map q = f" by (simp_all add: f_def)
  let ?docs = "\<lambda>t. map (doc_ref \<circ> sm_id) (filter (\<lambda>m. sm_type m = t) q)"
  have docs: "set (?docs t) = {r. \<exists>m. f r = Some m \<and> sm_type m = t}" for t
    using extracted_docs [OF ok, of t] f by simp
  have "distinct (?docs t)" for t
    using ok by (simp add: smq_ok_def distinct_map_filter comp_def)
  moreover have "set (?docs t) \<inter> set (?docs t') = {}" if "t \<noteq> t'" for t t'
    unfolding docs using that by auto
  ultimately have "distinct (?docs mutation_INSERT @ ?docs mutation_REPLACE @ ?docs mutation_REMOVE)"
    by (simp only: distinct_append set_append Int_Un_distrib) simp
  then show ?thesis
    using ok docs unfolding extract_to_spec smq_find_insert_def smq_find_replace_def
      smq_find_remove_def document_ids_equal_ref find_typed [OF ok] smq_find_any_map typed_def f
      f_def [symmetric]
    by blast
qed

end
