(* ===== verification/Unstaging.thy ===== *)
theory Unstaging
  imports Staged_Mutations Transition
begin

text \<open>
  Committing and rolling back the staged mutations, \<^verbatim>\<open>staged_mutation_queue::commit\<close> and
  \<^verbatim>\<open>rollback\<close> of \<^verbatim>\<open>core/transactions/staged_mutation.cxx\<close>. The calling thread starts
  one asynchronous operation for each document, at most \<open>max_parallelism\<close> at a time; each operation
  posts a request, handles the reply and may retry after a delay. The operations of different
  documents interleave in any order and share the expiry flag of the attempt: the model is a step
  relation whose labels carry what the environment decides (expiry, the results of the testing
  hooks, the replies of the server, the timers). A closure runs to its end before the next one. The
  handlers of \<^verbatim>\<open>commit\<close> and \<^verbatim>\<open>rollback\<close> for an exception while an operation is
  started (allocation failures only) are left out.
\<close>

subsection \<open>Delays between retries\<close>

text \<open>
  \<^verbatim>\<open>async_constant_delay\<close> and \<^verbatim>\<open>async_exp_delay\<close> of \<^verbatim>\<open>internal/utils.hxx\<close>: the
  result says whether the timer was armed; otherwise the callback gets
  \<^verbatim>\<open>retry_operation_retries_exhausted\<close>.
\<close>

record async_delay =
  ad_max_retries :: nat
  ad_retries :: nat

definition new_async_delay :: async_delay where
  "new_async_delay = \<lparr> ad_max_retries = 100, ad_retries = 0 \<rparr>"

definition async_constant_delay_call :: "async_delay \<Rightarrow> bool \<times> async_delay" where
  "async_constant_delay_call d =
     (let d' = d\<lparr> ad_retries := ad_retries d + 1 \<rparr>
      in if ad_retries d \<ge> ad_max_retries d then (False, d') else (True, d'))"

definition async_exp_delay_call :: "async_delay \<Rightarrow> bool \<times> async_delay" where
  "async_exp_delay_call d =
     (let d' = d\<lparr> ad_retries := ad_retries d + 1 \<rparr>
      in if ad_retries d \<ge> ad_max_retries d then (False, d')
         else (True, d'\<lparr> ad_retries := ad_retries d' + 1 \<rparr>))"

subsection \<open>Requests\<close>

datatype doc_request =
    Req_insert document_id bytes u32 durability_level
  | Req_mutate_in mutate_in_request
  | Req_remove document_id durability_level

definition unstage_body_specs :: "staged_mutation \<Rightarrow> subdoc_command list" where
  "unstage_body_specs item =
     [mk_command subdoc_replace_body_with_xattr
        (if \<not> is_staged_binary item then ''txn.op.stgd'' else ''txn.op.bin'') []
        (build_mutate_in_path_flags True False False (is_staged_binary item)),
      mk_command subdoc_remove ''txn'' [] (build_mutate_in_path_flags True False False False)]"

definition commit_doc_request ::
  "durability_level \<Rightarrow> staged_mutation \<Rightarrow> bool \<Rightarrow> doc_request" where
  "commit_doc_request level item cas_zero_mode =
     (let req = (new_mutate_in_request (sm_id item))
            \<lparr> mq_flags := Some (sm_staged_flags item), mq_durability_level := level \<rparr>;
          cas = (if cas_zero_mode then 0 else sm_cas item)
      in if sm_type item = mutation_INSERT \<and> \<not> cas_zero_mode
         then (case sm_content item of
                 Some content \<Rightarrow> Req_insert (sm_id item) content (sm_staged_flags item) level
               | None \<Rightarrow> Req_mutate_in (req\<lparr> mq_specs := unstage_body_specs item,
                   mq_cas := sm_cas item, mq_access_deleted := True, mq_revive_document := True \<rparr>))
         else (case sm_content item of
                 Some content \<Rightarrow> Req_mutate_in (req\<lparr>
                   mq_specs := [spec_remove ''txn'' True, spec_replace [] content False False False],
                   mq_store_semantics := store_replace, mq_cas := cas \<rparr>)
               | None \<Rightarrow> Req_mutate_in (req\<lparr> mq_specs := unstage_body_specs item, mq_cas := cas \<rparr>)))"

text \<open>The replies to an insert and to a remove use the error and the CAS of the response only.
  Only the request that carries the content in its specs keeps the fields of its response.\<close>

definition commit_doc_result ::
  "staged_mutation \<Rightarrow> bool \<Rightarrow> mutate_in_response \<Rightarrow> txn_result" where
  "commit_doc_result item cas_zero_mode resp =
     (if sm_content item \<noteq> None \<and> \<not> (sm_type item = mutation_INSERT \<and> \<not> cas_zero_mode)
      then create_from_subdoc_response resp
      else create_from_mutation_response (mi_ec resp) (mi_cas resp))"

definition rollback_insert_request :: "durability_level \<Rightarrow> staged_mutation \<Rightarrow> doc_request" where
  "rollback_insert_request level item =
     Req_mutate_in ((new_mutate_in_request (sm_id item))\<lparr> mq_specs := [spec_remove ''txn'' True],
       mq_access_deleted := True, mq_cas := sm_cas item, mq_durability_level := level \<rparr>)"

definition rollback_remove_or_replace_request ::
  "durability_level \<Rightarrow> staged_mutation \<Rightarrow> doc_request" where
  "rollback_remove_or_replace_request level item =
     Req_mutate_in ((new_mutate_in_request (sm_id item))\<lparr> mq_specs := [spec_remove ''txn'' True],
       mq_cas := sm_cas item, mq_flags := Some (sm_user_flags item),
       mq_durability_level := level \<rparr>)"

subsection \<open>The operation on one document\<close>

datatype unstage_kind = Commit_doc | Remove_doc | Rollback_insert | Rollback_remove_or_replace

definition unstage_kind :: "bool \<Rightarrow> staged_mutation_type \<Rightarrow> unstage_kind" where
  "unstage_kind committing t =
     (if committing
      then (case t of mutation_REMOVE \<Rightarrow> Remove_doc | mutation_INSERT \<Rightarrow> Commit_doc
            | mutation_REPLACE \<Rightarrow> Commit_doc)
      else (case t of mutation_INSERT \<Rightarrow> Rollback_insert
            | mutation_REMOVE \<Rightarrow> Rollback_remove_or_replace
            | mutation_REPLACE \<Rightarrow> Rollback_remove_or_replace))"

text \<open>
  The progress of one operation: not started, posted to the executor, waiting for the reply, waiting
  for the timer, or finished with the exception given to its callback. The flags are
  \<^verbatim>\<open>ambiguity_resolution_mode\<close> and \<^verbatim>\<open>cas_zero_mode\<close>; the delay is the copy the closures
  hold.
\<close>

datatype task =
    Unstarted
  | Posted bool bool async_delay
  | Awaiting bool bool async_delay
  | Delayed bool bool async_delay
  | Finished "txn_exception option"

text \<open>
  \<^verbatim>\<open>catch (const retry_operation&)\<close>: the closure that will retry is built, and copies the delay,
  before the call on the delay counts the retry.
\<close>

definition retry_task ::
  "(async_delay \<Rightarrow> bool \<times> async_delay) \<Rightarrow> bool \<Rightarrow> bool \<Rightarrow> async_delay \<Rightarrow> task" where
  "retry_task delay_call amb cas0 delay =
     (let copy = delay
      in case delay_call delay of
           (True, _) \<Rightarrow> Delayed amb cas0 copy
         | (False, _) \<Rightarrow> Finished (Some Retry_operation_retries_exhausted))"

definition post_commit_failure :: "error_class \<Rightarrow> task" where
  "post_commit_failure ec = Finished (Some (Op_failed (failed_post_commit (no_rollback (op_failed ec)))))"

definition handle_commit_doc_error ::
  "error_class \<Rightarrow> bool \<Rightarrow> bool \<Rightarrow> bool \<Rightarrow> async_delay \<Rightarrow> task" where
  "handle_commit_doc_error ec overtime amb cas0 delay =
     (if overtime then post_commit_failure FAIL_EXPIRY
      else case ec of
        FAIL_AMBIGUOUS \<Rightarrow> retry_task async_constant_delay_call True cas0 delay
      | FAIL_CAS_MISMATCH \<Rightarrow>
          (if amb then post_commit_failure ec
           else retry_task async_constant_delay_call amb True delay)
      | FAIL_DOC_ALREADY_EXISTS \<Rightarrow>
          (if amb then post_commit_failure ec
           else retry_task async_constant_delay_call True True delay)
      | _ \<Rightarrow> post_commit_failure ec)"

definition handle_remove_doc_error :: "error_class \<Rightarrow> bool \<Rightarrow> async_delay \<Rightarrow> task" where
  "handle_remove_doc_error ec overtime delay =
     (if overtime then post_commit_failure ec
      else case ec of
        FAIL_AMBIGUOUS \<Rightarrow> retry_task async_constant_delay_call False False delay
      | _ \<Rightarrow> post_commit_failure ec)"

definition handle_rollback_insert_error ::
  "error_class \<Rightarrow> bool \<Rightarrow> async_delay \<Rightarrow> bool \<times> task" where
  "handle_rollback_insert_error ec overtime delay =
     (if overtime
      then (overtime, Finished (Some (Op_failed (expired (no_rollback (op_failed FAIL_EXPIRY))))))
      else case ec of
        FAIL_HARD \<Rightarrow> (overtime, Finished (Some (Op_failed (no_rollback (op_failed ec)))))
      | FAIL_CAS_MISMATCH \<Rightarrow> (overtime, Finished (Some (Op_failed (no_rollback (op_failed ec)))))
      | FAIL_EXPIRY \<Rightarrow> (True, retry_task async_exp_delay_call False False delay)
      | FAIL_DOC_NOT_FOUND \<Rightarrow> (overtime, Finished None)
      | FAIL_PATH_NOT_FOUND \<Rightarrow> (overtime, Finished None)
      | _ \<Rightarrow> (overtime, retry_task async_exp_delay_call False False delay))"

definition handle_rollback_remove_or_replace_error ::
  "error_class \<Rightarrow> bool \<Rightarrow> async_delay \<Rightarrow> bool \<times> task" where
  "handle_rollback_remove_or_replace_error ec overtime delay =
     (if overtime
      then (overtime, Finished (Some (Op_failed (no_rollback (op_failed FAIL_EXPIRY)))))
      else case ec of
        FAIL_HARD \<Rightarrow> (overtime, Finished (Some (Op_failed (no_rollback (op_failed ec)))))
      | FAIL_DOC_NOT_FOUND \<Rightarrow> (overtime, Finished (Some (Op_failed (no_rollback (op_failed ec)))))
      | FAIL_CAS_MISMATCH \<Rightarrow> (overtime, Finished (Some (Op_failed (no_rollback (op_failed ec)))))
      | FAIL_EXPIRY \<Rightarrow> (True, retry_task async_exp_delay_call False False delay)
      | FAIL_PATH_NOT_FOUND \<Rightarrow> (overtime, Finished None)
      | _ \<Rightarrow> (overtime, retry_task async_exp_delay_call False False delay))"

definition handle_unstage_error ::
  "unstage_kind \<Rightarrow> error_class \<Rightarrow> bool \<Rightarrow> bool \<Rightarrow> bool \<Rightarrow> async_delay \<Rightarrow> bool \<times> task" where
  "handle_unstage_error kind ec overtime amb cas0 delay =
     (case kind of
        Commit_doc \<Rightarrow> (overtime, handle_commit_doc_error ec overtime amb cas0 delay)
      | Remove_doc \<Rightarrow> (overtime, handle_remove_doc_error ec overtime delay)
      | Rollback_insert \<Rightarrow> handle_rollback_insert_error ec overtime delay
      | Rollback_remove_or_replace \<Rightarrow> handle_rollback_remove_or_replace_error ec overtime delay)"

definition unstage_request ::
  "unstage_kind \<Rightarrow> durability_level \<Rightarrow> staged_mutation \<Rightarrow> bool \<Rightarrow> doc_request" where
  "unstage_request kind level item cas0 =
     (case kind of
        Commit_doc \<Rightarrow> commit_doc_request level item cas0
      | Remove_doc \<Rightarrow> Req_remove (sm_id item) level
      | Rollback_insert \<Rightarrow> rollback_insert_request level item
      | Rollback_remove_or_replace \<Rightarrow> rollback_remove_or_replace_request level item)"

definition unstage_result :: "unstage_kind \<Rightarrow> staged_mutation \<Rightarrow> bool \<Rightarrow> mutate_in_response \<Rightarrow> txn_result" where
  "unstage_result kind item cas0 resp =
     (case kind of
        Commit_doc \<Rightarrow> commit_doc_result item cas0 resp
      | Remove_doc \<Rightarrow> create_from_mutation_response (mi_ec resp) (mi_cas resp)
      | Rollback_insert \<Rightarrow> create_from_subdoc_response resp
      | Rollback_remove_or_replace \<Rightarrow> create_from_subdoc_response resp)"

text \<open>
  The posted closure: \<^verbatim>\<open>commit_doc\<close>, \<^verbatim>\<open>remove_doc\<close>, \<^verbatim>\<open>rollback_insert\<close>,
  \<^verbatim>\<open>rollback_remove_or_replace\<close> up to the request. The environment says whether the
  transaction has expired and what the hook before the request returns.
\<close>

definition task_run ::
  "unstage_kind \<Rightarrow> durability_level \<Rightarrow> staged_mutation \<Rightarrow> bool \<Rightarrow> bool \<Rightarrow> async_delay \<Rightarrow>
   bool \<Rightarrow> error_class option \<Rightarrow> bool \<Rightarrow> bool \<times> task \<times> doc_request option" where
  "task_run kind level item amb cas0 delay is_expired hook overtime =
     (let committing = (kind = Commit_doc \<or> kind = Remove_doc);
          overtime' = (if committing then overtime \<or> is_expired else overtime);
          failure = (if \<not> committing \<and> \<not> overtime \<and> is_expired then Some FAIL_EXPIRY else hook)
      in case failure of
           Some ec \<Rightarrow> (case handle_unstage_error kind ec overtime' amb cas0 delay of
                        (ov, t) \<Rightarrow> (ov, t, None))
         | None \<Rightarrow> (overtime', Awaiting amb cas0 delay, Some (unstage_request kind level item cas0)))"

text \<open>
  The handling of the reply: \<^verbatim>\<open>validate_commit_doc_result\<close>, \<^verbatim>\<open>validate_remove_doc_result\<close>
  and the two of the rollback, with the results of the hooks after the request. A committed
  document's new CAS is kept.
\<close>

definition task_reply ::
  "unstage_kind \<Rightarrow> staged_mutation \<Rightarrow> bool \<Rightarrow> bool \<Rightarrow> async_delay \<Rightarrow> mutate_in_response \<Rightarrow>
   error_class option \<Rightarrow> error_class option \<Rightarrow> bool \<Rightarrow> (bool \<times> staged_mutation \<times> task) run" where
  "task_reply kind item amb cas0 delay resp hook1 hook2 overtime =
     (let fail = (\<lambda>ec it. case handle_unstage_error kind ec overtime amb cas0 delay of
                           (ov, t) \<Rightarrow> Some (ov, it, t))
      in case validate_operation_result True (unstage_result kind item cas0 resp) of
           None \<Rightarrow> None
         | Some (Inl (Client_error ec)) \<Rightarrow> fail ec item
         | Some (Inl e) \<Rightarrow> None
         | Some (Inr res) \<Rightarrow>
             (case hook1 of
                Some ec \<Rightarrow> fail ec item
              | None \<Rightarrow>
                  (if kind = Commit_doc
                   then (let item = item\<lparr> sm_cas := res_cas res \<rparr>
                         in case hook2 of Some ec \<Rightarrow> fail ec item
                            | None \<Rightarrow> Some (overtime, item, Finished None))
                   else Some (overtime, item, Finished None))))"

subsection \<open>All the documents\<close>

definition max_parallelism :: u64 where
  "max_parallelism = 1000"

datatype unstage_event = Sent nat doc_request | Got nat mutate_in_response

record unstage_state =
  us_items :: "staged_mutation list"
  us_tasks :: "task list"
  us_next :: nat
  us_aborted :: bool
  us_in_flight :: u64
  us_abort :: bool
  us_overtime :: bool
  us_log :: "unstage_event list"

definition new_unstage_state :: "staged_mutation list \<Rightarrow> bool \<Rightarrow> unstage_state" where
  "new_unstage_state items overtime = \<lparr> us_items = items,
     us_tasks = replicate (length items) Unstarted, us_next = 0, us_aborted = False,
     us_in_flight = 0, us_abort = False, us_overtime = overtime, us_log = [] \<rparr>"

datatype unstage_label =
    Launch
  | Wait_timed_out
  | Wait_aborted
  | Run nat bool "error_class option"
  | Reply nat mutate_in_response "error_class option" "error_class option"
  | Timer nat bool

text \<open>\<^verbatim>\<open>notify_unstage_complete\<close> and \<^verbatim>\<open>notify_unstage_error\<close>\<close>

definition notify_finished :: "task \<Rightarrow> unstage_state \<Rightarrow> unstage_state" where
  "notify_finished t s =
     (case t of
        Finished None \<Rightarrow> s\<lparr> us_in_flight := us_in_flight s - 1 \<rparr>
      | Finished (Some _) \<Rightarrow> s\<lparr> us_abort := True, us_in_flight := us_in_flight s - 1 \<rparr>
      | _ \<Rightarrow> s)"

definition set_task :: "nat \<Rightarrow> task \<Rightarrow> unstage_state \<Rightarrow> unstage_state" where
  "set_task i t s = notify_finished t (s\<lparr> us_tasks := (us_tasks s)[i := t] \<rparr>)"

fun unstage_exec ::
  "bool \<Rightarrow> durability_level \<Rightarrow> unstage_label \<Rightarrow> unstage_state \<Rightarrow> unstage_state option" where
  "unstage_exec committing level Launch s =
     (if us_next s < length (us_items s) \<and> \<not> us_aborted s \<and> \<not> us_abort s
        \<and> us_in_flight s < max_parallelism
      then Some (s\<lparr> us_in_flight := us_in_flight s + 1,
             us_tasks := (us_tasks s)[us_next s := Posted False False new_async_delay],
             us_next := us_next s + 1 \<rparr>)
      else None)"
| "unstage_exec committing level Wait_timed_out s =
     (if us_next s < length (us_items s) \<and> \<not> us_aborted s \<and> \<not> us_abort s
        \<and> \<not> us_in_flight s < max_parallelism
      then Some (s\<lparr> us_abort := True, us_aborted := True \<rparr>)
      else None)"
| "unstage_exec committing level Wait_aborted s =
     (if us_next s < length (us_items s) \<and> \<not> us_aborted s \<and> us_abort s
      then Some (s\<lparr> us_aborted := True \<rparr>)
      else None)"
| "unstage_exec committing level (Run i is_expired hook) s =
     (if i < length (us_items s)
      then (case us_tasks s ! i of
              Posted amb cas0 delay \<Rightarrow>
                (case task_run (unstage_kind committing (sm_type (us_items s ! i))) level
                        (us_items s ! i) amb cas0 delay is_expired hook (us_overtime s) of
                   (ov, t, req) \<Rightarrow>
                     Some (set_task i t (s\<lparr> us_overtime := ov,
                       us_log := us_log s @ (case req of None \<Rightarrow> [] | Some r \<Rightarrow> [Sent i r]) \<rparr>)))
            | _ \<Rightarrow> None)
      else None)"
| "unstage_exec committing level (Reply i resp hook1 hook2) s =
     (if i < length (us_items s)
      then (case us_tasks s ! i of
              Awaiting amb cas0 delay \<Rightarrow>
                (case task_reply (unstage_kind committing (sm_type (us_items s ! i)))
                        (us_items s ! i) amb cas0 delay resp hook1 hook2 (us_overtime s) of
                   None \<Rightarrow> None
                 | Some (ov, item, t) \<Rightarrow>
                     Some (set_task i t (s\<lparr> us_overtime := ov, us_items := (us_items s)[i := item],
                       us_log := us_log s @ [Got i resp] \<rparr>)))
            | _ \<Rightarrow> None)
      else None)"
| "unstage_exec committing level (Timer i cancelled) s =
     (if i < length (us_items s)
      then (case us_tasks s ! i of
              Delayed amb cas0 delay \<Rightarrow>
                Some (set_task i (if cancelled then Finished (Some Retry_operation_retries_exhausted)
                                  else Posted amb cas0 delay) s)
            | _ \<Rightarrow> None)
      else None)"

text \<open>The caller returns once it has stopped launching and every launched operation has finished.\<close>

definition unstage_done :: "unstage_state \<Rightarrow> bool" where
  "unstage_done s \<longleftrightarrow> (us_aborted s \<or> us_next s = length (us_items s))
     \<and> (\<forall>i < us_next s. \<exists>r. us_tasks s ! i = Finished r)"

primrec task_exception :: "task \<Rightarrow> txn_exception option" where
  "task_exception Unstarted = None"
| "task_exception (Posted _ _ _) = None"
| "task_exception (Awaiting _ _ _) = None"
| "task_exception (Delayed _ _ _) = None"
| "task_exception (Finished e) = e"

definition unstage_outcome :: "bool \<Rightarrow> unstage_state \<Rightarrow> txn_exception option" where
  "unstage_outcome committing s =
     (case List.map_filter task_exception (us_tasks s) of
        e # _ \<Rightarrow> Some e
      | [] \<Rightarrow> (if us_aborted s
              then Some (Op_failed (if committing
                then failed_post_commit (no_rollback (op_failed FAIL_OTHER))
                else no_rollback (op_failed FAIL_OTHER)))
              else None))"

text \<open>A run of the whole phase: the labels in the order in which they happened.\<close>

primrec unstage_run ::
  "bool \<Rightarrow> durability_level \<Rightarrow> unstage_label list \<Rightarrow> unstage_state \<Rightarrow> unstage_state option" where
  "unstage_run committing level [] s = Some s"
| "unstage_run committing level (l # ls) s =
     (case unstage_exec committing level l s of
        None \<Rightarrow> None | Some s' \<Rightarrow> unstage_run committing level ls s')"

inductive unstage_step ::
  "bool \<Rightarrow> durability_level \<Rightarrow> bool \<Rightarrow> unstage_state \<Rightarrow> unstage_label \<Rightarrow> unstage_state \<Rightarrow> bool"
  for committing level cancels where
  "unstage_exec committing level l s = Some s' \<Longrightarrow> cancels \<or> (\<forall>i. l \<noteq> Timer i True)
     \<Longrightarrow> unstage_step committing level cancels s l s'"

inductive_cases unstage_stepE: "unstage_step committing level cancels s l s'"

subsection \<open>One operation\<close>

lemma retry_task_new [simp]:
  "retry_task async_constant_delay_call amb cas0 new_async_delay = Delayed amb cas0 new_async_delay"
  "retry_task async_exp_delay_call amb cas0 new_async_delay = Delayed amb cas0 new_async_delay"
  by (simp_all add: retry_task_def async_constant_delay_call_def async_exp_delay_call_def
      new_async_delay_def)

definition post_error :: "bool \<Rightarrow> txn_exception \<Rightarrow> bool" where
  "post_error committing e \<longleftrightarrow> (\<exists>f. e = Op_failed f \<and> \<not> tof_rollback f \<and> \<not> tof_retry f
     \<and> (committing \<longrightarrow> tof_to_raise f = FAILED_POST_COMMIT))"

lemma unstage_kind_simps [simp]:
  "unstage_kind committing t = Commit_doc \<longleftrightarrow> committing \<and> t \<noteq> mutation_REMOVE"
  "unstage_kind committing t = Remove_doc \<longleftrightarrow> committing \<and> t = mutation_REMOVE"
  by (auto simp: unstage_kind_def split: staged_mutation_type.splits)

text \<open>The result of an error handler: a retry outside overtime, or the end of the operation.\<close>

definition handled :: "bool \<Rightarrow> bool \<Rightarrow> bool \<Rightarrow> task \<Rightarrow> bool" where
  "handled committing ov ov' t \<longleftrightarrow> (ov \<longrightarrow> ov') \<and>
     (\<not> ov \<and> (\<exists>a c. t = Delayed a c new_async_delay)
      \<or> \<not> committing \<and> t = Finished None
      \<or> (\<exists>e. t = Finished (Some e) \<and> post_error committing e))"

lemma handle_unstage_error_handled:
  assumes "handle_unstage_error (unstage_kind committing ty) ec ov a c new_async_delay = (ov', t)"
  shows "handled committing ov ov' t"
proof (cases committing)
  case True
  then show ?thesis using assms
    by (cases ec; cases ty; cases ov; cases a)
      (auto simp: handled_def handle_unstage_error_def unstage_kind_def post_error_def
        handle_commit_doc_error_def handle_remove_doc_error_def post_commit_failure_def)
next
  case False
  then show ?thesis using assms
    by (cases ec; cases ty; cases ov)
      (auto simp: handled_def handle_unstage_error_def unstage_kind_def post_error_def
        handle_rollback_insert_error_def handle_rollback_remove_or_replace_error_def)
qed

lemma task_run_cases:
  assumes "task_run (unstage_kind committing ty) level item a c new_async_delay ex hook ov
    = (ov', t, req)"
  shows "(ov \<longrightarrow> ov') \<and>
    (t = Awaiting a c new_async_delay
       \<and> req = Some (unstage_request (unstage_kind committing ty) level item c)
     \<or> req = None \<and> (\<exists>ov1. (ov \<longrightarrow> ov1) \<and> handled committing ov1 ov' t)
         \<and> (committing \<longrightarrow> t \<noteq> Finished None))"
proof -
  let ?k = "unstage_kind committing ty"
  let ?ov = "if committing then ov \<or> ex else ov"
  let ?f = "if \<not> committing \<and> \<not> ov \<and> ex then Some FAIL_EXPIRY else hook"
  have kind: "(?k = Commit_doc \<or> ?k = Remove_doc) = committing" by auto
  have le: "ov \<longrightarrow> ?ov" by simp
  show ?thesis
  proof (cases ?f)
    case None
    then have "(ov', t, req) = (?ov, Awaiting a c new_async_delay, Some (unstage_request ?k level item c))"
      using assms unfolding task_run_def Let_def kind None by simp
    then show ?thesis using le by blast
  next
    case (Some ec)
    obtain ov2 t2 where h: "handle_unstage_error ?k ec ?ov a c new_async_delay = (ov2, t2)"
      by (rule prod.exhaust)
    then have eq: "ov' = ov2" "t = t2" "req = None"
      using assms unfolding task_run_def Let_def kind Some by simp_all
    have "handled committing ?ov ov' t"
      unfolding eq by (rule handle_unstage_error_handled [OF h])
    moreover from this have "committing \<longrightarrow> t \<noteq> Finished None" "?ov \<longrightarrow> ov'"
      unfolding handled_def by blast+
    ultimately show ?thesis using le eq(3) by (intro conjI disjI2 exI [of _ ?ov]) simp_all
  qed
qed

lemma unstage_result_ec [simp]:
  "res_ec (unstage_result kind item c resp) = mi_ec resp"
  "res_ignore_subdoc_errors (unstage_result kind item c resp) = False"
  by (simp_all add: unstage_result_def commit_doc_result_def create_from_subdoc_response_def
      create_from_mutation_response_def split: unstage_kind.splits)

lemma validate_operation_result_error:
  "validate_operation_result ign res = Some (Inl e) \<Longrightarrow> \<exists>ec. e = Client_error ec"
  by (auto simp: validate_operation_result_def throw_client_error_def split: if_splits option.splits)

lemma sm_cas_self: "\<exists>k. item = item\<lparr> sm_cas := k \<rparr>" for item :: staged_mutation
  by (rule exI [of _ "sm_cas item"]) simp

text \<open>A reply ends the operation or goes to the error handler, with at most the CAS changed.\<close>

lemma task_reply_shape:
  "\<exists>item'. (\<exists>k. item' = item\<lparr> sm_cas := k \<rparr>) \<and>
     (task_reply (unstage_kind committing ty) item a c d resp h1 h2 ov = Some (ov, item', Finished None)
        \<and> mi_ec resp = None
      \<or> (\<exists>ec ov' t. handle_unstage_error (unstage_kind committing ty) ec ov a c d = (ov', t) \<and>
           task_reply (unstage_kind committing ty) item a c d resp h1 h2 ov = Some (ov', item', t)))"
proof -
  let ?k = "unstage_kind committing ty"
  let ?v = "validate_operation_result True (unstage_result ?k item c resp)"
  let ?r = "task_reply ?k item a c d resp h1 h2 ov"
  have fail: ?thesis if "\<exists>k. it = item\<lparr> sm_cas := k \<rparr>"
    "?r = (case handle_unstage_error ?k ec ov a c d of (ov', t) \<Rightarrow> Some (ov', it, t))" for it ec
  proof (cases "handle_unstage_error ?k ec ov a c d")
    case (Pair ov' t)
    then have "?r = Some (ov', it, t)" using that(2) by simp
    then show ?thesis using that(1) Pair by blast
  qed
  obtain v where v: "?v = Some v"
    using validate_operation_result_defined [of "unstage_result ?k item c resp" True] by auto
  show ?thesis
  proof (cases v)
    case (Inl e)
    then obtain ec where "e = Client_error ec" using v validate_operation_result_error by blast
    with v Inl show ?thesis
      by (intro fail [of item ec] sm_cas_self) (simp add: task_reply_def Let_def)
  next
    case (Inr res)
    then have ok: "mi_ec resp = None" using v by (simp add: validate_success_iff is_success_def)
    let ?it = "if h1 = None \<and> ?k = Commit_doc then item\<lparr> sm_cas := res_cas res \<rparr> else item"
    have it: "\<exists>k. ?it = item\<lparr> sm_cas := k \<rparr>" using sm_cas_self by auto
    let ?e = "case h1 of Some ec \<Rightarrow> Some ec | None \<Rightarrow> if ?k = Commit_doc then h2 else None"
    have r: "?r = (case ?e of
        Some ec \<Rightarrow> (case handle_unstage_error ?k ec ov a c d of (ov', t) \<Rightarrow> Some (ov', ?it, t))
      | None \<Rightarrow> Some (ov, ?it, Finished None))"
      using v Inr by (cases "?k = Commit_doc"; cases h1; cases h2)
        (simp_all add: task_reply_def del: unstage_kind_simps)
    show ?thesis
    proof (cases ?e)
      case None
      then have "?r = Some (ov, ?it, Finished None)" using r by simp
      then show ?thesis by (intro exI [of _ ?it] conjI disjI1 it ok)
    next
      case (Some ec)
      then show ?thesis using r by (intro fail [OF it, of ec]) simp
    qed
  qed
qed

lemma task_reply_cases:
  "\<exists>ov' item' t. task_reply (unstage_kind committing ty) item a c new_async_delay resp h1 h2 ov
      = Some (ov', item', t) \<and> (ov \<longrightarrow> ov') \<and> (\<exists>k. item' = item\<lparr> sm_cas := k \<rparr>)
    \<and> (t = Finished None \<and> mi_ec resp = None \<or> handled committing ov ov' t)"
proof -
  obtain item' where item': "\<exists>k. item' = item\<lparr> sm_cas := k \<rparr>" and
    "task_reply (unstage_kind committing ty) item a c new_async_delay resp h1 h2 ov
        = Some (ov, item', Finished None) \<and> mi_ec resp = None
     \<or> (\<exists>ec ov' t. handle_unstage_error (unstage_kind committing ty) ec ov a c new_async_delay
             = (ov', t) \<and>
           task_reply (unstage_kind committing ty) item a c new_async_delay resp h1 h2 ov
             = Some (ov', item', t))"
    using task_reply_shape [of item committing ty a c new_async_delay resp h1 h2 ov] by blast
  then show ?thesis
  proof (elim disjE exE conjE)
    fix ec ov' t
    assume h: "handle_unstage_error (unstage_kind committing ty) ec ov a c new_async_delay = (ov', t)"
    then have "handled committing ov ov' t" by (rule handle_unstage_error_handled)
    moreover assume "task_reply (unstage_kind committing ty) item a c new_async_delay resp h1 h2 ov
      = Some (ov', item', t)"
    ultimately show ?thesis using item' unfolding handled_def by blast
  qed (use item' in blast)
qed

subsection \<open>The invariant\<close>

primrec running :: "task \<Rightarrow> bool" where
  "running Unstarted = False"
| "running (Posted _ _ _) = True"
| "running (Awaiting _ _ _) = True"
| "running (Delayed _ _ _) = True"
| "running (Finished _) = False"

text \<open>The server has been sent the document's request and has answered without an error.\<close>

definition sent_request ::
  "bool \<Rightarrow> durability_level \<Rightarrow> staged_mutation \<Rightarrow> nat \<Rightarrow> unstage_event list \<Rightarrow> bool" where
  "sent_request committing level item i log \<longleftrightarrow>
     (\<exists>k c. Sent i (unstage_request (unstage_kind committing (sm_type item)) level
                     (item\<lparr> sm_cas := k \<rparr>) c) \<in> set log)"

definition acknowledged :: "nat \<Rightarrow> unstage_event list \<Rightarrow> bool" where
  "acknowledged i log \<longleftrightarrow> (\<exists>resp. Got i resp \<in> set log \<and> mi_ec resp = None)"

lemma sent_requestI:
  "Sent i (unstage_request (unstage_kind committing (sm_type item)) level (item\<lparr> sm_cas := k \<rparr>) c)
     \<in> set log \<Longrightarrow> sent_request committing level item i log"
  unfolding sent_request_def by blast

lemma sent_request_append [simp]:
  "sent_request committing level item i log \<Longrightarrow> sent_request committing level item i (log @ log')"
  unfolding sent_request_def set_append by blast

primrec task_inv ::
  "bool \<Rightarrow> durability_level \<Rightarrow> bool \<Rightarrow> staged_mutation \<Rightarrow> nat \<Rightarrow> unstage_event list \<Rightarrow> bool \<Rightarrow>
   task \<Rightarrow> bool" where
  "task_inv committing level cancels item i log ab Unstarted = True"
| "task_inv committing level cancels item i log ab (Posted a c d) = (d = new_async_delay)"
| "task_inv committing level cancels item i log ab (Awaiting a c d) =
     (d = new_async_delay \<and> sent_request committing level item i log)"
| "task_inv committing level cancels item i log ab (Delayed a c d) = (d = new_async_delay)"
| "task_inv committing level cancels item i log ab (Finished r) =
     (case r of
        None \<Rightarrow> (committing \<longrightarrow> sent_request committing level item i log \<and> acknowledged i log)
      | Some e \<Rightarrow> ab \<and> (post_error committing e
                         \<or> cancels \<and> e = Retry_operation_retries_exhausted))"

lemma task_inv_mono:
  "task_inv committing level cancels item i log ab t \<Longrightarrow> set log \<subseteq> set log' \<Longrightarrow> (ab \<longrightarrow> ab') \<Longrightarrow>
   task_inv committing level cancels item i log' ab' t"
  by (cases t) (auto simp: sent_request_def acknowledged_def split: option.splits)

definition unstage_inv ::
  "bool \<Rightarrow> durability_level \<Rightarrow> bool \<Rightarrow> staged_mutation list \<Rightarrow> unstage_state \<Rightarrow> bool" where
  "unstage_inv committing level cancels items s \<longleftrightarrow>
     length (us_items s) = length items \<and> length (us_tasks s) = length items
     \<and> us_next s \<le> length items \<and> (us_aborted s \<longrightarrow> us_abort s)
     \<and> unat (us_in_flight s) = length (filter running (us_tasks s))
     \<and> us_in_flight s \<le> max_parallelism
     \<and> (\<forall>i < length items. (\<exists>k. us_items s ! i = (items ! i)\<lparr> sm_cas := k \<rparr>)
          \<and> (us_tasks s ! i = Unstarted \<longleftrightarrow> us_next s \<le> i)
          \<and> task_inv committing level cancels (items ! i) i (us_log s) (us_abort s) (us_tasks s ! i))"

lemma unstage_inv_init: "unstage_inv committing level cancels items (new_unstage_state items ov)"
  by (auto simp: unstage_inv_def new_unstage_state_def max_parallelism_def sm_cas_self)

lemma set_task_fields [simp]:
  "us_items (set_task i t s) = us_items s" "us_tasks (set_task i t s) = (us_tasks s)[i := t]"
  "us_next (set_task i t s) = us_next s" "us_aborted (set_task i t s) = us_aborted s"
  "us_overtime (set_task i t s) = us_overtime s" "us_log (set_task i t s) = us_log s"
  "us_in_flight (set_task i t s) = us_in_flight s - (case t of Finished _ \<Rightarrow> 1 | _ \<Rightarrow> 0)"
  "us_abort (set_task i t s) \<longleftrightarrow> us_abort s \<or> (\<exists>e. t = Finished (Some e))"
  by (auto simp: set_task_def notify_finished_def split: task.splits option.splits)

lemma unstage_inv_set_task:
  assumes inv: "unstage_inv committing level cancels items s" and i: "i < length items"
    and run: "running (us_tasks s ! i)" and t: "t \<noteq> Unstarted"
    and s1: "us_items s1 = (us_items s)[i := item]" "us_tasks s1 = us_tasks s"
      "us_next s1 = us_next s" "us_aborted s1 = us_aborted s" "us_in_flight s1 = us_in_flight s"
      "us_abort s1 = us_abort s" "set (us_log s) \<subseteq> set (us_log s1)"
    and item: "\<exists>k. item = (items ! i)\<lparr> sm_cas := k \<rparr>"
    and new: "task_inv committing level cancels (items ! i) i (us_log s1) True t"
  shows "unstage_inv committing level cancels items (set_task i t s1)"
proof -
  let ?s = "set_task i t s1"
  have len: "i < length (us_tasks s)" "length (us_items s) = length items"
    using inv i by (auto simp: unstage_inv_def)
  have pos: "0 < unat (us_in_flight s)"
    using inv count_pos [OF len(1), of running] run by (simp add: unstage_inv_def)
  have sub: "unat (us_in_flight s - 1) = unat (us_in_flight s) - 1" "us_in_flight s - 1 \<le> us_in_flight s"
    using pos by (auto simp: unat_minus_one word_le_nat_alt unat_gt_0)
  have count: "unat (us_in_flight ?s) = length (filter running (us_tasks ?s))"
    using count_update [OF len(1), of running t] inv run t sub pos s1
    by (cases t) (auto simp: unstage_inv_def)
  have le: "us_in_flight ?s \<le> max_parallelism"
    using inv sub(2) s1 by (auto simp: unstage_inv_def split: task.splits)
  have tasks: "(\<exists>k. us_items ?s ! j = (items ! j)\<lparr> sm_cas := k \<rparr>)
      \<and> (us_tasks ?s ! j = Unstarted \<longleftrightarrow> us_next ?s \<le> j)
      \<and> task_inv committing level cancels (items ! j) j (us_log ?s) (us_abort ?s) (us_tasks ?s ! j)"
    if "j < length items" for j
  proof (cases "j = i")
    case True
    have "us_tasks s ! i \<noteq> Unstarted" using run by auto
    moreover have "task_inv committing level cancels (items ! i) i (us_log s1) (us_abort ?s) t"
      using new by (cases t) (auto split: option.splits)
    ultimately show ?thesis using inv i item t len s1 True by (auto simp: unstage_inv_def)
  next
    case False
    then show ?thesis using inv that s1
      by (auto simp: unstage_inv_def intro: task_inv_mono [where ab = "us_abort s"])
  qed
  show ?thesis using inv tasks count le s1 by (simp add: unstage_inv_def)
qed

lemma handled_task_inv:
  assumes "handled committing ov ov' t" and "committing \<longrightarrow> t \<noteq> Finished None"
  shows "task_inv committing level cancels item i log True t \<and> t \<noteq> Unstarted"
  using assms unfolding handled_def by (elim conjE disjE exE) auto

lemma unstage_inv_item:
  assumes "unstage_inv committing level cancels items s" and "i < length items"
  shows "\<exists>k. us_items s ! i = (items ! i)\<lparr> sm_cas := k \<rparr>"
    and "sm_type (us_items s ! i) = sm_type (items ! i)"
    and "task_inv committing level cancels (items ! i) i (us_log s) (us_abort s) (us_tasks s ! i)"
    and "i < length (us_items s)"
proof -
  show *: "\<exists>k. us_items s ! i = (items ! i)\<lparr> sm_cas := k \<rparr>"
    using assms by (auto simp: unstage_inv_def)
  then show "sm_type (us_items s ! i) = sm_type (items ! i)" by auto
qed (use assms in \<open>auto simp: unstage_inv_def\<close>)

lemma unstage_inv_run:
  assumes inv: "unstage_inv committing level cancels items s"
    and ex: "unstage_exec committing level (Run i is_expired hook) s = Some s'"
  shows "unstage_inv committing level cancels items s'"
proof -
  have i: "i < length items" using ex inv by (auto simp: unstage_inv_def split: if_splits)
  note item = unstage_inv_item [OF inv i]
  obtain a c d where task: "us_tasks s ! i = Posted a c d"
    using ex by (auto split: if_splits task.splits)
  have d: "d = new_async_delay" using item(3) task by simp
  let ?k = "unstage_kind committing (sm_type (items ! i))"
  obtain ov' t req where run: "task_run ?k level (us_items s ! i) a c new_async_delay is_expired hook
      (us_overtime s) = (ov', t, req)" by (rule prod_cases3)
  let ?s1 = "s\<lparr> us_overtime := ov',
    us_log := us_log s @ (case req of None \<Rightarrow> [] | Some r \<Rightarrow> [Sent i r]) \<rparr>"
  have s': "s' = set_task i t ?s1" using ex item task d run by simp
  have "task_inv committing level cancels (items ! i) i (us_log ?s1) True t \<and> t \<noteq> Unstarted"
    using task_run_cases [OF run]
  proof (elim conjE disjE exE)
    assume "t = Awaiting a c new_async_delay" and "req = Some (unstage_request ?k level (us_items s ! i) c)"
    then show ?thesis using item(1) by (auto intro: sent_requestI)
  qed (rule handled_task_inv)
  then show ?thesis unfolding s' using inv i task item(1)
    by (intro unstage_inv_set_task [where s = s and item = "us_items s ! i"]) auto
qed

lemma unstage_inv_reply:
  assumes inv: "unstage_inv committing level cancels items s"
    and ex: "unstage_exec committing level (Reply i resp h1 h2) s = Some s'"
  shows "unstage_inv committing level cancels items s'"
proof -
  have i: "i < length items" using ex inv by (auto simp: unstage_inv_def split: if_splits)
  note item = unstage_inv_item [OF inv i]
  obtain a c d where task: "us_tasks s ! i = Awaiting a c d"
    using ex by (auto split: if_splits task.splits)
  have d: "d = new_async_delay" and sent: "sent_request committing level (items ! i) i (us_log s)"
    using item(3) task by simp_all
  obtain ov' item' t where reply: "task_reply (unstage_kind committing (sm_type (items ! i)))
      (us_items s ! i) a c new_async_delay resp h1 h2 (us_overtime s) = Some (ov', item', t)"
    and item': "\<exists>k. item' = (us_items s ! i)\<lparr> sm_cas := k \<rparr>"
    and t: "t = Finished None \<and> mi_ec resp = None \<or> handled committing (us_overtime s) ov' t"
    using task_reply_cases [of committing "sm_type (items ! i)" "us_items s ! i" a c resp h1 h2
        "us_overtime s"] by blast
  let ?s1 = "s\<lparr> us_overtime := ov', us_items := (us_items s)[i := item'],
    us_log := us_log s @ [Got i resp] \<rparr>"
  have s': "s' = set_task i t ?s1" using ex item task d reply by simp
  have "task_inv committing level cancels (items ! i) i (us_log ?s1) True t \<and> t \<noteq> Unstarted"
    using t
  proof
    assume "t = Finished None \<and> mi_ec resp = None"
    then show ?thesis using sent by (auto simp: acknowledged_def)
  next
    assume h: "handled committing (us_overtime s) ov' t"
    then have "committing \<longrightarrow> t \<noteq> Finished None" unfolding handled_def by blast
    with h show ?thesis by (rule handled_task_inv)
  qed
  moreover have "\<exists>k. item' = (items ! i)\<lparr> sm_cas := k \<rparr>" using item(1) item' by auto
  ultimately show ?thesis unfolding s' using inv i task
    by (intro unstage_inv_set_task [where s = s and item = item']) auto
qed

lemma unstage_inv_timer:
  assumes inv: "unstage_inv committing level cancels items s" and c: "cancels \<or> \<not> cancelled"
    and ex: "unstage_exec committing level (Timer i cancelled) s = Some s'"
  shows "unstage_inv committing level cancels items s'"
proof -
  have i: "i < length items" using ex inv by (auto simp: unstage_inv_def split: if_splits)
  note item = unstage_inv_item [OF inv i]
  obtain a k d where task: "us_tasks s ! i = Delayed a k d"
    using ex by (auto split: if_splits task.splits)
  let ?t = "if cancelled then Finished (Some Retry_operation_retries_exhausted) else Posted a k d"
  have s': "s' = set_task i ?t s" using ex item task by simp
  have "task_inv committing level cancels (items ! i) i (us_log s) True ?t"
    using item(3) task c by auto
  then show ?thesis unfolding s' using inv i task item(1)
    by (intro unstage_inv_set_task [where s = s and item = "us_items s ! i"]) auto
qed

lemma unstage_inv_launch:
  assumes inv: "unstage_inv committing level cancels items s"
    and ex: "unstage_exec committing level Launch s = Some s'"
  shows "unstage_inv committing level cancels items s'"
proof -
  let ?n = "us_next s"
  let ?ts = "(us_tasks s)[?n := Posted False False new_async_delay]"
  have n: "?n < length items" and room: "us_in_flight s < max_parallelism"
    and s': "s' = s\<lparr> us_in_flight := us_in_flight s + 1, us_tasks := ?ts, us_next := ?n + 1 \<rparr>"
    using ex inv by (auto simp: unstage_inv_def split: if_splits)
  have len: "?n < length (us_tasks s)" and un: "us_tasks s ! ?n = Unstarted"
    using inv n by (auto simp: unstage_inv_def)
  have lt: "unat (us_in_flight s) < 1000"
    using room by (simp add: max_parallelism_def word_less_nat_alt)
  then have plus: "unat (us_in_flight s + 1) = unat (us_in_flight s) + 1"
    by (subst unat_add_lem [THEN iffD1]) simp_all
  have "length (filter running ?ts) = length (filter running (us_tasks s)) + 1"
    using count_update [OF len, of running "Posted False False new_async_delay"] un by simp
  moreover have "us_in_flight s + 1 \<le> max_parallelism"
    using plus lt by (simp add: max_parallelism_def word_le_nat_alt)
  moreover have "(?ts ! i = Unstarted \<longleftrightarrow> ?n + 1 \<le> i)
      \<and> task_inv committing level cancels (items ! i) i (us_log s) (us_abort s) (?ts ! i)"
    if "i < length items" for i
    using inv that len by (cases "i = ?n") (auto simp: unstage_inv_def)
  ultimately show ?thesis using inv n plus unfolding s' by (simp add: unstage_inv_def)
qed

lemma unstage_inv_step:
  assumes inv: "unstage_inv committing level cancels items s"
    and step: "unstage_step committing level cancels s l s'"
  shows "unstage_inv committing level cancels items s'"
proof -
  obtain ex: "unstage_exec committing level l s = Some s'"
    and c: "cancels \<or> (\<forall>i. l \<noteq> Timer i True)" using step by (rule unstage_stepE)
  show ?thesis
  proof (cases l)
    case (Timer i cancelled)
    then show ?thesis using unstage_inv_timer [OF inv, of cancelled i] ex c by (cases cancelled) auto
  next
    case Launch
    then show ?thesis using unstage_inv_launch [OF inv] ex by simp
  next
    case (Run i b h)
    then show ?thesis using unstage_inv_run [OF inv] ex by blast
  next
    case (Reply i r h1 h2)
    then show ?thesis using unstage_inv_reply [OF inv] ex by blast
  qed (use ex inv in \<open>auto simp: unstage_inv_def split: if_splits
      intro: task_inv_mono [where ab = False and log = "us_log s"]\<close>)
qed

interpretation unstage: state_invariant "\<lambda>s. s = new_unstage_state items ov"
  "unstage_step committing level cancels" "unstage_inv committing level cancels items"
  for items ov committing level cancels
  by unfold_locales (auto intro: unstage_inv_init unstage_inv_step)

subsection \<open>What the phases promise\<close>

abbreviation unstage_reachable ::
  "bool \<Rightarrow> durability_level \<Rightarrow> bool \<Rightarrow> staged_mutation list \<Rightarrow> bool \<Rightarrow> unstage_state \<Rightarrow> bool" where
  "unstage_reachable committing level cancels items ov \<equiv>
     reachable (\<lambda>s. s = new_unstage_state items ov) (unstage_step committing level cancels)"

lemma map_filter_Nil_iff: "List.map_filter f xs = [] \<longleftrightarrow> (\<forall>x \<in> set xs. f x = None)"
  by (induction xs) (auto simp: List.map_filter_def)

lemma map_filter_Cons_in: "List.map_filter f xs = y # ys \<Longrightarrow> \<exists>x \<in> set xs. f x = Some y"
  by (induction xs) (auto simp: List.map_filter_def split: if_splits)

lemma unstage_run_append:
  "unstage_run committing level (ls @ ls') s =
     (case unstage_run committing level ls s of
        None \<Rightarrow> None | Some s' \<Rightarrow> unstage_run committing level ls' s')"
  by (induction ls arbitrary: s) (auto split: option.splits)

lemma unstage_run_reachable:
  "unstage_run committing level ls s = Some s' \<Longrightarrow> cancels \<or> (\<forall>i. Timer i True \<notin> set ls) \<Longrightarrow>
   unstage_reachable committing level cancels items ov s \<Longrightarrow>
   unstage_reachable committing level cancels items ov s'"
proof (induction ls arbitrary: s)
  case (Cons l ls)
  obtain s1 where s1: "unstage_exec committing level l s = Some s1"
    "unstage_run committing level ls s1 = Some s'"
    using Cons.prems(1) by (auto split: option.splits)
  have "unstage_step committing level cancels s l s1"
    by (rule unstage_step.intros [OF s1(1)]) (use Cons.prems(2) in auto)
  with Cons.prems(3) have "unstage_reachable committing level cancels items ov s1"
    by (rule reach_step)
  then show ?case using Cons.IH [OF s1(2)] Cons.prems(2) by auto
qed simp

lemma outcome_acknowledged:
  assumes inv: "unstage_inv True level cancels items s" and "unstage_done s"
    and "unstage_outcome True s = None" and "i < length items"
  shows "sent_request True level (items ! i) i (us_log s) \<and> acknowledged i (us_log s)"
proof -
  have no: "List.map_filter task_exception (us_tasks s) = []" and "\<not> us_aborted s"
    using assms(3) by (auto simp: unstage_outcome_def split: list.splits if_splits)
  then have "i < us_next s" and "i < length (us_tasks s)"
    using assms(2,4) inv by (auto simp: unstage_done_def unstage_inv_def)
  then obtain r where r: "us_tasks s ! i = Finished r" using assms(2) by (auto simp: unstage_done_def)
  have "task_exception (us_tasks s ! i) = None"
    using no \<open>i < length (us_tasks s)\<close> by (simp add: map_filter_Nil_iff)
  then have "r = None" using r by simp
  then show ?thesis using unstage_inv_item(3) [OF inv assms(4)] r by simp
qed

lemma outcome_post_error:
  assumes inv: "unstage_inv committing level False items s" and "unstage_outcome committing s = Some e"
  shows "post_error committing e"
proof (cases "List.map_filter task_exception (us_tasks s)")
  case Nil
  then show ?thesis using assms(2)
    by (auto simp: unstage_outcome_def post_error_def split: if_splits)
next
  case (Cons x xs)
  have "e = x" using assms(2) Cons by (simp add: unstage_outcome_def)
  then obtain t where t: "t \<in> set (us_tasks s)" "task_exception t = Some e"
    using map_filter_Cons_in [OF Cons] by blast
  moreover from t(2) have "t = Finished (Some e)" by (cases t) simp_all
  ultimately obtain i where "i < length items" "us_tasks s ! i = Finished (Some e)"
    using inv by (metis in_set_conv_nth unstage_inv_def)
  then show ?thesis using unstage_inv_item(3) [OF inv] by fastforce
qed

text \<open>One document whose only request is acknowledged.\<close>

definition one_item :: staged_mutation where
  "one_item = \<lparr> sm_type = mutation_REPLACE, sm_id = mk_document_id ''b'' ''s'' ''c'' ''k'', sm_cas = 5,
     sm_content = None, sm_staged_flags = 0, sm_user_flags = 0, sm_metadata = None,
     sm_operation_id = ''op'' \<rparr>"

definition reply_with :: "errc option \<Rightarrow> mutate_in_response" where
  "reply_with ec = \<lparr> mi_ec = ec, mi_first_error_path = None, mi_first_error_index = None,
     mi_deleted = False, mi_cas = 9, mi_token = None, mi_fields = [] \<rparr>"

definition one_end :: "errc option \<Rightarrow> unstage_state" where
  "one_end ec = the (unstage_run True 0
     [Launch, Run 0 False None, Reply 0 (reply_with ec) None None] (new_unstage_state [one_item] False))"

lemma one_end_reachable:
  assumes "unstage_run True 0 [Launch, Run 0 False None, Reply 0 (reply_with ec) None None]
    (new_unstage_state [one_item] False) \<noteq> None"
  shows "unstage_reachable True 0 cancels [one_item] False (one_end ec)"
proof (rule unstage_run_reachable)
  show "unstage_run True 0 [Launch, Run 0 False None, Reply 0 (reply_with ec) None None]
    (new_unstage_state [one_item] False) = Some (one_end ec)" using assms by (auto simp: one_end_def)
qed (auto intro: reach_init)

lemmas one_eval = one_end_def one_item_def reply_with_def new_unstage_state_def set_task_def
  notify_finished_def task_run_def task_reply_def unstage_kind_def unstage_result_def
  commit_doc_result_def create_from_mutation_response_def validate_operation_result_def
  is_success_def throw_client_error_def error_class_from_result_def error_class_of_code_def
  handle_unstage_error_def handle_commit_doc_error_def post_commit_failure_def
  max_parallelism_def unstage_done_def unstage_outcome_def List.map_filter_def

text \<open>
  C7: A commit that returns without an exception has unstaged every document: for each staged
  mutation the server was sent the request that moves the staged content into the document (or
  removes the document), with no change but the CAS, and answered a request for it without an error.
\<close>

theorem unstage_commit_complete:
  assumes "unstage_reachable True level cancels items ov s"
    and "unstage_done s" and "unstage_outcome True s = None" and "i < length items"
  shows "(\<exists>k c. Sent i (unstage_request (unstage_kind True (sm_type (items ! i))) level
             ((items ! i)\<lparr> sm_cas := k \<rparr>) c) \<in> set (us_log s))
    \<and> (\<exists>resp. Got i resp \<in> set (us_log s) \<and> mi_ec resp = None)"
  using outcome_acknowledged [OF unstage.inv_reachable [OF assms(1)] assms(2-4)]
  by (simp add: sent_request_def acknowledged_def)

theorem unstage_commit_complete_witness:
  "\<exists>resp. Got 0 resp \<in> set (us_log (one_end None)) \<and> mi_ec resp = None"
proof -
  have "unstage_reachable True 0 True [one_item] False (one_end None)"
    by (rule one_end_reachable) (simp add: one_eval)
  moreover have "unstage_done (one_end None)" by (simp add: one_eval)
  moreover have "unstage_outcome True (one_end None) = None" by (simp add: one_eval)
  ultimately show ?thesis 
    using unstage_commit_complete [where items = "[one_item]" and s = "one_end None" and i = 0] by simp
qed

text \<open>
  C11: Once documents are being unstaged the transaction is committed, and no failure may undo it:
  as long as no timer is cancelled, every exception the commit raises forbids a rollback, forbids a
  new attempt and reports \<^verbatim>\<open>FAILED_POST_COMMIT\<close>.
\<close>

theorem unstage_commit_errors:
  assumes "unstage_reachable True level False items ov s" and "unstage_outcome True s = Some e"
  shows "\<exists>f. e = Op_failed f \<and> \<not> tof_rollback f \<and> \<not> tof_retry f
    \<and> tof_to_raise f = FAILED_POST_COMMIT"
  using outcome_post_error [OF unstage.inv_reachable [OF assms(1)] assms(2)]
  by (simp add: post_error_def)

theorem unstage_commit_errors_witness:
  "\<exists>f. unstage_outcome True (one_end (Some (errc_key_value key_value_document_not_found)))
     = Some (Op_failed f) \<and> tof_to_raise f = FAILED_POST_COMMIT"
proof -
  let ?s = "one_end (Some (errc_key_value key_value_document_not_found))"
  let ?f = "failed_post_commit (no_rollback (op_failed FAIL_DOC_NOT_FOUND))"
  have "unstage_reachable True 0 False [one_item] False ?s"
    by (rule one_end_reachable) (simp add: one_eval)
  moreover have "unstage_outcome True ?s = Some (Op_failed ?f)" by (simp add: one_eval)
  ultimately show ?thesis
    using unstage_commit_errors [where s = ?s and e = "Op_failed ?f"] by simp
qed

text \<open>The work left: each label a task still needs once the attempt is in overtime.\<close>

primrec task_weight :: "task \<Rightarrow> nat" where
  "task_weight Unstarted = 4"
| "task_weight (Delayed _ _ _) = 3"
| "task_weight (Posted _ _ _) = 2"
| "task_weight (Awaiting _ _ _) = 1"
| "task_weight (Finished _) = 0"

definition unstage_weight :: "unstage_state \<Rightarrow> nat" where
  "unstage_weight s = sum_list (map task_weight (us_tasks s)) + (if us_aborted s then 0 else 1)"

lemma sum_list_update_less:
  "i < length xs \<Longrightarrow> f x < f (xs ! i) \<Longrightarrow> sum_list (map f (xs[i := x])) < sum_list (map f xs)"
  for f :: "'a \<Rightarrow> nat"
proof (induction xs arbitrary: i)
  case (Cons a xs)
  then show ?case by (cases i) auto
qed simp

lemma unstage_weight_set_task:
  assumes "i < length (us_tasks s)" and "task_weight t < task_weight (us_tasks s ! i)"
    and "us_tasks s1 = us_tasks s" and "us_aborted s1 = us_aborted s"
  shows "unstage_weight (set_task i t s1) < unstage_weight s"
  using sum_list_update_less [of i "us_tasks s" task_weight t] assms by (simp add: unstage_weight_def)

lemma handled_overtime:
  "handled committing True ov' t \<Longrightarrow> ov' \<and> task_weight t = 0"
  unfolding handled_def by (elim conjE disjE exE) auto

lemma unstage_exec_overtime:
  assumes inv: "unstage_inv committing level cancels items s" and ov: "us_overtime s"
    and ex: "unstage_exec committing level l s = Some s'"
  shows "us_overtime s' \<and> unstage_weight s' < unstage_weight s"
proof (cases l)
  case (Run i b hook)
  obtain a c d where i: "i < length items" and task: "us_tasks s ! i = Posted a c d"
    using ex inv Run by (auto simp: unstage_inv_def split: if_splits task.splits)
  note item = unstage_inv_item [OF inv i]
  obtain ov' t req where run: "task_run (unstage_kind committing (sm_type (items ! i))) level
      (us_items s ! i) a c new_async_delay b hook True = (ov', t, req)" by (rule prod_cases3)
  have "ov' \<and> task_weight t < 2"
    using task_run_cases [OF run] handled_overtime [of committing ov' t] by auto
  then show ?thesis using ex ov Run item task run i inv
    by (auto simp: unstage_inv_def intro!: unstage_weight_set_task)
next
  case (Reply i resp h1 h2)
  obtain a c d where i: "i < length items" and task: "us_tasks s ! i = Awaiting a c d"
    using ex inv Reply by (auto simp: unstage_inv_def split: if_splits task.splits)
  note item = unstage_inv_item [OF inv i]
  obtain ov' item' t where reply: "task_reply (unstage_kind committing (sm_type (items ! i)))
      (us_items s ! i) a c new_async_delay resp h1 h2 True = Some (ov', item', t)"
    and t: "ov'" "t = Finished None \<or> handled committing True ov' t"
    using task_reply_cases [of committing "sm_type (items ! i)" "us_items s ! i" a c resp h1 h2 True]
    by blast
  have "task_weight t = 0" using t handled_overtime by auto
  then show ?thesis using ex ov Reply item task reply t(1) i inv
    by (auto simp: unstage_inv_def intro!: unstage_weight_set_task)
next
  case (Timer i cancelled)
  then show ?thesis using ex ov inv
    by (auto simp: unstage_inv_def split: if_splits task.splits intro!: unstage_weight_set_task)
next
  case Launch
  then show ?thesis using ex ov inv
    sum_list_update_less [of "us_next s" "us_tasks s" task_weight "Posted False False new_async_delay"]
    by (auto simp: unstage_inv_def unstage_weight_def split: if_splits)
qed (use ex ov in \<open>auto simp: unstage_weight_def split: if_splits\<close>)

lemma unstage_run_overtime:
  assumes "unstage_inv committing level True items s" and "us_overtime s"
    and "unstage_run committing level ls s = Some s'"
  shows "length ls + unstage_weight s' \<le> unstage_weight s \<and> unstage_inv committing level True items s'"
  using assms
proof (induction ls arbitrary: s)
  case (Cons l ls)
  obtain s1 where s1: "unstage_exec committing level l s = Some s1"
    "unstage_run committing level ls s1 = Some s'"
    using Cons.prems(3) by (auto split: option.splits)
  have "unstage_inv committing level True items s1"
    by (rule unstage_inv_step [OF Cons.prems(1)]) (rule unstage_step.intros [OF s1(1)], simp)
  then show ?case using Cons.IH [OF _ _ s1(2)] unstage_exec_overtime [OF Cons.prems(1,2) s1(1)]
    by auto
qed simp

lemma unstage_not_stuck:
  assumes inv: "unstage_inv committing level cancels items s" and "\<not> unstage_done s"
  shows "\<exists>l s'. unstage_exec committing level l s = Some s'"
proof (cases "us_aborted s \<or> us_next s = length (us_items s)")
  case True
  then obtain i where i: "i < us_next s" "\<And>r. us_tasks s ! i \<noteq> Finished r"
    using assms(2) by (auto simp: unstage_done_def)
  then have len: "i < length items" using inv by (simp add: unstage_inv_def)
  note item = unstage_inv_item [OF inv len]
  show ?thesis
  proof (cases "us_tasks s ! i")
    case Unstarted
    then show ?thesis using inv i len by (auto simp: unstage_inv_def)
  next
    case (Posted a c d)
    then have "unstage_exec committing level (Run i False None) s \<noteq> None"
      using item(4) by (simp split: prod.split)
    then show ?thesis by blast
  next
    case (Awaiting a c d)
    then have "unstage_exec committing level (Reply i resp None None) s \<noteq> None" for resp
      using item task_reply_cases [of committing "sm_type (items ! i)" "us_items s ! i" a c resp None
          None "us_overtime s"] by auto
    then show ?thesis by blast
  next
    case (Delayed a c d)
    then have "unstage_exec committing level (Timer i False) s \<noteq> None" using item(4) by simp
    then show ?thesis by blast
  qed (use i in simp)
next
  case False
  then have "us_next s < length (us_items s)" using inv by (simp add: unstage_inv_def)
  with False have "unstage_exec committing level
      (if us_abort s then Wait_aborted
       else if us_in_flight s < max_parallelism then Launch else Wait_timed_out) s \<noteq> None"
    by simp
  then show ?thesis by blast
qed

lemma sum_task_weight: "sum_list (map task_weight ts) \<le> 4 * length ts"
proof (induction ts)
  case (Cons t ts)
  then show ?case by (cases t) auto
qed simp

text \<open>
  C26: Once the attempt is in expiry overtime, committing and rolling back end: at most four steps per
  document and one for the caller remain, whatever the server, the hooks and the timers do, and when
  nothing more can happen the caller returns.
\<close>

theorem unstage_overtime_terminates:
  assumes "unstage_reachable committing level True items ov s" and "us_overtime s"
    and "unstage_run committing level ls s = Some s'"
  shows "length ls \<le> 4 * length items + 1
    \<and> (unstage_done s' \<or> (\<exists>l s''. unstage_exec committing level l s' = Some s''))"
proof -
  have inv: "unstage_inv committing level True items s" using assms(1) by (rule unstage.inv_reachable)
  note run = unstage_run_overtime [OF inv assms(2,3)]
  have "unstage_weight s \<le> 4 * length items + 1"
    using sum_task_weight [of "us_tasks s"] inv by (simp add: unstage_weight_def unstage_inv_def)
  then show ?thesis using run unstage_not_stuck by fastforce
qed

theorem unstage_overtime_terminates_witness:
  "\<exists>s. unstage_run False 0 [Launch, Run 0 False (Some FAIL_TRANSIENT)]
         (new_unstage_state [one_item] True) = Some s \<and> unstage_done s"
proof -
  let ?s = "new_unstage_state [one_item] True"
  have "unstage_reachable False 0 True [one_item] True ?s" by (rule reach_init) simp
  moreover have "us_overtime ?s" by (simp add: new_unstage_state_def)
  moreover obtain s where s: "unstage_run False 0 [Launch, Run 0 False (Some FAIL_TRANSIENT)] ?s = Some s"
    "unstage_done s"
    by (simp add: one_eval handle_rollback_remove_or_replace_error_def)
  ultimately have "length [Launch, Run 0 False (Some FAIL_TRANSIENT)] \<le> 4 * length [one_item] + 1"
    using unstage_overtime_terminates [where s = ?s and s' = s] by blast
  with s show ?thesis by blast
qed

text \<open>An ambiguous answer, the timer of the retry and the retry itself.\<close>

definition ambiguous_round :: "unstage_label list" where
  "ambiguous_round = [Reply 0 (reply_with (Some (errc_common common_ambiguous_timeout))) None None,
     Timer 0 False, Run 0 False None]"

definition awaiting_retry :: "staged_mutation \<Rightarrow> nat \<Rightarrow> unstage_state \<Rightarrow> bool" where
  "awaiting_retry item n s \<longleftrightarrow> us_items s = [item]
     \<and> (\<exists>a. us_tasks s = [Awaiting a False new_async_delay]) \<and> us_next s = 1 \<and> \<not> us_overtime s
     \<and> length (us_log s) = n"

lemma ambiguous_error:
  "validate_operation_result True (unstage_result kind item c
     (reply_with (Some (errc_common common_ambiguous_timeout)))) = Some (Inl (Client_error FAIL_AMBIGUOUS))"
  by (simp add: validate_operation_result_def is_success_def throw_client_error_def
      error_class_from_result_def error_class_of_code_def reply_with_def)

lemma ambiguous_round_retries:
  assumes "awaiting_retry item n s"
  shows "\<exists>s'. unstage_run True level ambiguous_round s = Some s' \<and> awaiting_retry item (n + 2) s'"
  using assms
  by (cases "sm_type item")
    (auto simp: awaiting_retry_def ambiguous_round_def task_reply_def ambiguous_error
      unstage_kind_def handle_unstage_error_def handle_commit_doc_error_def
      handle_remove_doc_error_def task_run_def)

lemma ambiguous_rounds_retry:
  "awaiting_retry item n s \<Longrightarrow> \<exists>s'. unstage_run True level (concat (replicate k ambiguous_round)) s
     = Some s' \<and> awaiting_retry item (n + 2 * k) s'"
proof (induction k arbitrary: s n)
  case (Suc k)
  then obtain s1 where "unstage_run True level ambiguous_round s = Some s1"
    "awaiting_retry item (n + 2) s1" using ambiguous_round_retries by blast
  then show ?case using Suc.IH [of "n + 2" s1] by (auto simp: unstage_run_append)
qed simp

text \<open>
  C37: The cap of one hundred retries is never reached. The closure that retries copies the delay
  before the delay counts the attempt, so every retry starts from a fresh counter: a document whose
  server keeps answering ambiguously is sent any number of requests, and the commit is still not
  done.
\<close>

theorem unstage_retry_uncapped:
  "\<exists>s. unstage_run True level ([Launch, Run 0 False None] @ concat (replicate n ambiguous_round))
         (new_unstage_state [item] False) = Some s
     \<and> \<not> unstage_done s \<and> length (us_log s) = 2 * n + 1"
proof -
  obtain s0 where s0: "unstage_run True level [Launch, Run 0 False None]
      (new_unstage_state [item] False) = Some s0" "awaiting_retry item 1 s0"
    by (cases "sm_type item") (auto simp: new_unstage_state_def max_parallelism_def task_run_def
        unstage_kind_def awaiting_retry_def)
  then obtain s where "unstage_run True level (concat (replicate n ambiguous_round)) s0 = Some s"
    "awaiting_retry item (1 + 2 * n) s" using ambiguous_rounds_retry by blast
  then show ?thesis unfolding unstage_run_append s0(1)
    by (auto simp: awaiting_retry_def unstage_done_def)
qed

text \<open>
  The number of requests in flight the caller limits is exact: it always equals the number of
  operations that have been started and have not finished, and it never exceeds the limit.
\<close>

theorem unstage_in_flight:
  assumes "unstage_reachable committing level cancels items ov s"
  shows "unat (us_in_flight s) = length (filter running (us_tasks s))
    \<and> us_in_flight s \<le> max_parallelism"
  using unstage.inv_reachable [OF assms] by (simp add: unstage_inv_def)

theorem unstage_in_flight_witness:
  "unat (us_in_flight (one_end None)) = length (filter running (us_tasks (one_end None)))"
proof -
  have "unstage_reachable True 0 True [one_item] False (one_end None)"
    by (rule one_end_reachable) (simp add: one_eval)
  then show ?thesis using unstage_in_flight by blast
qed

end
