(* ===== verification/Attempt.thy ===== *)
theory Attempt
  imports Unstaging
begin

text \<open>
  The end of a transaction attempt, \<^verbatim>\<open>commit\<close> and \<^verbatim>\<open>rollback\<close> of
  \<^verbatim>\<open>core/transactions/attempt_context_impl.cxx\<close>: the entry of the attempt in the active
  transaction record (ATR) is moved to COMMITTED or ABORTED, the documents are unstaged, the entry is
  removed. The code blocks its thread on every answer, so a function of the model takes the state of
  the attempt and gives the exception or value with the new state; no result means that it does not
  return. What the environment decides (the clock, the testing hooks, the answers of the server, the
  interleaving of the unstaging) is read from \<open>attempt_env\<close> at the current position of a
  counter that every reading advances.
\<close>

subsection \<open>The state of an attempt\<close>

text \<open>The operations on the transaction record; the values are kept as the source gives them.\<close>

datatype atr_value =
    Atr_string string
  | Atr_macro mutate_in_macro
  | Atr_int int
  | Atr_docs "doc_ref list"
  | Atr_raw bytes

datatype atr_op =
    Atr_upsert string atr_value bool
  | Atr_insert string atr_value bool
  | Atr_remove string
  | Atr_set_doc atr_value

record atr_request =
  ar_id :: document_id
  ar_ops :: "atr_op list"
  ar_level :: durability_level
  ar_semantics :: store_semantics

datatype attempt_event =
    Atr_mutated atr_request mutate_in_response
  | Atr_read string lookup_in_response
  | Unstaged bool "unstage_event list"
  | Doc_mutated mutate_in_request mutate_in_response
  | Doc_read document_id lookup_in_response

record attempt =
  at_state :: attempt_state
  at_overtime :: bool
  at_done :: bool
  at_queue :: mutation_queue
  at_atr_id :: "document_id option"
  at_errors :: "transaction_operation_failed list"
  at_query_mode :: bool
  at_clock :: nat
  at_log :: "attempt_event list"

text \<open>How a query statement of the query mode ends, \<^verbatim>\<open>wrap_query\<close>.\<close>

datatype query_failure =
    Query_op_failed transaction_operation_failed
  | Query_attempt_expired
  | Query_attempt_not_found
  | Query_doc_not_found
  | Query_doc_exists
  | Query_cas_mismatch
  | Query_other

text \<open>
  The environment: the name of the attempt, the durability, and what is observed at each position of
  the counter. Decoding of a JSON string is the JSON library's; no result is the exception it throws.
\<close>

record attempt_env =
  ae_id :: string
  ae_level :: durability_level
  ae_expired :: "nat \<Rightarrow> bool"
  ae_hook :: "nat \<Rightarrow> error_class option"
  ae_mutate :: "nat \<Rightarrow> mutate_in_response"
  ae_lookup :: "nat \<Rightarrow> lookup_in_response"
  ae_unstage :: "nat \<Rightarrow> unstage_label list"
  ae_query :: "nat \<Rightarrow> query_failure option"
  ae_json_string :: "bytes \<Rightarrow> string option"

type_synonym ('s, 'a) txn_code = "'s \<Rightarrow> ((txn_exception + 'a) \<times> 's) option"
type_synonym 'a attempt_code = "(attempt, 'a) txn_code"

definition tx_return :: "'a \<Rightarrow> ('s, 'a) txn_code" where
  "tx_return x s = Some (Inr x, s)"

definition tx_throw :: "txn_exception \<Rightarrow> ('s, 'a) txn_code" where
  "tx_throw e s = Some (Inl e, s)"

definition tx_bind :: "('s, 'a) txn_code \<Rightarrow> ('a \<Rightarrow> ('s, 'b) txn_code) \<Rightarrow> ('s, 'b) txn_code" where
  "tx_bind m f s =
     (case m s of
        None \<Rightarrow> None | Some (Inl e, s') \<Rightarrow> Some (Inl e, s') | Some (Inr x, s') \<Rightarrow> f x s')"

definition tx_then :: "('s, unit) txn_code \<Rightarrow> ('s, 'b) txn_code \<Rightarrow> ('s, 'b) txn_code" where
  "tx_then m k = tx_bind m (\<lambda>_. k)"

definition tx_catch :: "('s, 'a) txn_code \<Rightarrow> (txn_exception \<Rightarrow> ('s, 'a) txn_code) \<Rightarrow> ('s, 'a) txn_code" where
  "tx_catch m h s =
     (case m s of
        None \<Rightarrow> None | Some (Inl e, s') \<Rightarrow> h e s' | Some (Inr x, s') \<Rightarrow> Some (Inr x, s'))"

definition tx_modify :: "('s \<Rightarrow> 's) \<Rightarrow> ('s, unit) txn_code" where
  "tx_modify f s = Some (Inr (), f s)"

lemmas tx_defs = tx_return_def tx_throw_def tx_bind_def tx_then_def tx_catch_def tx_modify_def

subsection \<open>Retries\<close>

text \<open>
  \<^verbatim>\<open>retry_op\<close>: its counter is compared with the largest value of its type, so the loop ends
  only when the body stops throwing \<^verbatim>\<open>retry_operation\<close>.
\<close>

partial_function (option) retry_op :: "('s, 'a) txn_code \<Rightarrow> ('s, 'a) txn_code" where
  "retry_op f s = Option.bind (f s) (\<lambda>r.
     if fst r = Inl Retry_operation then retry_op f (snd r) else Some r)"

text \<open>\<^verbatim>\<open>retry_op_exp\<close>: at most a hundred retries.\<close>

primrec retry_op_exponential_backoff :: "nat \<Rightarrow> ('s, 'a) txn_code \<Rightarrow> ('s, 'a) txn_code" where
  "retry_op_exponential_backoff 0 f s = Some (Inl Retry_operation_retries_exhausted, s)"
| "retry_op_exponential_backoff (Suc n) f s =
     (case f s of
        None \<Rightarrow> None
      | Some r \<Rightarrow>
          (if fst r = Inl Retry_operation then retry_op_exponential_backoff n f (snd r) else Some r))"

definition retry_op_exp :: "('s, 'a) txn_code \<Rightarrow> ('s, 'a) txn_code" where
  "retry_op_exp f = retry_op_exponential_backoff 101 f"

subsection \<open>Expiry, hooks and requests\<close>

definition has_expired_client_side :: "attempt_env \<Rightarrow> bool attempt_code" where
  "has_expired_client_side env s =
     Some (Inr (ae_expired env (at_clock s)), s\<lparr> at_clock := at_clock s + 1 \<rparr>)"

definition check_expiry_pre_commit :: "attempt_env \<Rightarrow> bool attempt_code" where
  "check_expiry_pre_commit env =
     tx_bind (has_expired_client_side env) (\<lambda>is_expired.
       if is_expired then tx_then (tx_modify (\<lambda>s. s\<lparr> at_overtime := True \<rparr>)) (tx_return True)
       else tx_return False)"

definition error_if_expired_and_not_in_overtime :: "attempt_env \<Rightarrow> error_class option attempt_code" where
  "error_if_expired_and_not_in_overtime env s =
     (if at_overtime s then Some (Inr None, s)
      else tx_bind (has_expired_client_side env)
             (\<lambda>is_expired. tx_return (if is_expired then Some FAIL_EXPIRY else None)) s)"

definition check_expiry_during_commit_or_rollback :: "attempt_env \<Rightarrow> unit attempt_code" where
  "check_expiry_during_commit_or_rollback env s =
     (if at_overtime s then Some (Inr (), s)
      else tx_bind (has_expired_client_side env) (\<lambda>is_expired.
             if is_expired then tx_modify (\<lambda>s. s\<lparr> at_overtime := True \<rparr>) else tx_return ()) s)"

definition wait_for_hook :: "attempt_env \<Rightarrow> error_class option attempt_code" where
  "wait_for_hook env s = Some (Inr (ae_hook env (at_clock s)), s\<lparr> at_clock := at_clock s + 1 \<rparr>)"

text \<open>\<^verbatim>\<open>if (ec) throw client_error(*ec, ...)\<close>\<close>

definition throw_if :: "error_class option \<Rightarrow> unit attempt_code" where
  "throw_if ec = (case ec of Some c \<Rightarrow> tx_throw (Client_error c) | None \<Rightarrow> tx_return ())"

definition wrap_operation_future :: "bool \<Rightarrow> txn_result \<Rightarrow> txn_result attempt_code" where
  "wrap_operation_future ignore_subdoc_errors res s =
     (case validate_operation_result ignore_subdoc_errors res of
        None \<Rightarrow> None | Some r \<Rightarrow> Some (r, s))"

definition execute_mutate_in :: "attempt_env \<Rightarrow> atr_request \<Rightarrow> mutate_in_response attempt_code" where
  "execute_mutate_in env req s =
     (let resp = ae_mutate env (at_clock s)
      in Some (Inr resp, s\<lparr> at_clock := at_clock s + 1, at_log := at_log s @ [Atr_mutated req resp] \<rparr>))"

definition execute_lookup_in :: "attempt_env \<Rightarrow> string \<Rightarrow> lookup_in_response attempt_code" where
  "execute_lookup_in env path s =
     (let resp = ae_lookup env (at_clock s)
      in Some (Inr resp, s\<lparr> at_clock := at_clock s + 1, at_log := at_log s @ [Atr_read path resp] \<rparr>))"

definition create_from_lookup_response :: "lookup_in_response \<Rightarrow> txn_result" where
  "create_from_lookup_response resp =
     \<lparr> res_ec = li_ec resp, res_cas = li_cas resp,
       res_values = map (\<lambda>f. (sf_value f, sf_status f)) (li_fields resp),
       res_is_deleted = li_deleted resp, res_ignore_subdoc_errors = False \<rparr>"

text \<open>\<^verbatim>\<open>atr_id_.value()\<close> throws \<^verbatim>\<open>std::bad_optional_access\<close>.\<close>

definition atr_id_value :: "document_id attempt_code" where
  "atr_id_value s =
     (case at_atr_id s of Some i \<Rightarrow> Some (Inr i, s) | None \<Rightarrow> Some (Inl Std_exception, s))"

definition atr_prefix :: "attempt_env \<Rightarrow> string" where
  "atr_prefix env = ''attempts.'' @ ae_id env"

definition atr_field :: "attempt_env \<Rightarrow> string \<Rightarrow> string" where
  "atr_field env f = atr_prefix env @ ''.'' @ f"

definition docs_ops :: "attempt_env \<Rightarrow> mutation_queue \<Rightarrow> atr_op list" where
  "docs_ops env q = map (\<lambda>(path, ds). Atr_upsert path (Atr_docs ds) True)
     (extract_to (atr_prefix env @ ''.'') q)"

subsection \<open>Commit\<close>

definition atr_commit_request :: "attempt_env \<Rightarrow> document_id \<Rightarrow> mutation_queue \<Rightarrow> atr_request" where
  "atr_commit_request env i q = \<lparr> ar_id = i,
     ar_ops = [Atr_upsert (atr_field env ''st'') (Atr_string (attempt_state_name state_COMMITTED)) False,
       Atr_upsert (atr_field env ''tsc'') (Atr_macro mutation_cas) False,
       Atr_insert (atr_field env ''p'') (Atr_int 0) False] @ docs_ops env q,
     ar_level = ae_level env, ar_semantics = store_replace \<rparr>"

text \<open>
  \<^verbatim>\<open>atr_commit_ambiguity_resolution\<close>: reads the state of the attempt from the record.
\<close>

definition atr_status_of :: "attempt_env \<Rightarrow> txn_result \<Rightarrow> attempt_state attempt_code" where
  "atr_status_of env res s =
     (case res_values res of
        [] \<Rightarrow> None
      | (v, _) # _ \<Rightarrow>
          (case ae_json_string env v of
             None \<Rightarrow> Some (Inl Std_exception, s)
           | Some raw \<Rightarrow> Some (Inr (attempt_state_value raw), s)))"

definition ambiguity_resolution_error :: "error_class \<Rightarrow> txn_exception" where
  "ambiguity_resolution_error ec =
     (case ec of
        FAIL_EXPIRY \<Rightarrow> Op_failed (ambiguous (no_rollback (op_failed ec)))
      | FAIL_HARD \<Rightarrow> Op_failed (ambiguous (no_rollback (op_failed ec)))
      | FAIL_TRANSIENT \<Rightarrow> Retry_operation
      | FAIL_OTHER \<Rightarrow> Retry_operation
      | FAIL_PATH_NOT_FOUND \<Rightarrow> Op_failed (ambiguous (no_rollback
          (with_cause ACTIVE_TRANSACTION_RECORD_ENTRY_NOT_FOUND (op_failed ec))))
      | FAIL_DOC_NOT_FOUND \<Rightarrow> Op_failed (ambiguous (no_rollback
          (with_cause ACTIVE_TRANSACTION_RECORD_NOT_FOUND (op_failed ec))))
      | _ \<Rightarrow> Op_failed (ambiguous (no_rollback (op_failed ec))))"

definition atr_commit_ambiguity_resolution :: "attempt_env \<Rightarrow> unit attempt_code" where
  "atr_commit_ambiguity_resolution env =
     tx_catch
       (tx_then (tx_bind (error_if_expired_and_not_in_overtime env) throw_if)
       (tx_then (tx_bind (wait_for_hook env) throw_if)
       (tx_bind atr_id_value (\<lambda>_.
        tx_bind (execute_lookup_in env (atr_field env ''st'')) (\<lambda>resp.
        tx_bind (wrap_operation_future True (create_from_lookup_response resp)) (\<lambda>res.
        tx_bind (atr_status_of env res) (\<lambda>status.
          case status of
            state_COMMITTED \<Rightarrow> tx_return ()
          | state_ABORTED \<Rightarrow> tx_throw (Op_failed (with_retry (op_failed FAIL_OTHER)))
          | _ \<Rightarrow> tx_throw (Op_failed (no_rollback
                  (with_cause ILLEGAL_STATE_EXCEPTION (op_failed FAIL_OTHER)))))))))))
       (\<lambda>e. case e of Client_error ec \<Rightarrow> tx_throw (ambiguity_resolution_error ec) | _ \<Rightarrow> tx_throw e)"

text \<open>
  One round of \<^verbatim>\<open>atr_commit\<close>. The flag \<^verbatim>\<open>ambiguity_resolution_mode\<close> is captured by
  reference and survives from round to round: it is part of the state of the loop.
\<close>

definition atr_commit_try :: "attempt_env \<Rightarrow> unit attempt_code" where
  "atr_commit_try env =
     tx_bind atr_id_value (\<lambda>i.
     tx_then (tx_bind (error_if_expired_and_not_in_overtime env) throw_if)
     (tx_then (tx_bind (wait_for_hook env) throw_if)
     (\<lambda>s. (tx_bind (execute_mutate_in env (atr_commit_request env i (at_queue s))) (\<lambda>resp.
      tx_bind (wrap_operation_future False (create_from_subdoc_response resp)) (\<lambda>_.
      tx_then (tx_bind (wait_for_hook env) throw_if)
      (tx_modify (\<lambda>s. s\<lparr> at_state := state_COMMITTED \<rparr>))))) s)))"

definition if_ambiguous :: "bool \<Rightarrow> transaction_operation_failed \<Rightarrow> transaction_operation_failed" where
  "if_ambiguous amb f = (if amb then ambiguous f else f)"

definition atr_commit_error ::
  "attempt_env \<Rightarrow> bool \<Rightarrow> error_class \<Rightarrow> attempt \<Rightarrow> ((txn_exception + unit) \<times> bool \<times> attempt) option" where
  "atr_commit_error env amb ec s =
     (let throw = (\<lambda>f. Some (Inl (Op_failed f), amb, s))
      in case ec of
        FAIL_EXPIRY \<Rightarrow>
          (let out = no_rollback (op_failed ec)
           in Some (Inl (Op_failed (if amb then ambiguous out else expired out)), amb,
                s\<lparr> at_overtime := True \<rparr>))
      | FAIL_AMBIGUOUS \<Rightarrow> Some (Inl Retry_operation, True, s)
      | FAIL_TRANSIENT \<Rightarrow>
          (if amb then Some (Inl Retry_operation, amb, s) else throw (with_retry (op_failed ec)))
      | FAIL_PATH_ALREADY_EXISTS \<Rightarrow>
          map_option (\<lambda>(r, s'). (r, amb, s')) (retry_op (atr_commit_ambiguity_resolution env) s)
      | FAIL_HARD \<Rightarrow> throw (if_ambiguous amb (no_rollback (op_failed ec)))
      | FAIL_DOC_NOT_FOUND \<Rightarrow> throw (if_ambiguous amb
          (no_rollback (with_cause ACTIVE_TRANSACTION_RECORD_NOT_FOUND (op_failed ec))))
      | FAIL_PATH_NOT_FOUND \<Rightarrow> throw (if_ambiguous amb
          (no_rollback (with_cause ACTIVE_TRANSACTION_RECORD_ENTRY_NOT_FOUND (op_failed ec))))
      | FAIL_ATR_FULL \<Rightarrow> throw (if_ambiguous amb
          (no_rollback (with_cause ACTIVE_TRANSACTION_RECORD_FULL (op_failed ec))))
      | _ \<Rightarrow> throw (if amb then ambiguous (no_rollback (op_failed ec)) else op_failed ec))"

definition atr_commit_round :: "attempt_env \<Rightarrow> (bool \<times> attempt, unit) txn_code" where
  "atr_commit_round env = (\<lambda>(amb, s).
     case atr_commit_try env s of
       None \<Rightarrow> None
     | Some (Inl (Client_error ec), s') \<Rightarrow> atr_commit_error env amb ec s'
     | Some (r, s') \<Rightarrow> Some (r, amb, s'))"

definition atr_commit :: "attempt_env \<Rightarrow> bool \<Rightarrow> unit attempt_code" where
  "atr_commit env amb s =
     map_option (\<lambda>(r, _, s'). (r, s')) (retry_op (atr_commit_round env) (amb, s))"

definition atr_remove_request :: "attempt_env \<Rightarrow> document_id \<Rightarrow> atr_request" where
  "atr_remove_request env i = \<lparr> ar_id = i, ar_ops = [Atr_remove (atr_prefix env)],
     ar_level = ae_level env, ar_semantics = store_replace \<rparr>"

definition atr_complete :: "attempt_env \<Rightarrow> unit attempt_code" where
  "atr_complete env =
     tx_catch
       (tx_then (tx_bind (wait_for_hook env) throw_if)
       (tx_then (tx_bind (error_if_expired_and_not_in_overtime env) throw_if)
       (tx_bind atr_id_value (\<lambda>i.
        tx_bind (execute_mutate_in env (atr_remove_request env i)) (\<lambda>resp.
        tx_bind (wrap_operation_future True (create_from_subdoc_response resp)) (\<lambda>_.
        tx_then (tx_bind (wait_for_hook env) throw_if)
        (tx_modify (\<lambda>s. s\<lparr> at_state := state_COMPLETED \<rparr>))))))))
       (\<lambda>e. case e of
          Client_error FAIL_HARD \<Rightarrow>
            tx_throw (Op_failed (failed_post_commit (no_rollback (op_failed FAIL_HARD))))
        | Client_error _ \<Rightarrow> tx_return ()
        | _ \<Rightarrow> tx_throw e)"

text \<open>\<^verbatim>\<open>staged_mutations_->commit(ctx)\<close> and \<^verbatim>\<open>rollback(ctx)\<close>, run to their end.\<close>

definition unstage_phase :: "attempt_env \<Rightarrow> bool \<Rightarrow> unit attempt_code" where
  "unstage_phase env committing s =
     (case unstage_run committing (ae_level env) (ae_unstage env (at_clock s))
             (new_unstage_state (at_queue s) (at_overtime s)) of
        None \<Rightarrow> None
      | Some u \<Rightarrow>
          (if \<not> unstage_done u then None
           else Some (case unstage_outcome committing u of None \<Rightarrow> Inr () | Some e \<Rightarrow> Inl e,
             s\<lparr> at_clock := at_clock s + 1, at_queue := us_items u, at_overtime := us_overtime u,
                at_log := at_log s @ [Unstaged committing (us_log u)] \<rparr>)))"

definition existing_error :: "bool \<Rightarrow> unit attempt_code" where
  "existing_error prev_op_failed s =
     (if at_errors s = [] then Some (Inr (), s)
      else case merge_errors (at_errors s)
             (if prev_op_failed then Some PREVIOUS_OPERATION_FAILED else None) of
        None \<Rightarrow> None | Some f \<Rightarrow> Some (Inl (Op_failed f), s))"

definition commit_with_query :: "attempt_env \<Rightarrow> unit attempt_code" where
  "commit_with_query env s =
     (let s' = s\<lparr> at_clock := at_clock s + 1, at_done := True \<rparr>;
          failed = (\<lambda>f. Some (Inl (Op_failed f), s'))
      in case ae_query env (at_clock s) of
           None \<Rightarrow> Some (Inr (), s'\<lparr> at_state := state_COMPLETED \<rparr>)
         | Some (Query_op_failed f) \<Rightarrow> failed f
         | Some Query_attempt_expired \<Rightarrow> failed (no_rollback (ambiguous (op_failed FAIL_EXPIRY)))
         | Some Query_doc_not_found \<Rightarrow> failed (no_rollback (op_failed FAIL_DOC_NOT_FOUND))
         | Some Query_doc_exists \<Rightarrow> failed (no_rollback (op_failed FAIL_DOC_ALREADY_EXISTS))
         | Some Query_cas_mismatch \<Rightarrow> failed (no_rollback (op_failed FAIL_CAS_MISMATCH))
         | Some _ \<Rightarrow> failed (no_rollback (op_failed FAIL_OTHER)))"

definition has_atr :: "attempt \<Rightarrow> bool" where
  "has_atr s \<longleftrightarrow> (case at_atr_id s of None \<Rightarrow> False | Some i \<Rightarrow> id_key i \<noteq> [])"

text \<open>\<^verbatim>\<open>commit()\<close> once no operation is running.\<close>

definition commit_kv :: "attempt_env \<Rightarrow> unit attempt_code" where
  "commit_kv env =
     tx_bind (check_expiry_pre_commit env) (\<lambda>is_expired.
       if is_expired then tx_throw (Op_failed (expired (op_failed FAIL_EXPIRY)))
       else (\<lambda>s.
         if has_atr s \<and> \<not> at_done s
         then tx_then (retry_op_exp (atr_commit env False))
             (tx_then (unstage_phase env True)
             (tx_then (atr_complete env)
             (tx_modify (\<lambda>s. s\<lparr> at_done := True \<rparr>)))) s
         else if \<not> at_done s then Some (Inr (), s\<lparr> at_done := True \<rparr>)
         else Some (Inl (Op_failed (no_rollback (op_failed FAIL_OTHER))), s)))"

definition commit :: "attempt_env \<Rightarrow> unit attempt_code" where
  "commit env =
     tx_then (existing_error False)
       (\<lambda>s. if at_query_mode s then commit_with_query env s else commit_kv env s)"

text \<open>\<^verbatim>\<open>commit(VoidCallback&&)\<close>: the exception its callback gets.\<close>

definition commit_cb :: "attempt_env \<Rightarrow> unit attempt_code" where
  "commit_cb env =
     tx_catch (commit env)
       (\<lambda>e. case e of Op_failed f \<Rightarrow> tx_throw e | _ \<Rightarrow> tx_throw (Op_failed (op_failed FAIL_OTHER)))"

subsection \<open>Rollback\<close>

definition atr_abort_request :: "attempt_env \<Rightarrow> document_id \<Rightarrow> mutation_queue \<Rightarrow> atr_request" where
  "atr_abort_request env i q = \<lparr> ar_id = i,
     ar_ops = [Atr_upsert (atr_field env ''st'') (Atr_string (attempt_state_name state_ABORTED)) True,
       Atr_upsert (atr_field env ''tsrs'') (Atr_macro mutation_cas) True] @ docs_ops env q,
     ar_level = ae_level env, ar_semantics = store_replace \<rparr>"

definition atr_abort_error :: "error_class \<Rightarrow> unit attempt_code" where
  "atr_abort_error ec s =
     (if at_overtime s
      then tx_throw (Op_failed (expired (no_rollback (op_failed FAIL_EXPIRY)))) s
      else case ec of
        FAIL_EXPIRY \<Rightarrow> tx_throw Retry_operation (s\<lparr> at_overtime := True \<rparr>)
      | FAIL_PATH_NOT_FOUND \<Rightarrow> tx_throw (Op_failed
          (with_cause ACTIVE_TRANSACTION_RECORD_ENTRY_NOT_FOUND (no_rollback (op_failed ec)))) s
      | FAIL_DOC_NOT_FOUND \<Rightarrow> tx_throw (Op_failed
          (with_cause ACTIVE_TRANSACTION_RECORD_NOT_FOUND (no_rollback (op_failed ec)))) s
      | FAIL_ATR_FULL \<Rightarrow> tx_throw (Op_failed
          (with_cause ACTIVE_TRANSACTION_RECORD_FULL (no_rollback (op_failed ec)))) s
      | FAIL_HARD \<Rightarrow> tx_throw (Op_failed (no_rollback (op_failed ec))) s
      | _ \<Rightarrow> tx_throw Retry_operation s)"

definition atr_abort :: "attempt_env \<Rightarrow> unit attempt_code" where
  "atr_abort env =
     tx_catch
       (tx_then (tx_bind (error_if_expired_and_not_in_overtime env) throw_if)
       (tx_then (tx_bind (wait_for_hook env) throw_if)
       (tx_bind atr_id_value (\<lambda>i.
        (\<lambda>s. (tx_bind (execute_mutate_in env (atr_abort_request env i (at_queue s))) (\<lambda>resp.
         tx_bind (wrap_operation_future True (create_from_subdoc_response resp)) (\<lambda>_.
         tx_then (tx_modify (\<lambda>s. s\<lparr> at_state := state_ABORTED \<rparr>))
         (tx_bind (wait_for_hook env) throw_if)))) s)))))
       (\<lambda>e. case e of Client_error ec \<Rightarrow> atr_abort_error ec | _ \<Rightarrow> tx_throw e)"

definition atr_rollback_complete_error :: "error_class \<Rightarrow> unit attempt_code" where
  "atr_rollback_complete_error ec s =
     (if at_overtime s
      then tx_throw (Op_failed (expired (no_rollback (op_failed FAIL_EXPIRY)))) s
      else case ec of
        FAIL_DOC_NOT_FOUND \<Rightarrow> Some (Inr (), s\<lparr> at_done := True \<rparr>)
      | FAIL_PATH_NOT_FOUND \<Rightarrow> Some (Inr (), s\<lparr> at_done := True \<rparr>)
      | FAIL_ATR_FULL \<Rightarrow> tx_throw Retry_operation s
      | FAIL_HARD \<Rightarrow> tx_throw (Op_failed (no_rollback (op_failed ec))) s
      | FAIL_EXPIRY \<Rightarrow> tx_throw (Op_failed (expired (no_rollback (op_failed ec)))) s
      | _ \<Rightarrow> tx_throw Retry_operation s)"

definition atr_rollback_complete :: "attempt_env \<Rightarrow> unit attempt_code" where
  "atr_rollback_complete env =
     tx_catch
       (tx_then (tx_bind (error_if_expired_and_not_in_overtime env) throw_if)
       (tx_then (tx_bind (wait_for_hook env) throw_if)
       (tx_bind atr_id_value (\<lambda>i.
        tx_bind (execute_mutate_in env (atr_remove_request env i)) (\<lambda>resp.
        tx_bind (wrap_operation_future True (create_from_subdoc_response resp)) (\<lambda>_.
        tx_then (tx_modify (\<lambda>s. s\<lparr> at_state := state_ROLLED_BACK \<rparr>))
        (tx_then (tx_bind (wait_for_hook env) throw_if)
        (tx_modify (\<lambda>s. s\<lparr> at_done := True \<rparr>)))))))))
       (\<lambda>e. case e of Client_error ec \<Rightarrow> atr_rollback_complete_error ec | _ \<Rightarrow> tx_throw e)"

definition rollback_with_query :: "attempt_env \<Rightarrow> unit attempt_code" where
  "rollback_with_query env s =
     (let s' = s\<lparr> at_clock := at_clock s + 1, at_done := True \<rparr>
      in case ae_query env (at_clock s) of
           Some (Query_op_failed f) \<Rightarrow> Some (Inl (Op_failed f), s')
         | None \<Rightarrow> Some (Inr (), s'\<lparr> at_state := state_ROLLED_BACK \<rparr>)
         | Some Query_attempt_not_found \<Rightarrow> Some (Inr (), s'\<lparr> at_state := state_ROLLED_BACK \<rparr>)
         | Some _ \<Rightarrow> Some (Inl (Op_failed (no_rollback (op_failed FAIL_OTHER))), s'))"

definition rollback_kv :: "attempt_env \<Rightarrow> unit attempt_code" where
  "rollback_kv env =
     tx_then (check_expiry_during_commit_or_rollback env)
       (\<lambda>s.
         if \<not> has_atr s \<or> at_state s = state_NOT_STARTED then Some (Inr (), s\<lparr> at_done := True \<rparr>)
         else if at_done s then Some (Inl (Op_failed (no_rollback (op_failed FAIL_OTHER))), s)
         else tx_catch
           (tx_then (retry_op_exp (atr_abort env))
           (tx_then (unstage_phase env False)
           (retry_op_exp (atr_rollback_complete env))))
           (\<lambda>e. case e of
              Client_error FAIL_HARD \<Rightarrow> tx_throw (Op_failed (no_rollback (op_failed FAIL_HARD)))
            | Client_error _ \<Rightarrow> tx_return ()
            | _ \<Rightarrow> tx_throw e) s)"

definition rollback :: "attempt_env \<Rightarrow> unit attempt_code" where
  "rollback env s = (if at_query_mode s then rollback_with_query env s else rollback_kv env s)"

definition rollback_cb :: "attempt_env \<Rightarrow> unit attempt_code" where
  "rollback_cb env =
     tx_catch (rollback env)
       (\<lambda>e. case e of Op_failed f \<Rightarrow> tx_throw e
          | _ \<Rightarrow> tx_throw (Op_failed (no_rollback (op_failed FAIL_OTHER))))"

subsection \<open>Rules for the control structures\<close>

lemma tx_bind_SomeE:
  assumes "tx_bind m f s = Some (r, s')"
  obtains e where "m s = Some (Inl e, s')" "r = Inl e"
    | x t where "m s = Some (Inr x, t)" "f x t = Some (r, s')"
  using assms by (auto simp: tx_bind_def split: option.splits prod.splits sum.splits)

lemma tx_then_SomeE:
  assumes "tx_then m k s = Some (r, s')"
  obtains e where "m s = Some (Inl e, s')" "r = Inl e"
    | t where "m s = Some (Inr (), t)" "k t = Some (r, s')"
  using assms by (auto simp: tx_then_def elim: tx_bind_SomeE)

lemma tx_catch_SomeE:
  assumes "tx_catch m h s = Some (r, s')"
  obtains e t where "m s = Some (Inl e, t)" "h e t = Some (r, s')"
    | x where "m s = Some (Inr x, s')" "r = Inr x"
  using assms by (auto simp: tx_catch_def split: option.splits prod.splits sum.splits)

text \<open>An invariant of the body of a retry loop that also describes its last round.\<close>

lemma retry_op_inv:
  assumes "retry_op f s = Some (r, s')" and "I s"
    and step: "\<And>t t'. I t \<Longrightarrow> f t = Some (Inl Retry_operation, t') \<Longrightarrow> I t'"
    and last: "\<And>t r t'. I t \<Longrightarrow> f t = Some (r, t') \<Longrightarrow> r \<noteq> Inl Retry_operation \<Longrightarrow> Q r t'"
  shows "Q r s' \<and> r \<noteq> Inl Retry_operation"
proof -
  let ?P = "\<lambda>f s y. I s \<longrightarrow> (\<forall>t t'. I t \<longrightarrow> f t = Some (Inl Retry_operation, t') \<longrightarrow> I t')
      \<longrightarrow> (\<forall>t r t'. I t \<longrightarrow> f t = Some (r, t') \<longrightarrow> r \<noteq> Inl Retry_operation \<longrightarrow> Q r t')
      \<longrightarrow> Q (fst y) (snd y) \<and> fst y \<noteq> Inl Retry_operation"
  have "?P f s (r, s')"
  proof (rule retry_op.raw_induct [where P = ?P])
    fix rop f s y
    assume IH: "\<And>f s y. rop f s = Some y \<Longrightarrow> ?P f s y"
    assume "Option.bind (f s) (\<lambda>r. if fst r = Inl Retry_operation then rop f (snd r) else Some r) = Some y"
    then obtain r1 s1 where f: "f s = Some (r1, s1)"
      and y: "(if r1 = Inl Retry_operation then rop f s1 else Some (r1, s1)) = Some y"
      unfolding bind_eq_Some_conv by (metis prod.collapse)
    show "?P f s y" using IH [of f s1 y] f y by (auto split: if_splits)
  qed (rule assms(1))
  then show ?thesis using assms(2-) by simp
qed

lemma retry_backoff_inv:
  assumes "retry_op_exponential_backoff n f s = Some (r, s')" and "I s"
    and "\<And>t t'. I t \<Longrightarrow> f t = Some (Inl Retry_operation, t') \<Longrightarrow> I t'"
    and "\<And>t r t'. I t \<Longrightarrow> f t = Some (r, t') \<Longrightarrow> r \<noteq> Inl Retry_operation \<Longrightarrow> Q r t'"
  shows "(r = Inl Retry_operation_retries_exhausted \<and> I s') \<or> Q r s'"
  using assms
proof (induction n arbitrary: s)
  case (Suc n)
  obtain r1 s1 where f: "f s = Some (r1, s1)" using Suc.prems(1) by (auto split: option.splits)
  show ?case
  proof (cases "r1 = Inl Retry_operation")
    case True
    then have "retry_op_exponential_backoff n f s1 = Some (r, s')" using Suc.prems(1) f by simp
    then show ?thesis using Suc.IH [of s1] Suc.prems(2-) f True by blast
  next
    case False
    then show ?thesis using Suc.prems(1,2,4) f by auto
  qed
qed simp

subsection \<open>What the steps of the commit do\<close>

text \<open>
  The status a reading of the record found: nothing when the reading failed, otherwise the string in
  the first field or that it cannot be decoded.
\<close>

definition read_status :: "attempt_env \<Rightarrow> lookup_in_response \<Rightarrow> string option option" where
  "read_status env resp =
     (case validate_operation_result True (create_from_lookup_response resp) of
        Some (Inr res) \<Rightarrow>
          (case li_fields resp of [] \<Rightarrow> None | f # _ \<Rightarrow> Some (ae_json_string env (sf_value f)))
      | _ \<Rightarrow> None)"

text \<open>The record is known to be COMMITTED: the server acknowledged it, or it was read.\<close>

primrec atr_evidence :: "attempt_env \<Rightarrow> attempt_event \<Rightarrow> bool" where
  "atr_evidence env (Atr_mutated req resp) \<longleftrightarrow> (\<exists>i q. req = atr_commit_request env i q)
     \<and> (\<exists>res. validate_operation_result False (create_from_subdoc_response resp) = Some (Inr res))"
| "atr_evidence env (Atr_read path resp) \<longleftrightarrow> path = atr_field env ''st''
     \<and> read_status env resp = Some (Some ''COMMITTED'')"
| "atr_evidence env (Unstaged committing evs) \<longleftrightarrow> False"
| "atr_evidence env (Doc_mutated dreq resp) \<longleftrightarrow> False"
| "atr_evidence env (Doc_read i lresp) \<longleftrightarrow> False"

text \<open>The requests of the first phase: no document is touched and the record is not aborted.\<close>

primrec commit_event :: "attempt_env \<Rightarrow> attempt_event \<Rightarrow> bool" where
  "commit_event env (Atr_mutated req resp) \<longleftrightarrow> (\<exists>i q. req = atr_commit_request env i q)"
| "commit_event env (Atr_read path resp) \<longleftrightarrow> True"
| "commit_event env (Unstaged committing evs) \<longleftrightarrow> False"
| "commit_event env (Doc_mutated dreq resp) \<longleftrightarrow> False"
| "commit_event env (Doc_read i lresp) \<longleftrightarrow> False"

text \<open>A step of the first phase: what it keeps and the events it adds.\<close>

definition phase_one :: "attempt_env \<Rightarrow> attempt \<Rightarrow> attempt_event list \<Rightarrow> attempt \<Rightarrow> bool" where
  "phase_one env s l s' \<longleftrightarrow> at_log s' = at_log s @ l \<and> list_all (commit_event env) l
     \<and> at_queue s' = at_queue s \<and> at_atr_id s' = at_atr_id s \<and> at_done s' = at_done s
     \<and> at_errors s' = at_errors s \<and> at_query_mode s' = at_query_mode s \<and> at_clock s \<le> at_clock s'
     \<and> (at_overtime s \<longrightarrow> at_overtime s')"

lemma phase_one_refl [simp]: "phase_one env s [] s"
  by (simp add: phase_one_def)

lemma phase_one_trans: "phase_one env s l t \<Longrightarrow> phase_one env t l' u \<Longrightarrow> phase_one env s (l @ l') u"
  by (auto simp: phase_one_def)

lemmas expiry_defs = has_expired_client_side_def check_expiry_pre_commit_def
  error_if_expired_and_not_in_overtime_def check_expiry_during_commit_or_rollback_def

lemmas request_defs = wait_for_hook_def throw_if_def wrap_operation_future_def
  execute_mutate_in_def execute_lookup_in_def atr_id_value_def Let_def

text \<open>The check for expiry and the hook before a request.\<close>

definition guard :: "attempt_env \<Rightarrow> unit attempt_code" where
  "guard env = tx_then (tx_bind (error_if_expired_and_not_in_overtime env) throw_if)
     (tx_bind (wait_for_hook env) throw_if)"

lemma tx_then_assoc: "tx_then (tx_then a b) c = tx_then a (tx_then b c)"
  by (auto simp: tx_then_def tx_bind_def fun_eq_iff split: option.splits prod.splits sum.splits)

lemma guard_fold:
  "tx_then (tx_bind (error_if_expired_and_not_in_overtime env) throw_if)
     (tx_then (tx_bind (wait_for_hook env) throw_if) k) = tx_then (guard env) k"
  by (simp add: guard_def tx_then_assoc)

lemma guard_cases:
  assumes "guard env s = Some (r, s')"
  shows "phase_one env s [] s' \<and> at_overtime s' = at_overtime s \<and> at_state s' = at_state s
    \<and> (r = Inr () \<or> (\<exists>ec. r = Inl (Client_error ec) \<and>
         (ec = FAIL_EXPIRY \<and> \<not> at_overtime s \<or> (\<exists>n. ae_hook env n = Some ec))))
    \<and> (\<not> at_overtime s \<longrightarrow> at_clock s < at_clock s')"
  using assms
  by (auto simp: guard_def expiry_defs request_defs tx_defs phase_one_def
      split: if_splits option.splits)

lemma guard_defined: "guard env s \<noteq> None"
  by (simp add: guard_def expiry_defs request_defs tx_defs split: option.split)

lemma validate_mutate_ambiguous:
  assumes "Option.bind (mi_ec resp) error_class_of_code = Some ec"
  shows "validate_operation_result ign (create_from_subdoc_response resp) = Some (Inl (Client_error ec))"
  using assms
  by (cases "mi_ec resp") (simp_all add: validate_operation_result_def is_success_def
      create_from_subdoc_response_def throw_client_error_def error_class_from_result_def)

text \<open>The answer to a request to commit leaves open whether it was carried out.\<close>

primrec atr_ambiguous :: "attempt_env \<Rightarrow> attempt_event \<Rightarrow> bool" where
  "atr_ambiguous env (Atr_mutated req resp) \<longleftrightarrow> (\<exists>i q. req = atr_commit_request env i q)
     \<and> Option.bind (mi_ec resp) error_class_of_code = Some FAIL_AMBIGUOUS"
| "atr_ambiguous env (Atr_read path resp) \<longleftrightarrow> False"
| "atr_ambiguous env (Unstaged committing evs) \<longleftrightarrow> False"
| "atr_ambiguous env (Doc_mutated dreq resp) \<longleftrightarrow> False"
| "atr_ambiguous env (Doc_read i lresp) \<longleftrightarrow> False"

lemma create_from_subdoc_not_ignored [simp]:
  "res_ignore_subdoc_errors (create_from_subdoc_response resp) = False"
  "res_ignore_subdoc_errors (create_from_lookup_response lresp) = False"
  by (simp_all add: create_from_subdoc_response_def create_from_lookup_response_def)

text \<open>One round of the first phase ends with evidence, or with an error that carries none.\<close>

definition no_hooks :: "attempt_env \<Rightarrow> bool" where
  "no_hooks env \<longleftrightarrow> (\<forall>n. ae_hook env n = None)"

lemma atr_commit_try_cases:
  assumes "atr_commit_try env s = Some (r, s')"
  shows "\<exists>l. phase_one env s l s' \<and> at_overtime s' = at_overtime s \<and>
    (r = Inr () \<and> (\<exists>e \<in> set l. atr_evidence env e) \<and> \<not> (\<exists>e \<in> set l. atr_ambiguous env e)
     \<or> (\<exists>ec. r = Inl (Client_error ec) \<and> ((\<exists>e \<in> set l. atr_ambiguous env e) \<longrightarrow> ec = FAIL_AMBIGUOUS)
          \<and> (no_hooks env \<longrightarrow> \<not> (\<exists>e \<in> set l. atr_evidence env e)))
     \<or> r = Inl Std_exception \<and> at_atr_id s = None \<and> l = [])"
proof (cases "at_atr_id s")
  case None
  then show ?thesis using assms by (auto simp: atr_commit_try_def request_defs tx_defs)
next
  case (Some i)
  let ?req = "atr_commit_request env i (at_queue s)"
  have "tx_then (guard env) (\<lambda>t. tx_bind (execute_mutate_in env (atr_commit_request env i (at_queue t))) (\<lambda>resp.
      tx_bind (wrap_operation_future False (create_from_subdoc_response resp)) (\<lambda>_.
      tx_then (tx_bind (wait_for_hook env) throw_if)
      (tx_modify (\<lambda>s. s\<lparr> at_state := state_COMMITTED \<rparr>)))) t) s = Some (r, s')"
    using assms Some unfolding atr_commit_try_def guard_fold
    by (simp add: tx_bind_def [of atr_id_value] atr_id_value_def)
  then show ?thesis
  proof (cases rule: tx_then_SomeE)
    case (1 e)
    then show ?thesis using guard_cases [OF 1(1)] by auto
  next
    case (2 t)
    note g = guard_cases [OF 2(1)]
    let ?resp = "ae_mutate env (at_clock t)"
    let ?l = "[Atr_mutated ?req ?resp]"
    have q: "at_queue t = at_queue s" using g by (simp add: phase_one_def)
    obtain v where v: "validate_operation_result False (create_from_subdoc_response ?resp) = Some v"
      using validate_operation_result_defined [of "create_from_subdoc_response ?resp" False] by auto
    show ?thesis
    proof (cases v)
      case (Inl e)
      then obtain ec where ec: "e = Client_error ec" using v validate_operation_result_error by blast
      then have "r = Inl (Client_error ec)" "phase_one env t ?l s'" "at_overtime s' = at_overtime t"
        using 2(2) v Inl q by (auto simp: request_defs tx_defs phase_one_def)
      moreover have "ec = FAIL_AMBIGUOUS" if "\<exists>e \<in> set ?l. atr_ambiguous env e"
        using that v Inl ec validate_mutate_ambiguous [of ?resp FAIL_AMBIGUOUS False] by auto
      moreover have "\<not> (\<exists>e \<in> set ?l. atr_evidence env e)" using v Inl by auto
      ultimately show ?thesis using g phase_one_trans [of env s "[]" t ?l s']
        by (intro exI [of _ ?l]) auto
    next
      case (Inr res)
      have amb: "\<not> (\<exists>e \<in> set ?l. atr_ambiguous env e)"
        using v Inr validate_mutate_ambiguous [of ?resp FAIL_AMBIGUOUS False] by auto
      have ev: "\<exists>e \<in> set ?l. atr_evidence env e" using v Inr by auto
      have "phase_one env t ?l s'" "at_overtime s' = at_overtime t"
        "r = Inr () \<or> (\<exists>ec. r = Inl (Client_error ec) \<and> ae_hook env (at_clock t + 1) = Some ec)"
        using 2(2) v Inr q
        by (auto simp: request_defs tx_defs phase_one_def split: option.splits)
      then show ?thesis using g amb ev phase_one_trans [of env s "[]" t ?l s']
        by (intro exI [of _ ?l]) (auto simp: no_hooks_def)
    qed
  qed
qed

text \<open>The record was read as ABORTED, or what was read could not be decoded.\<close>

primrec atr_read_as :: "attempt_env \<Rightarrow> string option \<Rightarrow> attempt_event \<Rightarrow> bool" where
  "atr_read_as env st (Atr_mutated req resp) \<longleftrightarrow> False"
| "atr_read_as env st (Atr_read path resp) \<longleftrightarrow> path = atr_field env ''st'' \<and> read_status env resp = Some st"
| "atr_read_as env st (Unstaged committing evs) \<longleftrightarrow> False"
| "atr_read_as env st (Doc_mutated dreq resp) \<longleftrightarrow> False"
| "atr_read_as env st (Doc_read i lresp) \<longleftrightarrow> False"

lemma ambiguity_resolution_error_cases:
  "ambiguity_resolution_error ec = Retry_operation \<and> (ec = FAIL_TRANSIENT \<or> ec = FAIL_OTHER)
   \<or> (\<exists>f. ambiguity_resolution_error ec = Op_failed f \<and> \<not> tof_rollback f \<and> tof_to_raise f \<noteq> FAILED_POST_COMMIT)"
  by (cases ec) (simp_all add: ambiguity_resolution_error_def)

lemma attempt_state_value_iff:
  "attempt_state_value raw = state_COMMITTED \<longleftrightarrow> raw = ''COMMITTED''"
  "attempt_state_value raw = state_ABORTED \<longleftrightarrow> raw = ''ABORTED''"
  by (simp_all add: attempt_state_value_def)

text \<open>The part of the resolution after the guard.\<close>

definition resolution_read :: "attempt_env \<Rightarrow> unit attempt_code" where
  "resolution_read env =
     tx_bind atr_id_value (\<lambda>_.
     tx_bind (execute_lookup_in env (atr_field env ''st'')) (\<lambda>resp.
     tx_bind (wrap_operation_future True (create_from_lookup_response resp)) (\<lambda>res.
     tx_bind (atr_status_of env res) (\<lambda>status.
       case status of
         state_COMMITTED \<Rightarrow> tx_return ()
       | state_ABORTED \<Rightarrow> tx_throw (Op_failed (with_retry (op_failed FAIL_OTHER)))
       | _ \<Rightarrow> tx_throw (Op_failed (no_rollback
               (with_cause ILLEGAL_STATE_EXCEPTION (op_failed FAIL_OTHER))))))))"

lemma resolution_fold:
  "atr_commit_ambiguity_resolution env = tx_catch (tx_then (guard env) (resolution_read env))
     (\<lambda>e. case e of Client_error ec \<Rightarrow> tx_throw (ambiguity_resolution_error ec) | _ \<Rightarrow> tx_throw e)"
  unfolding atr_commit_ambiguity_resolution_def resolution_read_def guard_fold ..

lemma resolution_read_cases:
  assumes "resolution_read env s = Some (r, s')"
  shows "\<exists>l. phase_one env s l s' \<and> at_overtime s' = at_overtime s
    \<and> \<not> (\<exists>e \<in> set l. atr_ambiguous env e) \<and>
    (r = Inr () \<and> (\<exists>e \<in> set l. atr_evidence env e)
     \<or> \<not> (\<exists>e \<in> set l. atr_evidence env e) \<and>
       ((\<exists>ec. r = Inl (Client_error ec))
        \<or> (\<exists>f. r = Inl (Op_failed f) \<and> tof_to_raise f \<noteq> FAILED_POST_COMMIT \<and> (tof_rollback f \<longrightarrow> (\<exists>e \<in> set l. atr_read_as env (Some ''ABORTED'') e)))
        \<or> r = Inl Std_exception \<and> (at_atr_id s = None \<or> (\<exists>e \<in> set l. atr_read_as env None e))))"
proof (cases "at_atr_id s")
  case None
  then show ?thesis using assms
    by (intro exI [of _ "[]"]) (auto simp: resolution_read_def request_defs tx_defs)
next
  case (Some i)
  let ?resp = "ae_lookup env (at_clock s)"
  let ?l = "[Atr_read (atr_field env ''st'') ?resp]"
  let ?t = "s\<lparr> at_clock := at_clock s + 1, at_log := at_log s @ ?l \<rparr>"
  have one: "phase_one env s ?l ?t" by (simp add: phase_one_def)
  obtain v where v: "validate_operation_result True (create_from_lookup_response ?resp) = Some v"
    using validate_operation_result_defined [of "create_from_lookup_response ?resp" True] by auto
  show ?thesis
  proof (cases v)
    case (Inl e)
    then obtain ec where "e = Client_error ec" using v validate_operation_result_error by blast
    then have "r = Inl (Client_error ec)" "s' = ?t" "read_status env ?resp = None"
      using assms Some v Inl by (auto simp: resolution_read_def request_defs tx_defs read_status_def)
    then show ?thesis using one by (intro exI [of _ ?l]) auto
  next
    case (Inr res)
    then have res: "res = create_from_lookup_response ?resp"
      using v by (simp add: validate_success_iff)
    then have "li_fields ?resp \<noteq> []" using assms Some v Inr
      by (auto simp: resolution_read_def request_defs tx_defs atr_status_of_def
          create_from_lookup_response_def)
    then obtain f fs where f: "li_fields ?resp = f # fs" by (cases "li_fields ?resp") auto
    then have rs: "read_status env ?resp = Some (ae_json_string env (sf_value f))"
      using v Inr by (simp add: read_status_def)
    show ?thesis
    proof (cases "ae_json_string env (sf_value f)")
      case None
      then have "r = Inl Std_exception" "s' = ?t"
        using assms Some v Inr f res
        by (auto simp: resolution_read_def request_defs tx_defs atr_status_of_def
            create_from_lookup_response_def)
      then show ?thesis using one rs None by (intro exI [of _ ?l]) auto
    next
      case raw: (Some raw)
      then have "s' = ?t" "r = (case attempt_state_value raw of
          state_COMMITTED \<Rightarrow> Inr ()
        | state_ABORTED \<Rightarrow> Inl (Op_failed (with_retry (op_failed FAIL_OTHER)))
        | _ \<Rightarrow> Inl (Op_failed (no_rollback (with_cause ILLEGAL_STATE_EXCEPTION (op_failed FAIL_OTHER)))))"
        using assms Some v Inr f res
        by (cases "attempt_state_value raw"; auto simp: resolution_read_def request_defs tx_defs
            atr_status_of_def create_from_lookup_response_def)+
      then show ?thesis using one rs raw
        by (intro exI [of _ ?l], cases "attempt_state_value raw")
          (auto simp: attempt_state_value_iff [symmetric])
    qed
  qed
qed

lemma resolution_cases:
  assumes "atr_commit_ambiguity_resolution env s = Some (r, s')"
  shows "\<exists>l. phase_one env s l s' \<and> at_overtime s' = at_overtime s
    \<and> \<not> (\<exists>e \<in> set l. atr_ambiguous env e) \<and>
    (r = Inr () \<and> (\<exists>e \<in> set l. atr_evidence env e)
     \<or> \<not> (\<exists>e \<in> set l. atr_evidence env e) \<and>
       (r = Inl Retry_operation
        \<or> (\<exists>f. r = Inl (Op_failed f) \<and> tof_to_raise f \<noteq> FAILED_POST_COMMIT \<and> (tof_rollback f \<longrightarrow> (\<exists>e \<in> set l. atr_read_as env (Some ''ABORTED'') e)))
        \<or> r = Inl Std_exception \<and> (at_atr_id s = None \<or> (\<exists>e \<in> set l. atr_read_as env None e))))"
proof -
  from assms [unfolded resolution_fold] show ?thesis
  proof (cases rule: tx_catch_SomeE)
    case (1 e t)
    from 1(1) show ?thesis
    proof (cases rule: tx_then_SomeE)
      case g: (1 e')
      then obtain ec where ec: "e = Client_error ec" using guard_cases [OF g(1)] by auto
      then have "s' = t" "r = Inl (ambiguity_resolution_error ec)" using 1(2) by (auto simp: tx_defs)
      then show ?thesis using guard_cases [OF g(1)] ambiguity_resolution_error_cases [of ec]
        by (intro exI [of _ "[]"]) auto
    next
      case g: (2 u)
      obtain l where l: "phase_one env u l t" "at_overtime t = at_overtime u"
        "\<not> (\<exists>e \<in> set l. atr_ambiguous env e)" "\<not> (\<exists>e \<in> set l. atr_evidence env e)" and
        e: "(\<exists>ec. e = Client_error ec)
        \<or> (\<exists>f. e = Op_failed f \<and> tof_to_raise f \<noteq> FAILED_POST_COMMIT \<and> (tof_rollback f \<longrightarrow> (\<exists>e \<in> set l. atr_read_as env (Some ''ABORTED'') e)))
        \<or> e = Std_exception \<and> (at_atr_id u = None \<or> (\<exists>e \<in> set l. atr_read_as env None e))"
        using resolution_read_cases [OF g(2)] by auto
      have st: "s' = t" "r = Inl (case e of Client_error ec \<Rightarrow> ambiguity_resolution_error ec | _ \<Rightarrow> e)"
        using 1(2) e by (auto simp: tx_defs)
      have "phase_one env s l s'" "at_overtime s' = at_overtime s" "at_atr_id u = at_atr_id s"
        using guard_cases [OF g(1)] l phase_one_trans [of env s "[]" u l t] st
        by (auto simp: phase_one_def)
      moreover have "r = Inl Retry_operation
          \<or> (\<exists>f. r = Inl (Op_failed f) \<and> tof_to_raise f \<noteq> FAILED_POST_COMMIT \<and> (tof_rollback f \<longrightarrow> (\<exists>e \<in> set l. atr_read_as env (Some ''ABORTED'') e)))
          \<or> r = Inl Std_exception \<and> (at_atr_id u = None \<or> (\<exists>e \<in> set l. atr_read_as env None e))"
        using e
      proof (elim disjE exE conjE)
        fix ec
        assume "e = Client_error ec"
        then show ?thesis using st(2) ambiguity_resolution_error_cases [of ec] by auto
      qed (use st(2) in auto)
      ultimately show ?thesis using l(3,4) by (intro exI [of _ l]) simp
    qed
  next
    case (2 x)
    from 2(1) show ?thesis
    proof (cases rule: tx_then_SomeE)
      case (2 u)
      then show ?thesis using \<open>r = Inr x\<close> guard_cases [OF 2(1)] resolution_read_cases [OF 2(2)]
        phase_one_trans [of env s "[]" u _ s'] by fastforce
    qed simp
  qed
qed

text \<open>
  How a part of the first phase may end: with evidence; or without evidence, in an error that is
  not one after the commit and allows a rollback after an ambiguous answer only if the record was read as ABORTED, or in the exception of a
  status that cannot be decoded.
\<close>

definition failed_well :: "attempt_env \<Rightarrow> bool \<Rightarrow> bool \<Rightarrow> attempt_event list \<Rightarrow> txn_exception \<Rightarrow> bool" where
  "failed_well env has_id amb l e \<longleftrightarrow>
     (\<exists>f. e = Op_failed f \<and> tof_to_raise f \<noteq> FAILED_POST_COMMIT
        \<and> (amb \<and> tof_rollback f \<longrightarrow> (\<exists>x \<in> set l. atr_read_as env (Some ''ABORTED'') x)))
     \<or> e = Std_exception \<and> (\<not> has_id \<or> (\<exists>x \<in> set l. atr_read_as env None x))"

lemma failed_well_mono:
  "failed_well env has_id amb l e \<Longrightarrow> set l \<subseteq> set l' \<Longrightarrow> failed_well env has_id amb l' e"
  unfolding failed_well_def by blast

abbreviation has_evidence :: "attempt_env \<Rightarrow> attempt_event list \<Rightarrow> bool" where
  "has_evidence env l \<equiv> \<exists>e \<in> set l. atr_evidence env e"

abbreviation has_ambiguous :: "attempt_env \<Rightarrow> attempt_event list \<Rightarrow> bool" where
  "has_ambiguous env l \<equiv> \<exists>e \<in> set l. atr_ambiguous env e"

lemma resolution_loop:
  assumes "retry_op (atr_commit_ambiguity_resolution env) s = Some (r, s')"
  shows "\<exists>l. phase_one env s l s' \<and> \<not> has_ambiguous env l \<and>
    (r = Inr () \<and> has_evidence env l
     \<or> \<not> has_evidence env l \<and> (\<exists>e. r = Inl e \<and> failed_well env (at_atr_id s \<noteq> None) True l e))"
proof -
  let ?I = "\<lambda>t. \<exists>l. phase_one env s l t \<and> \<not> has_ambiguous env l \<and> \<not> has_evidence env l"
  let ?Q = "\<lambda>r t. \<exists>l. phase_one env s l t \<and> \<not> has_ambiguous env l \<and>
    (r = Inr () \<and> has_evidence env l
     \<or> \<not> has_evidence env l \<and> (\<exists>e. r = Inl e \<and> failed_well env (at_atr_id s \<noteq> None) True l e))"
  have step: "\<exists>l'. phase_one env s (l @ l') t' \<and> \<not> has_ambiguous env (l @ l')
      \<and> (r = Inr () \<and> has_evidence env (l @ l') \<or> \<not> has_evidence env (l @ l')
          \<and> (r = Inl Retry_operation
             \<or> (\<exists>e. r = Inl e \<and> failed_well env (at_atr_id s \<noteq> None) True (l @ l') e)))"
    if l: "phase_one env s l t" "\<not> has_ambiguous env l" "\<not> has_evidence env l"
      and run: "atr_commit_ambiguity_resolution env t = Some (r, t')" for l t r t'
  proof -
    obtain l' where l': "phase_one env t l' t'" "\<not> has_ambiguous env l'" and
      r: "r = Inr () \<and> has_evidence env l' \<or> \<not> has_evidence env l' \<and>
       (r = Inl Retry_operation \<or> (\<exists>e. r = Inl e \<and> failed_well env (at_atr_id t \<noteq> None) True l' e))"
      using resolution_cases [OF run] unfolding failed_well_def by blast
    have "at_atr_id t = at_atr_id s" using l(1) by (simp add: phase_one_def)
    then show ?thesis using l l' r phase_one_trans [OF l(1) l'(1)]
      failed_well_mono [of env _ True l' _ "l @ l'"]
      by (intro exI [of _ l']) (auto 4 4)
  qed
  have "?Q r s' \<and> r \<noteq> Inl Retry_operation"
  proof (rule retry_op_inv [OF assms, of ?I ?Q])
    show "?I s" by (rule exI [of _ "[]"]) simp
    show "?I t'" if "?I t" "atr_commit_ambiguity_resolution env t = Some (Inl Retry_operation, t')"
      for t t'
    proof -
      from that(1) obtain l where "phase_one env s l t" "\<not> has_ambiguous env l" "\<not> has_evidence env l"
        by blast
      from step [OF this that(2)] show ?thesis by blast
    qed
    show "?Q r t'" if "?I t" "atr_commit_ambiguity_resolution env t = Some (r, t')"
      "r \<noteq> Inl Retry_operation" for t r t'
    proof -
      from that(1) obtain l where "phase_one env s l t" "\<not> has_ambiguous env l" "\<not> has_evidence env l"
        by blast
      from step [OF this that(2)] that(3) show ?thesis by blast
    qed
  qed
  then show ?thesis by blast
qed

lemma atr_commit_error_cases:
  assumes run: "atr_commit_error env amb ec s = Some (r, amb', s')"
  shows "\<exists>l. phase_one env s l s' \<and> \<not> has_ambiguous env l \<and> (amb \<longrightarrow> amb') \<and> (ec = FAIL_AMBIGUOUS \<longrightarrow> amb') \<and>
    (r = Inr () \<and> has_evidence env l
     \<or> \<not> has_evidence env l \<and> (r = Inl Retry_operation
         \<or> (\<exists>e. r = Inl e \<and> failed_well env (at_atr_id s \<noteq> None) amb' l e)))"
proof (cases "ec = FAIL_PATH_ALREADY_EXISTS")
  case True
  then obtain "retry_op (atr_commit_ambiguity_resolution env) s = Some (r, s')" "amb' = amb"
    using run by (auto simp: atr_commit_error_def)
  from resolution_loop [OF this(1)] obtain l where l: "phase_one env s l s'" "\<not> has_ambiguous env l"
    "r = Inr () \<and> has_evidence env l \<or> \<not> has_evidence env l
      \<and> (\<exists>e. r = Inl e \<and> failed_well env (at_atr_id s \<noteq> None) True l e)" by blast
  then show ?thesis using True \<open>amb' = amb\<close>
    by (intro exI [of _ l]) (auto simp: failed_well_def)
next
  case False
  then have "phase_one env s [] s'" "amb \<longrightarrow> amb'" "ec = FAIL_AMBIGUOUS \<longrightarrow> amb'"
    "r = Inl Retry_operation \<or> (\<exists>f. r = Inl (Op_failed f) \<and> tof_to_raise f \<noteq> FAILED_POST_COMMIT
        \<and> (amb' \<longrightarrow> \<not> tof_rollback f))"
    using run by (cases ec; auto simp: atr_commit_error_def Let_def if_ambiguous_def phase_one_def
        split: if_splits)+
  then show ?thesis by (intro exI [of _ "[]"]) (auto simp: failed_well_def)
qed

lemma atr_commit_round_cases:
  assumes "atr_commit_round env (amb, s) = Some (r, amb', s')"
  shows "\<exists>l. phase_one env s l s' \<and> (amb \<longrightarrow> amb') \<and> (has_ambiguous env l \<longrightarrow> amb') \<and>
    (r = Inr () \<and> has_evidence env l
     \<or> (no_hooks env \<longrightarrow> \<not> has_evidence env l) \<and> (r = Inl Retry_operation
         \<or> (\<exists>e. r = Inl e \<and> failed_well env (at_atr_id s \<noteq> None) amb' l e)))"
proof -
  obtain r1 s1 where once: "atr_commit_try env s = Some (r1, s1)"
    using assms by (auto simp: atr_commit_round_def split: option.splits)
  obtain l where l: "phase_one env s l s1" and
    r1: "r1 = Inr () \<and> has_evidence env l \<and> \<not> has_ambiguous env l
     \<or> (\<exists>ec. r1 = Inl (Client_error ec) \<and> (has_ambiguous env l \<longrightarrow> ec = FAIL_AMBIGUOUS)
          \<and> (no_hooks env \<longrightarrow> \<not> has_evidence env l))
     \<or> r1 = Inl Std_exception \<and> at_atr_id s = None \<and> l = []"
    using atr_commit_try_cases [OF once] by blast
  from r1 show ?thesis
  proof (elim disjE exE conjE)
    fix ec
    assume r1: "r1 = Inl (Client_error ec)" and amb: "has_ambiguous env l \<longrightarrow> ec = FAIL_AMBIGUOUS"
      and ev: "no_hooks env \<longrightarrow> \<not> has_evidence env l"
    have "atr_commit_error env amb ec s1 = Some (r, amb', s')"
      using assms once r1 by (simp add: atr_commit_round_def)
    from atr_commit_error_cases [OF this] obtain l' where l': "phase_one env s1 l' s'"
      "\<not> has_ambiguous env l'" "amb \<longrightarrow> amb'" "ec = FAIL_AMBIGUOUS \<longrightarrow> amb'" and
      r: "r = Inr () \<and> has_evidence env l'
       \<or> \<not> has_evidence env l' \<and> (r = Inl Retry_operation
         \<or> (\<exists>e. r = Inl e \<and> failed_well env (at_atr_id s1 \<noteq> None) amb' l' e))" by blast
    have "at_atr_id s1 = at_atr_id s" using l by (simp add: phase_one_def)
    then show ?thesis using phase_one_trans [OF l l'(1)] l' r amb ev
      failed_well_mono [of env _ amb' l' _ "l @ l'"]
      by (intro exI [of _ "l @ l'"]) (auto 4 4)
  next
    assume "r1 = Inr ()" "has_evidence env l" "\<not> has_ambiguous env l"
    then show ?thesis using l assms once by (intro exI [of _ l]) (auto simp: atr_commit_round_def)
  next
    assume "r1 = Inl Std_exception" "at_atr_id s = None" "l = []"
    then show ?thesis using l assms once
      by (intro exI [of _ "[]"]) (auto simp: atr_commit_round_def failed_well_def)
  qed
qed

lemma atr_commit_cases:
  assumes "atr_commit env amb s = Some (r, s')"
  shows "\<exists>l. phase_one env s l s' \<and>
    (r = Inr () \<and> has_evidence env l
     \<or> (no_hooks env \<longrightarrow> \<not> has_evidence env l)
       \<and> (\<exists>e. r = Inl e \<and> failed_well env (at_atr_id s \<noteq> None) (amb \<or> has_ambiguous env l) l e))"
proof -
  obtain amb' where run: "retry_op (atr_commit_round env) (amb, s) = Some (r, amb', s')"
    using assms by (auto simp: atr_commit_def)
  let ?I = "\<lambda>(b, t). \<exists>l. phase_one env s l t \<and> (amb \<or> has_ambiguous env l \<longrightarrow> b)
    \<and> (no_hooks env \<longrightarrow> \<not> has_evidence env l)"
  let ?Q = "\<lambda>r (b, t). \<exists>l. phase_one env s l t \<and> (amb \<or> has_ambiguous env l \<longrightarrow> b) \<and>
    (r = Inr () \<and> has_evidence env l
     \<or> (no_hooks env \<longrightarrow> \<not> has_evidence env l)
       \<and> (r = Inl Retry_operation \<or> (\<exists>e. r = Inl e \<and> failed_well env (at_atr_id s \<noteq> None) b l e)))"
  have step: "?Q r2 (b', t')"
    if I: "?I (b, t)" and once: "atr_commit_round env (b, t) = Some (r2, b', t')" for b t r2 b' t'
  proof -
    obtain l where l: "phase_one env s l t" "amb \<or> has_ambiguous env l \<longrightarrow> b"
      "no_hooks env \<longrightarrow> \<not> has_evidence env l" using I by auto
    obtain l' where l': "phase_one env t l' t'" "b \<longrightarrow> b'" "has_ambiguous env l' \<longrightarrow> b'" and
      r2: "r2 = Inr () \<and> has_evidence env l'
       \<or> (no_hooks env \<longrightarrow> \<not> has_evidence env l') \<and> (r2 = Inl Retry_operation
         \<or> (\<exists>e. r2 = Inl e \<and> failed_well env (at_atr_id t \<noteq> None) b' l' e))"
      using atr_commit_round_cases [OF once] by blast
    have "at_atr_id t = at_atr_id s" using l(1) by (simp add: phase_one_def)
    then show ?thesis using phase_one_trans [OF l(1) l'(1)] l(2,3) l'(2,3) r2
      failed_well_mono [of env _ b' l' _ "l @ l'"]
      by (simp, intro exI [of _ "l @ l'"]) (auto 4 4)
  qed
  have "?Q r (amb', s') \<and> r \<noteq> Inl Retry_operation"
  proof (rule retry_op_inv [OF run, of ?I ?Q])
    show "?I (amb, s)" by (simp, rule exI [of _ "[]"]) simp
    show "?I x'" if "?I x" "atr_commit_round env x = Some (Inl Retry_operation, x')" for x x'
      using that step [of "fst x" "snd x" "Inl Retry_operation" "fst x'" "snd x'"]
      by (auto split: prod.splits)
    show "?Q r2 x'" if "?I x" "atr_commit_round env x = Some (r2, x')" "r2 \<noteq> Inl Retry_operation" for x r2 x'
      using that(1,2) step [of "fst x" "snd x" r2 "fst x'" "snd x'"] by (auto split: prod.splits)
  qed
  then show ?thesis unfolding failed_well_def by simp blast
qed

lemma retry_op_exp_no_retry:
  assumes "\<And>s'. f s \<noteq> Some (Inl Retry_operation, s')"
  shows "retry_op_exp f s = f s"
proof -
  have "fst r \<noteq> Inl Retry_operation" if "f s = Some r" for r using that assms by (cases r) auto
  then show ?thesis
    by (auto simp: retry_op_exp_def numeral_eq_Suc split: option.split)
qed

lemma atr_commit_exp [simp]: "retry_op_exp (atr_commit env amb) s = atr_commit env amb s"
proof (rule retry_op_exp_no_retry)
  fix s'
  show "atr_commit env amb s \<noteq> Some (Inl Retry_operation, s')"
    using atr_commit_cases [of env amb s "Inl Retry_operation" s'] by (auto simp: failed_well_def)
qed

text \<open>No timer of the unstaging is cancelled.\<close>

definition no_cancels :: "attempt_env \<Rightarrow> bool" where
  "no_cancels env \<longleftrightarrow> (\<forall>n i. Timer i True \<notin> set (ae_unstage env n))"

lemma unstage_phase_cases:
  assumes "unstage_phase env committing s = Some (r, s')"
  shows "\<exists>evs. at_log s' = at_log s @ [Unstaged committing evs] \<and> at_atr_id s' = at_atr_id s
    \<and> at_state s' = at_state s \<and> at_done s' = at_done s \<and> at_errors s' = at_errors s
    \<and> at_query_mode s' = at_query_mode s
    \<and> (r = Inr () \<or> (\<exists>e. r = Inl e \<and> (no_cancels env \<longrightarrow> post_error committing e)))
    \<and> (r = Inr () \<longrightarrow> committing \<longrightarrow> (\<forall>i < length (at_queue s). acknowledged i evs))"
proof -
  let ?ls = "ae_unstage env (at_clock s)"
  let ?u0 = "new_unstage_state (at_queue s) (at_overtime s)"
  obtain u where u: "unstage_run committing (ae_level env) ?ls ?u0 = Some u" "unstage_done u"
    "r = (case unstage_outcome committing u of None \<Rightarrow> Inr () | Some e \<Rightarrow> Inl e)"
    "s' = s\<lparr> at_clock := at_clock s + 1, at_queue := us_items u, at_overtime := us_overtime u,
       at_log := at_log s @ [Unstaged committing (us_log u)] \<rparr>"
    using assms by (auto simp: unstage_phase_def split: option.splits if_splits)
  have reach: "unstage_inv committing (ae_level env) c (at_queue s) u"
    if "c \<or> (\<forall>i. Timer i True \<notin> set ?ls)" for c
    using unstage_run_reachable [OF u(1) that, of "at_queue s" "at_overtime s"]
    by (auto intro: reach_init unstage.inv_reachable)
  have "post_error committing e" if "unstage_outcome committing u = Some e" "no_cancels env" for e
    using outcome_post_error [OF reach that(1)] that(2) by (simp add: no_cancels_def)
  moreover have "acknowledged i (us_log u)"
    if "unstage_outcome committing u = None" committing "i < length (at_queue s)" for i
    using outcome_acknowledged [of "ae_level env" True "at_queue s" u i] reach [of True] u(2) that
    by simp
  ultimately show ?thesis using u(3,4) by (auto split: option.splits)
qed

text \<open>The last phase touches only the entry of the attempt.\<close>

primrec is_atr_event :: "attempt_event \<Rightarrow> bool" where
  "is_atr_event (Atr_mutated req resp) \<longleftrightarrow> True"
| "is_atr_event (Atr_read path resp) \<longleftrightarrow> True"
| "is_atr_event (Unstaged committing evs) \<longleftrightarrow> False"
| "is_atr_event (Doc_mutated dreq resp) \<longleftrightarrow> False"
| "is_atr_event (Doc_read i lresp) \<longleftrightarrow> False"

lemma commit_event_atr: "list_all (commit_event env) l \<Longrightarrow> list_all is_atr_event l"
proof (induction l)
  case (Cons e l)
  then show ?case by (cases e) auto
qed simp

lemma post_error_post_commit [simp]:
  "post_error True (Op_failed (failed_post_commit (no_rollback (op_failed ec))))"
  by (simp add: post_error_def)

lemma atr_complete_cases:
  assumes "atr_complete env s = Some (r, s')"
  shows "\<exists>l. at_log s' = at_log s @ l \<and> list_all is_atr_event l \<and>
    (r = Inr () \<or> (\<exists>e. r = Inl e \<and> (at_atr_id s = None \<or> post_error True e)))"
proof -
  let ?R = "\<lambda>t. \<exists>l. at_log t = at_log s @ l \<and> list_all is_atr_event l"
  have body: "?R t \<and> (x = Inr () \<or> (\<exists>ec. x = Inl (Client_error ec)) \<or> x = Inl Std_exception \<and> at_atr_id s = None)"
    if "(tx_then (tx_bind (wait_for_hook env) throw_if)
       (tx_then (tx_bind (error_if_expired_and_not_in_overtime env) throw_if)
       (tx_bind atr_id_value (\<lambda>i.
        tx_bind (execute_mutate_in env (atr_remove_request env i)) (\<lambda>resp.
        tx_bind (wrap_operation_future True (create_from_subdoc_response resp)) (\<lambda>_.
        tx_then (tx_bind (wait_for_hook env) throw_if)
        (tx_modify (\<lambda>s. s\<lparr> at_state := state_COMPLETED \<rparr>)))))))) s = Some (x, t)" for x t
    using that
    by (auto simp: tx_defs expiry_defs request_defs dest!: validate_operation_result_error
        split: option.splits if_splits sum.splits)
  from assms [unfolded atr_complete_def] show ?thesis
  proof (cases rule: tx_catch_SomeE)
    case (1 e t)
    then show ?thesis using body [OF 1(1)]
      by (auto simp: tx_defs split: error_class.splits)
  next
    case (2 x)
    then show ?thesis using body [OF 2(1)] by auto
  qed
qed

text \<open>
  The whole commit in key-value mode: either it stops in the first phase, or it has evidence, then
  unstages, and an exception from then on is one after the commit.
\<close>

definition stopped_early :: "attempt_env \<Rightarrow> attempt_event list \<Rightarrow> txn_exception + unit \<Rightarrow> bool" where
  "stopped_early env l r \<longleftrightarrow> list_all (commit_event env) l \<and> (no_hooks env \<longrightarrow> \<not> has_evidence env l)
     \<and> (r = Inr () \<and> l = [] \<or> (\<exists>e. r = Inl e \<and> failed_well env True (has_ambiguous env l) l e))"

definition went_through ::
  "attempt_env \<Rightarrow> mutation_queue \<Rightarrow> attempt_event list \<Rightarrow> txn_exception + unit \<Rightarrow> bool" where
  "went_through env q l r \<longleftrightarrow> (\<exists>l1 evs l2. l = l1 @ Unstaged True evs # l2
     \<and> list_all (commit_event env) l1 \<and> has_evidence env l1 \<and> list_all is_atr_event l2
     \<and> (r = Inr () \<and> (\<forall>i < length q. acknowledged i evs)
        \<or> (\<exists>e. r = Inl e \<and> (no_cancels env \<longrightarrow> post_error True e))))"

lemma went_throughI:
  "list_all (commit_event env) l1 \<Longrightarrow> has_evidence env l1 \<Longrightarrow> list_all is_atr_event l2 \<Longrightarrow>
   r = Inr () \<and> (\<forall>i < length q. acknowledged i evs)
     \<or> (\<exists>e. r = Inl e \<and> (no_cancels env \<longrightarrow> post_error True e)) \<Longrightarrow>
   went_through env q (l1 @ Unstaged True evs # l2) r"
  unfolding went_through_def by blast

lemma commit_kv_cases:
  assumes "commit_kv env s = Some (r, s')"
  shows "\<exists>l. at_log s' = at_log s @ l \<and> (stopped_early env l r \<and> \<not> (has_atr s \<and> \<not> at_done s \<and> r = Inr ())
    \<or> went_through env (at_queue s) l r)"
proof -
  from assms [unfolded commit_kv_def] obtain b t where pre: "check_expiry_pre_commit env s = Some (Inr b, t)"
    and rest: "(if b then tx_throw (Op_failed (expired (op_failed FAIL_EXPIRY))) else (\<lambda>s.
         if has_atr s \<and> \<not> at_done s
         then tx_then (retry_op_exp (atr_commit env False))
             (tx_then (unstage_phase env True)
             (tx_then (atr_complete env)
             (tx_modify (\<lambda>s. s\<lparr> at_done := True \<rparr>)))) s
         else if \<not> at_done s then Some (Inr (), s\<lparr> at_done := True \<rparr>)
         else Some (Inl (Op_failed (no_rollback (op_failed FAIL_OTHER))), s))) t = Some (r, s')"
    by (auto elim!: tx_bind_SomeE simp: expiry_defs tx_defs split: if_splits)
  have t: "at_log t = at_log s" "at_queue t = at_queue s" "has_atr t = has_atr s" "at_done t = at_done s"
    using pre by (auto simp: expiry_defs tx_defs has_atr_def split: if_splits)
  show ?thesis
  proof (cases "\<not> b \<and> has_atr t \<and> \<not> at_done t")
    case False
    then show ?thesis using rest t
      by (intro exI [of _ "[]"])
        (auto simp: tx_defs stopped_early_def failed_well_def split: if_splits)
  next
    case True
    then have id: "at_atr_id t \<noteq> None" by (auto simp: has_atr_def split: option.splits)
    from True rest have "tx_then (atr_commit env False) (tx_then (unstage_phase env True)
        (tx_then (atr_complete env) (tx_modify (\<lambda>s. s\<lparr> at_done := True \<rparr>)))) t = Some (r, s')"
      by (simp add: tx_then_def tx_bind_def)
    then show ?thesis
    proof (cases rule: tx_then_SomeE)
      case (1 e)
      then show ?thesis using atr_commit_cases [OF 1(1)] t id
        by (auto simp: phase_one_def stopped_early_def)
    next
      case (2 t1)
      obtain l1 where l1: "phase_one env t l1 t1" "has_evidence env l1"
        using atr_commit_cases [OF 2(1)] by auto
      from 2(2) obtain r2 t2 where unst: "unstage_phase env True t1 = Some (r2, t2)"
        by (auto elim: tx_then_SomeE)
      obtain evs where evs: "at_log t2 = at_log t1 @ [Unstaged True evs]" "at_atr_id t2 = at_atr_id t1"
        "r2 = Inr () \<or> (\<exists>e. r2 = Inl e \<and> (no_cancels env \<longrightarrow> post_error True e))"
        "r2 = Inr () \<longrightarrow> (\<forall>i < length (at_queue t1). acknowledged i evs)"
        using unstage_phase_cases [OF unst] by blast
      have one: "at_log t1 = at_log s @ l1" "list_all (commit_event env) l1" "at_queue t1 = at_queue s"
        "at_atr_id t2 \<noteq> None" using l1(1) t id evs(2) by (auto simp: phase_one_def)
      from 2(2) show ?thesis
      proof (cases rule: tx_then_SomeE)
        case (1 e)
        then have "went_through env (at_queue s) (l1 @ Unstaged True evs # []) r" "s' = t2"
          using unst evs one(2) l1(2) by (auto intro!: went_throughI)
        then show ?thesis using evs(1) one(1) by (intro exI [of _ "l1 @ Unstaged True evs # []"]) simp
      next
        case u: (2 t2')
        then have eq: "t2' = t2" "r2 = Inr ()" using unst by auto
        have "\<exists>l2. at_log s' = at_log t2 @ l2 \<and> list_all is_atr_event l2
            \<and> (r = Inr () \<or> (\<exists>e. r = Inl e \<and> post_error True e))"
          using u(2) unfolding eq
        proof (cases rule: tx_then_SomeE)
          case (1 e)
          then show ?thesis using atr_complete_cases [OF 1(1)] one(4) by auto
        next
          case (2 t3)
          then show ?thesis using atr_complete_cases [OF 2(1)] by (auto simp: tx_modify_def)
        qed
        then obtain l2 where "at_log s' = at_log t2 @ l2" "list_all is_atr_event l2"
          "r = Inr () \<or> (\<exists>e. r = Inl e \<and> post_error True e)" by blast
        moreover from this have "went_through env (at_queue s) (l1 @ Unstaged True evs # l2) r"
          using evs one l1(2) eq by (intro went_throughI) auto
        ultimately show ?thesis using evs(1) one(1)
          by (intro exI [of _ "l1 @ Unstaged True evs # l2"]) simp
      qed
    qed
  qed
qed

lemma commit_cases:
  assumes "commit env s = Some (r, s')" and "\<not> at_query_mode s" and "at_errors s = []"
  shows "\<exists>l. at_log s' = at_log s @ l \<and> (stopped_early env l r \<and> \<not> (has_atr s \<and> \<not> at_done s \<and> r = Inr ())
    \<or> went_through env (at_queue s) l r)"
  using assms commit_kv_cases [of env s r s']
  by (auto simp: commit_def existing_error_def tx_then_def tx_bind_def)

lemma unstaged_unique:
  assumes "l1 @ Unstaged b evs # l2 = pre @ Unstaged b' evs' # post"
    and "list_all is_atr_event l1" and "list_all is_atr_event l2"
  shows "pre = l1"
proof -
  have "Unstaged b evs \<notin> set l1" "Unstaged b' evs' \<notin> set l1" "Unstaged b' evs' \<notin> set l2"
    using assms(2,3) by (auto simp: list_all_iff)
  then show ?thesis using assms(1) by (auto simp: append_eq_append_conv2 append_eq_Cons_conv Cons_eq_append_conv)
qed

text \<open>
  C6: Documents are unstaged only after the commit point. When \<^verbatim>\<open>commit\<close> starts to write the
  staged contents into the documents, it has before, in the same call, either got the
  acknowledgement of the server for the request that sets the entry of the attempt to COMMITTED, or
  read COMMITTED from that entry.
\<close>

theorem commit_unstages_after_commit_point:
  assumes "commit env s = Some (r, s')" and "\<not> at_query_mode s" and "at_errors s = []"
    and "at_log s' = at_log s @ pre @ Unstaged b evs # post"
  shows "\<exists>e \<in> set pre. atr_evidence env e"
proof -
  obtain l where l: "at_log s' = at_log s @ l" "stopped_early env l r \<or> went_through env (at_queue s) l r"
    using commit_cases [OF assms(1-3)] by blast
  then have eq: "l = pre @ Unstaged b evs # post" using assms(4) by simp
  have "\<not> stopped_early env l r"
    unfolding stopped_early_def eq by auto
  then obtain l1 evs1 l2 where "l = l1 @ Unstaged True evs1 # l2" "list_all (commit_event env) l1"
    "has_evidence env l1" "list_all is_atr_event l2" using l(2) by (auto simp: went_through_def)
  then show ?thesis using unstaged_unique [of l1 True evs1 l2 pre b evs post] commit_event_atr eq by auto
qed

text \<open>
  C13: A commit that returns without an exception is complete: the entry of the attempt was set to
  COMMITTED, and the server has answered a request to unstage each of the staged documents without an
  error. (An attempt without staged mutations, or one that is in query mode or has failed
  operations, is excluded by the hypotheses.)
\<close>

theorem commit_success_complete:
  assumes "commit env s = Some (Inr (), s')" and "\<not> at_query_mode s" and "at_errors s = []"
    and "has_atr s" and "\<not> at_done s"
  shows "\<exists>l1 evs l2. at_log s' = at_log s @ l1 @ Unstaged True evs # l2
    \<and> (\<exists>e \<in> set l1. atr_evidence env e)
    \<and> (\<forall>i < length (at_queue s). \<exists>resp. Got i resp \<in> set evs \<and> mi_ec resp = None)"
proof -
  obtain l where l: "at_log s' = at_log s @ l" "went_through env (at_queue s) l (Inr ())"
    using commit_cases [OF assms(1-3)] assms(4,5) by blast
  then show ?thesis by (auto simp: went_through_def acknowledged_def)
qed

subsection \<open>Concrete attempts\<close>

lemma retry_op_final: "f s = Some (r, s') \<Longrightarrow> r \<noteq> Inl Retry_operation \<Longrightarrow> retry_op f s = Some (r, s')"
  by (subst retry_op.simps) simp

lemma retry_op_again: "f s = Some (Inl Retry_operation, s') \<Longrightarrow> retry_op f s = retry_op f s'"
  by (subst retry_op.simps) simp

definition demo_json :: "bytes \<Rightarrow> string option" where
  "demo_json v = (if v = [1] then Some ''COMMITTED'' else if v = [2] then Some ''ABORTED'' else None)"

definition demo_env :: "(nat \<Rightarrow> mutate_in_response) \<Rightarrow> lookup_in_response \<Rightarrow> errc option \<Rightarrow> attempt_env" where
  "demo_env mut look ec = \<lparr> ae_id = ''a'', ae_level = 0, ae_expired = (\<lambda>_. False),
     ae_hook = (\<lambda>_. None), ae_mutate = mut, ae_lookup = (\<lambda>_. look),
     ae_unstage = (\<lambda>_. [Launch, Run 0 False None, Reply 0 (reply_with ec) None None]),
     ae_query = (\<lambda>_. None), ae_json_string = demo_json \<rparr>"

definition demo_attempt :: attempt where
  "demo_attempt = \<lparr> at_state = state_PENDING, at_overtime = False, at_done = False,
     at_queue = [one_item], at_atr_id = Some (mk_document_id ''b'' ''s'' ''c'' ''atr''),
     at_errors = [], at_query_mode = False, at_clock = 0, at_log = [] \<rparr>"

definition demo_read :: "u16 \<Rightarrow> bytes \<Rightarrow> lookup_in_response" where
  "demo_read st v = \<lparr> li_ec = None, li_first_error_path = None, li_first_error_index = None,
     li_deleted = False, li_cas = 1,
     li_fields = [\<lparr> sf_path = [], sf_value = v, sf_original_index = 0, sf_opcode = subdoc_get,
       sf_status = st, sf_ec = None, sf_exists = True \<rparr>] \<rparr>"

definition demo_ok :: "errc option \<Rightarrow> attempt_env" where
  "demo_ok = demo_env (\<lambda>_. reply_with None) (demo_read status_success [1])"

text \<open>The first answer is ambiguous; the request had been carried out, so its repetition finds the path.\<close>

definition demo_amb :: "lookup_in_response \<Rightarrow> attempt_env" where
  "demo_amb look = demo_env (\<lambda>n. reply_with (Some (if n < 4 then errc_common common_ambiguous_timeout
     else errc_key_value key_value_path_exists))) look None"

definition demo_event :: "attempt_env \<Rightarrow> errc option \<Rightarrow> attempt_event" where
  "demo_event env ec = Atr_mutated (atr_commit_request env (mk_document_id ''b'' ''s'' ''c'' ''atr'')
     [one_item]) (reply_with ec)"

lemmas demo_eval = demo_ok_def demo_amb_def demo_env_def demo_attempt_def mk_document_id_def
  atr_commit_round_def atr_commit_try_def atr_id_value_def
  error_if_expired_and_not_in_overtime_def wait_for_hook_def throw_if_def execute_mutate_in_def
  wrap_operation_future_def has_expired_client_side_def tx_defs Let_def reply_with_def
  validate_operation_result_def create_from_subdoc_response_def is_success_def
  throw_client_error_def error_class_from_result_def error_class_of_code_def
  atr_commit_error_def demo_event_def

lemma tx_then_Inr: "m s = Some (Inr (), t) \<Longrightarrow> tx_then m k s = k t"
  by (simp add: tx_then_def tx_bind_def)

lemma demo_start:
  assumes "env = demo_env mut look ec"
  shows "commit env demo_attempt = tx_then (atr_commit env False)
      (tx_then (unstage_phase env True) (tx_then (atr_complete env)
        (tx_modify (\<lambda>s. s\<lparr> at_done := True \<rparr>)))) (demo_attempt\<lparr> at_clock := 1 \<rparr>)"
  using assms
  by (simp add: commit_def existing_error_def commit_kv_def check_expiry_pre_commit_def has_atr_def
      tx_then_def tx_bind_def tx_return_def has_expired_client_side_def demo_attempt_def demo_env_def
      mk_document_id_def)

lemma demo_ok_commit:
  "atr_commit (demo_ok ec) False (demo_attempt\<lparr> at_clock := 1 \<rparr>) = Some (Inr (),
     demo_attempt\<lparr> at_clock := 5, at_state := state_COMMITTED, at_log := [demo_event (demo_ok ec) None] \<rparr>)"
proof -
  have "retry_op (atr_commit_round (demo_ok ec)) (False, demo_attempt\<lparr> at_clock := 1 \<rparr>)
    = Some (Inr (), False, demo_attempt\<lparr> at_clock := 5, at_state := state_COMMITTED,
        at_log := [demo_event (demo_ok ec) None] \<rparr>)"
    by (rule retry_op_final) (simp_all add: demo_eval)
  then show ?thesis by (simp add: atr_commit_def)
qed

lemma demo_ok_complete:
  assumes "at_atr_id t = Some i"
  shows "\<exists>s req. atr_complete (demo_ok ec) t = Some (Inr (), s)
    \<and> at_log s = at_log t @ [Atr_mutated req (reply_with None)]"
  using assms by (cases "at_overtime t") (simp_all add: atr_complete_def demo_eval)

lemma demo_ok_unstage:
  assumes "unstage_run True 0 [Launch, Run 0 False None, Reply 0 (reply_with ec) None None]
      (new_unstage_state [one_item] False) = Some u" "unstage_done u"
    and "at_queue s = [one_item]" "\<not> at_overtime s"
  shows "unstage_phase (demo_ok ec) True s = Some (case unstage_outcome True u of None \<Rightarrow> Inr () | Some e \<Rightarrow> Inl e,
     s\<lparr> at_clock := at_clock s + 1, at_queue := us_items u, at_overtime := us_overtime u,
        at_log := at_log s @ [Unstaged True (us_log u)] \<rparr>)"
  using assms by (simp add: unstage_phase_def demo_ok_def demo_env_def)

lemma demo_ok_run: "\<exists>s' req evs. commit (demo_ok None) demo_attempt = Some (Inr (), s')
    \<and> at_log s' = at_log demo_attempt @ [demo_event (demo_ok None) None]
        @ Unstaged True evs # [Atr_mutated req (reply_with None)]"
proof -
  let ?env = "demo_ok None"
  obtain u where u: "unstage_run True 0 [Launch, Run 0 False None, Reply 0 (reply_with None) None None]
      (new_unstage_state [one_item] False) = Some u" "unstage_done u" "unstage_outcome True u = None"
    by (simp add: one_eval)
  let ?s1 = "demo_attempt\<lparr> at_clock := 5, at_state := state_COMMITTED, at_log := [demo_event ?env None] \<rparr>"
  let ?s2 = "?s1\<lparr> at_clock := at_clock ?s1 + 1, at_queue := us_items u, at_overtime := us_overtime u,
    at_log := at_log ?s1 @ [Unstaged True (us_log u)] \<rparr>"
  have p: "unstage_phase ?env True ?s1 = Some (Inr (), ?s2)"
    using demo_ok_unstage [OF u(1,2), of ?s1] u(3) by (simp add: demo_attempt_def)
  obtain s3 req where s3: "atr_complete ?env ?s2 = Some (Inr (), s3)"
    "at_log s3 = at_log ?s2 @ [Atr_mutated req (reply_with None)]"
    using demo_ok_complete [of ?s2 "mk_document_id ''b'' ''s'' ''c'' ''atr''" None]
    by (auto simp: demo_attempt_def)
  show ?thesis unfolding demo_start [OF fun_cong [OF demo_ok_def]]
      tx_then_Inr [of "atr_commit ?env False", OF demo_ok_commit]
      tx_then_Inr [of "unstage_phase ?env True", OF p] tx_then_Inr [of "atr_complete ?env", OF s3(1)]
    using s3(2) by (simp add: tx_modify_def demo_attempt_def)
qed

lemma demo_amb_commit:
  "atr_commit (demo_amb look) False (demo_attempt\<lparr> at_clock := 1 \<rparr>)
    = retry_op (atr_commit_ambiguity_resolution (demo_amb look)) (demo_attempt\<lparr> at_clock := 7,
        at_log := [demo_event (demo_amb look) (Some (errc_common common_ambiguous_timeout)),
          demo_event (demo_amb look) (Some (errc_key_value key_value_path_exists))] \<rparr>)"
proof -
  let ?env = "demo_amb look" and ?amb = "Some (errc_common common_ambiguous_timeout)"
  let ?ex = "Some (errc_key_value key_value_path_exists)"
  let ?s2 = "demo_attempt\<lparr> at_clock := 4, at_log := [demo_event ?env ?amb] \<rparr>"
  let ?s3 = "demo_attempt\<lparr> at_clock := 7, at_log := [demo_event ?env ?amb, demo_event ?env ?ex] \<rparr>"
  have r1: "atr_commit_round ?env (False, demo_attempt\<lparr> at_clock := 1 \<rparr>) = Some (Inl Retry_operation, True, ?s2)"
    by (simp add: demo_eval)
  have r2: "atr_commit_round ?env (True, ?s2)
      = map_option (\<lambda>(r, s'). (r, True, s')) (retry_op (atr_commit_ambiguity_resolution ?env) ?s3)"
    by (simp add: demo_eval)
  show ?thesis
  proof (cases "retry_op (atr_commit_ambiguity_resolution ?env) ?s3")
    case None
    then show ?thesis using r2 unfolding atr_commit_def retry_op_again [of "atr_commit_round ?env", OF r1]
      by (subst retry_op.simps) simp
  next
    case (Some x)
    obtain r s4 where x: "x = (r, s4)" by (cases x)
    have "r \<noteq> Inl Retry_operation"
      using resolution_loop [OF Some [unfolded x]] by (auto simp: failed_well_def)
    then have "retry_op (atr_commit_round ?env) (True, ?s2) = Some (r, True, s4)"
      using r2 Some x by (intro retry_op_final) simp_all
    then show ?thesis using Some x unfolding atr_commit_def retry_op_again [of "atr_commit_round ?env", OF r1] by simp
  qed
qed

text \<open>What the resolution finds when the status is read.\<close>

lemma demo_resolution:
  assumes "at_atr_id s \<noteq> None" "\<not> at_overtime s"
  shows "retry_op (atr_commit_ambiguity_resolution (demo_amb (demo_read st v))) s =
    Some (case demo_json v of
            None \<Rightarrow> Inl Std_exception
          | Some raw \<Rightarrow> if raw = ''COMMITTED'' then Inr ()
              else Inl (Op_failed (with_retry (op_failed FAIL_OTHER))),
      s\<lparr> at_clock := at_clock s + 3,
         at_log := at_log s @ [Atr_read ''attempts.a.st'' (demo_read st v)] \<rparr>)"
  by (rule retry_op_final)
    (use assms in \<open>auto simp: atr_commit_ambiguity_resolution_def demo_eval atr_status_of_def
      execute_lookup_in_def create_from_lookup_response_def demo_read_def demo_json_def atr_field_def
      atr_prefix_def attempt_state_value_def\<close>)

subsection \<open>Properties of the commit\<close>

theorem commit_unstages_after_commit_point_witness:
  "\<exists>s' pre evs post. commit (demo_ok None) demo_attempt = Some (Inr (), s')
    \<and> at_log s' = at_log demo_attempt @ pre @ Unstaged True evs # post
    \<and> (\<exists>e \<in> set pre. atr_evidence (demo_ok None) e)"
proof -
  have d: "\<not> at_query_mode demo_attempt" "at_errors demo_attempt = []" by (simp_all add: demo_attempt_def)
  obtain s' req evs where s': "commit (demo_ok None) demo_attempt = Some (Inr (), s')"
    "at_log s' = at_log demo_attempt @ [demo_event (demo_ok None) None]
        @ Unstaged True evs # [Atr_mutated req (reply_with None)]" using demo_ok_run by blast
  note commit_unstages_after_commit_point [OF s'(1) d s'(2)]
  with s' show ?thesis by (intro exI conjI)
qed

theorem commit_success_complete_witness:
  "\<exists>s' evs. commit (demo_ok None) demo_attempt = Some (Inr (), s') \<and> Unstaged True evs \<in> set (at_log s')
    \<and> (\<exists>resp. Got 0 resp \<in> set evs \<and> mi_ec resp = None)"
proof -
  have d: "\<not> at_query_mode demo_attempt" "at_errors demo_attempt = []" "has_atr demo_attempt"
    "\<not> at_done demo_attempt" "length (at_queue demo_attempt) = 1"
    by (simp_all add: demo_attempt_def has_atr_def mk_document_id_def)
  obtain s' where s': "commit (demo_ok None) demo_attempt = Some (Inr (), s')" using demo_ok_run by blast
  obtain l1 evs l2 where l: "at_log s' = at_log demo_attempt @ l1 @ Unstaged True evs # l2"
    "\<forall>i < length (at_queue demo_attempt). \<exists>resp. Got i resp \<in> set evs \<and> mi_ec resp = None"
    using commit_success_complete [OF s' d(1-4)] by blast
  have "Unstaged True evs \<in> set (at_log s')" unfolding l(1) by simp
  with s' l(2) d(5) show ?thesis by auto
qed

lemma commit_cb_cases:
  assumes "commit_cb env s = Some (Inl (Op_failed f), s')"
  obtains "commit env s = Some (Inl (Op_failed f), s')"
    | e where "commit env s = Some (Inl e, s')" "\<forall>g. e \<noteq> Op_failed g" "f = op_failed FAIL_OTHER"
  using assms unfolding commit_cb_def
  by (elim tx_catch_SomeE) (auto simp: tx_throw_def split: txn_exception.splits)

text \<open>
  C8: A committed transaction is never undone. When no testing hook interferes and no timer is
  cancelled, an error of \<^verbatim>\<open>commit\<close> after the entry was acknowledged or read as COMMITTED
  forbids the rollback, forbids a new attempt, and is reported as a failure after the commit.
\<close>

theorem committed_never_rolled_back:
  assumes "commit_cb env s = Some (Inl (Op_failed f), s')" and "\<not> at_query_mode s"
    and "at_errors s = []" and "no_hooks env" and "no_cancels env"
    and "at_log s' = at_log s @ l" and "\<exists>e \<in> set l. atr_evidence env e"
  shows "\<not> tof_rollback f \<and> \<not> tof_retry f \<and> tof_to_raise f = FAILED_POST_COMMIT"
proof -
  obtain e where e: "commit env s = Some (Inl e, s')" "e = Op_failed f \<or> (\<forall>g. e \<noteq> Op_failed g)"
    using assms(1) by (rule commit_cb_cases) auto
  have "went_through env (at_queue s) l (Inl e)"
    using commit_cases [OF e(1) assms(2,3)] assms(4,6,7) by (auto simp: stopped_early_def)
  then have "post_error True e" using assms(5) by (auto simp: went_through_def)
  then show ?thesis using e(2) by (auto simp: post_error_def)
qed

text \<open>
  C21: After an ambiguous answer to the request that commits the transaction, an error that lets the
  attempt be rolled back is raised only when the entry was read back as ABORTED, or when its status
  was read and could not be decoded.
\<close>

theorem ambiguous_commit_rollback:
  assumes "commit_cb env s = Some (Inl (Op_failed f), s')" and "\<not> at_query_mode s"
    and "at_errors s = []" and "no_cancels env" and "at_log s' = at_log s @ l"
    and "\<exists>e \<in> set l. atr_ambiguous env e" and "tof_rollback f"
  shows "\<exists>e \<in> set l. atr_read_as env (Some ''ABORTED'') e \<or> atr_read_as env None e"
proof -
  obtain e where e: "commit env s = Some (Inl e, s')" "e = Op_failed f \<or> (\<forall>g. e \<noteq> Op_failed g)"
    using assms(1) by (rule commit_cb_cases) auto
  have "stopped_early env l (Inl e) \<or> post_error True e"
    using commit_cases [OF e(1) assms(2,3)] assms(4,5) by (auto simp: went_through_def)
  moreover have "\<not> post_error True e" using e(2) assms(7) by (auto simp: post_error_def)
  ultimately have "failed_well env True True l e"
    using assms(6) by (auto simp: stopped_early_def)
  then show ?thesis using e(2) assms(7) by (auto simp: failed_well_def)
qed

lemma demo_no_hooks [simp]: "no_hooks (demo_env mut look ec)" "no_cancels (demo_env mut look ec)"
  by (simp_all add: no_hooks_def no_cancels_def demo_env_def)

lemma demo_attempt_fields [simp]:
  "at_query_mode demo_attempt = False" "at_errors demo_attempt = []" "at_log demo_attempt = []"
  "at_overtime demo_attempt = False" "at_queue demo_attempt = [one_item]" "at_atr_id demo_attempt \<noteq> None"
  by (simp_all add: demo_attempt_def)

lemma tx_then_Inl: "m s = Some (Inl e, t) \<Longrightarrow> tx_then m k s = Some (Inl e, t)"
  by (simp add: tx_then_def tx_bind_def)

theorem committed_never_rolled_back_witness:
  "\<exists>f s'. commit_cb (demo_ok (Some (errc_key_value key_value_document_not_found))) demo_attempt
     = Some (Inl (Op_failed f), s') \<and> \<not> tof_rollback f"
proof -
  let ?ec = "Some (errc_key_value key_value_document_not_found)"
  let ?env = "demo_ok ?ec" and ?f = "failed_post_commit (no_rollback (op_failed FAIL_DOC_NOT_FOUND))"
  obtain u where u: "unstage_run True 0 [Launch, Run 0 False None, Reply 0 (reply_with ?ec) None None]
      (new_unstage_state [one_item] False) = Some u" "unstage_done u"
    "unstage_outcome True u = Some (Op_failed ?f)"
    by (simp add: one_eval)
  let ?s1 = "demo_attempt\<lparr> at_clock := 5, at_state := state_COMMITTED, at_log := [demo_event ?env None] \<rparr>"
  let ?s2 = "?s1\<lparr> at_clock := at_clock ?s1 + 1, at_queue := us_items u, at_overtime := us_overtime u,
    at_log := at_log ?s1 @ [Unstaged True (us_log u)] \<rparr>"
  have p: "unstage_phase ?env True ?s1 = Some (Inl (Op_failed ?f), ?s2)"
    using demo_ok_unstage [OF u(1,2), of ?s1] u(3) by simp
  have "commit ?env demo_attempt = Some (Inl (Op_failed ?f), ?s2)"
    unfolding demo_start [OF fun_cong [OF demo_ok_def]]
      tx_then_Inr [of "atr_commit ?env False", OF demo_ok_commit]
      tx_then_Inl [of "unstage_phase ?env True", OF p] ..
  then have c: "commit_cb ?env demo_attempt = Some (Inl (Op_failed ?f), ?s2)"
    by (simp add: commit_cb_def tx_catch_def tx_throw_def)
  have "\<exists>e \<in> set (at_log ?s2). atr_evidence ?env e"
    by (simp add: demo_event_def validate_operation_result_def is_success_def
        create_from_subdoc_response_def reply_with_def) blast
  then have "\<not> tof_rollback ?f"
    using committed_never_rolled_back [OF c] by (simp add: demo_ok_def)
  with c show ?thesis by blast
qed

lemma demo_amb_run:
  assumes "demo_json v \<noteq> Some ''COMMITTED''"
  defines "f \<equiv> (if demo_json v = None then op_failed FAIL_OTHER else with_retry (op_failed FAIL_OTHER))"
  shows "\<exists>s'. commit_cb (demo_amb (demo_read st v)) demo_attempt = Some (Inl (Op_failed f), s')
    \<and> at_log s' = [demo_event (demo_amb (demo_read st v)) (Some (errc_common common_ambiguous_timeout)),
          demo_event (demo_amb (demo_read st v)) (Some (errc_key_value key_value_path_exists)),
          Atr_read ''attempts.a.st'' (demo_read st v)]"
proof -
  let ?env = "demo_amb (demo_read st v)"
  let ?e = "if demo_json v = None then Std_exception else Op_failed f"
  obtain s' where "atr_commit ?env False (demo_attempt\<lparr> at_clock := 1 \<rparr>) = Some (Inl ?e, s')" and
    log: "at_log s' = [demo_event ?env (Some (errc_common common_ambiguous_timeout)),
          demo_event ?env (Some (errc_key_value key_value_path_exists)),
          Atr_read ''attempts.a.st'' (demo_read st v)]"
    unfolding demo_amb_commit using assms(1)
    by (auto simp: demo_resolution f_def split: option.splits)
  then have "commit ?env demo_attempt = Some (Inl ?e, s')"
    unfolding demo_start [OF demo_amb_def] by (intro tx_then_Inl)
  then show ?thesis using log by (auto simp: commit_cb_def tx_catch_def tx_throw_def f_def)
qed

lemma demo_event_ambiguous:
  "atr_ambiguous env (demo_event env (Some (errc_common common_ambiguous_timeout)))"
  by (auto simp: demo_event_def reply_with_def error_class_of_code_def)

theorem ambiguous_commit_rollback_witness:
  "\<exists>s'. commit_cb (demo_amb (demo_read status_success [2])) demo_attempt
     = Some (Inl (Op_failed (with_retry (op_failed FAIL_OTHER))), s')
   \<and> (\<exists>e \<in> set (at_log s'). atr_read_as (demo_amb (demo_read status_success [2])) (Some ''ABORTED'') e
        \<or> atr_read_as (demo_amb (demo_read status_success [2])) None e)"
proof -
  let ?env = "demo_amb (demo_read status_success [2])"
  obtain s' where s': "commit_cb ?env demo_attempt = Some (Inl (Op_failed (with_retry (op_failed FAIL_OTHER))), s')"
    "at_log s' = [demo_event ?env (Some (errc_common common_ambiguous_timeout)),
       demo_event ?env (Some (errc_key_value key_value_path_exists)),
       Atr_read ''attempts.a.st'' (demo_read status_success [2])]"
    using demo_amb_run [of "[2]" status_success] by (auto simp: demo_json_def)
  have "\<exists>e \<in> set (at_log s'). atr_ambiguous ?env e" using s'(2) demo_event_ambiguous by auto
  then show ?thesis using s'(1) ambiguous_commit_rollback [OF s'(1), of "at_log s'"]
    by (auto simp: demo_amb_def)
qed


end
