(* ===== verification/Commit_Liveness.thy ===== *)
theory Commit_Liveness
  imports Attempt
begin

text \<open>
  The commit of the entry of an attempt returns. The loops of \<^verbatim>\<open>atr_commit\<close> and of the resolution
  of an ambiguous commit have no bound of their own: \<^verbatim>\<open>retry_op\<close> repeats its body for as long as it asks
  for it. What ends them is the expiry, which is checked at the start of every round. The model of the
  loops is a partial function, so that returning is a statement of its own, proved here from a measure
  of the readings of the clock that are left before the expiry.
\<close>

subsection \<open>The retry loops end\<close>

lemma retry_op_returns:
  fixes m :: "'s \<Rightarrow> nat"
  assumes "I s" and step: "\<And>t. I t \<Longrightarrow> \<exists>r t'. f t = Some (r, t') \<and> (r = Inl Retry_operation \<longrightarrow> I t' \<and> m t' < m t)"
  shows "\<exists>r s'. retry_op f s = Some (r, s')"
  using assms(1)
proof (induction "m s" arbitrary: s rule: less_induct)
  case less
  obtain r t' where f: "f s = Some (r, t')" "r = Inl Retry_operation \<longrightarrow> I t' \<and> m t' < m s"
    using step [OF less.prems] by blast
  show ?case
  proof (cases "r = Inl Retry_operation")
    case True
    then have "retry_op f s = retry_op f t'" using f(1) retry_op_again by metis
    moreover have "\<exists>r s'. retry_op f t' = Some (r, s')" using less.hyps [of t'] f(2) True by simp
    ultimately show ?thesis by simp
  next
    case False
    then show ?thesis using retry_op_final [of f, OF f(1)] by simp
  qed
qed

text \<open>Every reading of the status that succeeds has its one field.\<close>

definition lookups_answered :: "attempt_env \<Rightarrow> bool" where
  "lookups_answered env \<longleftrightarrow> (\<forall>n. li_ec (ae_lookup env n) = None \<longrightarrow> li_fields (ae_lookup env n) \<noteq> [])"

lemma resolution_read_defined: "lookups_answered env \<Longrightarrow> resolution_read env s \<noteq> None"
proof (cases "at_atr_id s")
  case (Some i)
  assume ans: "lookups_answered env"
  let ?resp = "ae_lookup env (at_clock s)"
  obtain v where v: "validate_operation_result True (create_from_lookup_response ?resp) = Some v"
    using validate_operation_result_defined [of "create_from_lookup_response ?resp" True] by auto
  show ?thesis
  proof (cases v)
    case (Inl e)
    then show ?thesis using Some v by (simp add: resolution_read_def request_defs tx_defs)
  next
    case (Inr res)
    then have "res = create_from_lookup_response ?resp" "li_ec ?resp = None"
      using v by (auto simp: validate_success_iff is_success_def create_from_lookup_response_def)
    moreover from this obtain f fs where "li_fields ?resp = f # fs"
      using ans by (cases "li_fields ?resp") (auto simp: lookups_answered_def)
    ultimately show ?thesis using Some v Inr
      by (auto simp: resolution_read_def request_defs tx_defs atr_status_of_def
          create_from_lookup_response_def split: option.splits attempt_state.splits)
  qed
qed (simp add: resolution_read_def request_defs tx_defs)

lemma guard_expired:
  "\<not> at_overtime s \<Longrightarrow> ae_expired env (at_clock s) \<Longrightarrow>
   guard env s = Some (Inl (Client_error FAIL_EXPIRY), s\<lparr> at_clock := at_clock s + 1 \<rparr>)"
  by (simp add: guard_def expiry_defs request_defs tx_defs)

lemma resolution_progress:
  assumes "lookups_answered env" and "\<not> at_overtime s"
  shows "\<exists>r s'. atr_commit_ambiguity_resolution env s = Some (r, s') \<and> at_clock s < at_clock s' \<and> \<not> at_overtime s'
    \<and> (r = Inl Retry_operation \<longrightarrow> \<not> ae_expired env (at_clock s))"
proof -
  let ?x = "\<lambda>e. case e of Client_error ec \<Rightarrow> ambiguity_resolution_error ec | _ \<Rightarrow> e"
  have handler: "(case e of Client_error ec \<Rightarrow> tx_throw (ambiguity_resolution_error ec) | _ \<Rightarrow> tx_throw e) t
    = Some (Inl (?x e), t)" for e and t :: attempt
    by (cases e) (simp_all add: tx_throw_def)
  obtain g t where g: "guard env s = Some (g, t)" using guard_defined by fastforce
  have t: "at_clock s < at_clock t" "\<not> at_overtime t" using guard_cases [OF g] assms(2) by auto
  show ?thesis
  proof (cases g)
    case (Inl e)
    then have "tx_then (guard env) (resolution_read env) s = Some (Inl e, t)"
      using g by (simp add: tx_then_Inl)
    then have "atr_commit_ambiguity_resolution env s = Some (Inl (?x e), t)"
      by (simp add: resolution_fold tx_catch_def handler)
    moreover have "?x e \<noteq> Retry_operation" if "ae_expired env (at_clock s)"
      using guard_expired [OF assms(2) that] g Inl by (simp add: ambiguity_resolution_error_def)
    ultimately show ?thesis using t by auto
  next
    case (Inr x)
    then have fresh: "\<not> ae_expired env (at_clock s)" using guard_expired [OF assms(2)] g by auto
    obtain r2 t2 where rd: "resolution_read env t = Some (r2, t2)"
      using resolution_read_defined [OF assms(1)] by fastforce
    have t2: "at_clock t \<le> at_clock t2" "at_overtime t2 = at_overtime t"
      using resolution_read_cases [OF rd] by (auto simp: phase_one_def)
    have "tx_then (guard env) (resolution_read env) s = Some (r2, t2)"
      using g Inr rd by (simp add: tx_then_Inr)
    then have "atr_commit_ambiguity_resolution env s
        = Some (case r2 of Inl e \<Rightarrow> Inl (?x e) | Inr y \<Rightarrow> Inr y, t2)"
      by (simp add: resolution_fold tx_catch_def handler split: sum.split)
    then show ?thesis using t t2 fresh by auto
  qed
qed

lemma resolution_returns:
  assumes "lookups_answered env" and "\<not> at_overtime s" and "\<forall>n \<ge> n0. ae_expired env n"
  shows "\<exists>r s'. retry_op (atr_commit_ambiguity_resolution env) s = Some (r, s')"
proof (rule retry_op_returns [where I = "\<lambda>t :: attempt. \<not> at_overtime t" and m = "\<lambda>t. n0 - at_clock t"])
  fix t :: attempt
  assume "\<not> at_overtime t"
  then obtain r t' where t': "atr_commit_ambiguity_resolution env t = Some (r, t')"
    "at_clock t < at_clock t'" "\<not> at_overtime t'" "r = Inl Retry_operation \<longrightarrow> \<not> ae_expired env (at_clock t)"
    using resolution_progress [OF assms(1)] by blast
  moreover have "at_clock t < n0" if "\<not> ae_expired env (at_clock t)" using assms(3) that not_le by blast
  ultimately show "\<exists>r t'. atr_commit_ambiguity_resolution env t = Some (r, t') \<and>
      (r = Inl Retry_operation \<longrightarrow> \<not> at_overtime t' \<and> n0 - at_clock t' < n0 - at_clock t)"
    by (intro exI [of _ r] exI [of _ t']) auto
qed (rule assms(2))

lemma atr_commit_try_progress:
  assumes "\<not> at_overtime s"
  shows "\<exists>r s'. atr_commit_try env s = Some (r, s') \<and> \<not> at_overtime s' \<and>
    (r = Inl (Client_error FAIL_EXPIRY) \<or> r = Inl Std_exception
     \<or> r \<noteq> Inl Retry_operation \<and> at_clock s < at_clock s' \<and> \<not> ae_expired env (at_clock s))"
proof (cases "at_atr_id s")
  case None
  then show ?thesis using assms by (simp add: atr_commit_try_def request_defs tx_defs)
next
  case (Some i)
  let ?k = "\<lambda>t. tx_bind (execute_mutate_in env (atr_commit_request env i (at_queue t))) (\<lambda>resp.
      tx_bind (wrap_operation_future False (create_from_subdoc_response resp)) (\<lambda>_.
      tx_then (tx_bind (wait_for_hook env) throw_if)
      (tx_modify (\<lambda>s. s\<lparr> at_state := state_COMMITTED \<rparr>)))) t"
  have run: "atr_commit_try env s = tx_then (guard env) ?k s"
    using Some unfolding atr_commit_try_def guard_fold
    by (simp add: tx_bind_def [of atr_id_value] atr_id_value_def)
  obtain g t where g: "guard env s = Some (g, t)" using guard_defined by fastforce
  have t: "at_clock s < at_clock t" "\<not> at_overtime t" using guard_cases [OF g] assms by auto
  obtain v where v: "validate_operation_result False (create_from_subdoc_response (ae_mutate env (at_clock t))) = Some v"
    using validate_operation_result_defined [of "create_from_subdoc_response (ae_mutate env (at_clock t))" False] by auto
  have "?k t \<noteq> None"
    using v by (cases v) (simp_all add: request_defs tx_defs split: option.split)
  then obtain r2 t2 where k: "?k t = Some (r2, t2)" by fastforce
  show ?thesis
  proof (cases g)
    case (Inl e)
    then have "atr_commit_try env s = Some (Inl e, t)" using g by (simp add: run tx_then_Inl)
    moreover have "e \<noteq> Retry_operation" using guard_cases [OF g] Inl by auto
    moreover have "e = Client_error FAIL_EXPIRY" if "ae_expired env (at_clock s)"
      using guard_expired [OF assms that] g Inl by simp
    ultimately show ?thesis using t by auto
  next
    case (Inr x)
    then have fresh: "\<not> ae_expired env (at_clock s)" using guard_expired [OF assms] g by auto
    have all: "atr_commit_try env s = Some (r2, t2)" using g Inr k by (simp add: run tx_then_Inr)
    have "at_clock t \<le> at_clock t2" using k v
      by (cases v) (auto simp: request_defs tx_defs split: option.splits)
    moreover have "at_overtime t2 = at_overtime s" "r2 \<noteq> Inl Retry_operation"
      using atr_commit_try_cases [OF all] by auto
    ultimately show ?thesis using all assms t fresh by auto
  qed
qed

lemma commit_error_progress:
  assumes "lookups_answered env" and "\<not> at_overtime s" and "\<forall>n \<ge> n0. ae_expired env n"
  shows "\<exists>r amb' s'. atr_commit_error env amb ec s = Some (r, amb', s') \<and>
    (r = Inl Retry_operation \<longrightarrow> ec \<noteq> FAIL_EXPIRY \<and> s' = s)"
proof (cases "ec = FAIL_PATH_ALREADY_EXISTS")
  case True
  obtain r s' where "retry_op (atr_commit_ambiguity_resolution env) s = Some (r, s')"
    using resolution_returns [OF assms] by blast
  moreover from this have "r \<noteq> Inl Retry_operation"
    using retry_op_inv [of "atr_commit_ambiguity_resolution env" s r s' "\<lambda>_. True" "\<lambda>_ _. True"] by simp
  ultimately show ?thesis using True by (simp add: atr_commit_error_def)
next
  case False
  then show ?thesis by (cases ec) (auto simp: atr_commit_error_def Let_def)
qed

lemma commit_round_progress:
  assumes "lookups_answered env" and "\<not> at_overtime s" and "\<forall>n \<ge> n0. ae_expired env n"
  shows "\<exists>r amb' s'. atr_commit_round env (amb, s) = Some (r, amb', s') \<and> (r = Inl Retry_operation \<longrightarrow>
    at_clock s < at_clock s' \<and> \<not> at_overtime s' \<and> \<not> ae_expired env (at_clock s))"
proof -
  obtain r1 s1 where r1: "atr_commit_try env s = Some (r1, s1)" "\<not> at_overtime s1"
    "r1 = Inl (Client_error FAIL_EXPIRY) \<or> r1 = Inl Std_exception
     \<or> r1 \<noteq> Inl Retry_operation \<and> at_clock s < at_clock s1 \<and> \<not> ae_expired env (at_clock s)"
    using atr_commit_try_progress [OF assms(2)] by blast
  show ?thesis
  proof (cases "\<exists>ec. r1 = Inl (Client_error ec)")
    case True
    then obtain ec where ec: "r1 = Inl (Client_error ec)" by blast
    then obtain r amb' s' where e: "atr_commit_error env amb ec s1 = Some (r, amb', s')"
      "r = Inl Retry_operation \<longrightarrow> ec \<noteq> FAIL_EXPIRY \<and> s' = s1"
      using commit_error_progress [OF assms(1) r1(2) assms(3)] by blast
    have "atr_commit_round env (amb, s) = Some (r, amb', s')"
      using r1(1) ec e(1) by (simp add: atr_commit_round_def)
    then show ?thesis using e(2) r1(2,3) ec by (intro exI [of _ r] exI [of _ amb'] exI [of _ s']) auto
  next
    case False
    then have "atr_commit_round env (amb, s) = Some (r1, amb, s1)"
      using r1(1) by (auto simp: atr_commit_round_def split: sum.splits txn_exception.splits)
    then show ?thesis using r1(2,3) by (intro exI [of _ r1] exI [of _ amb] exI [of _ s1]) auto
  qed
qed

text \<open>
  C28: The request that commits the transaction is retried only until the transaction expires: from a
  state that is not in overtime, if the clock stays past the expiry from some point on, the commit of
  the entry returns, with a result or an exception.
\<close>

theorem atr_commit_returns:
  assumes "lookups_answered env" and "\<not> at_overtime s" and "\<forall>n \<ge> n0. ae_expired env n"
  shows "\<exists>r s'. atr_commit env amb s = Some (r, s')"
proof -
  have "\<exists>r x'. retry_op (atr_commit_round env) (amb, s) = Some (r, x')"
  proof (rule retry_op_returns [where I = "\<lambda>(_, t :: attempt). \<not> at_overtime t" and m = "\<lambda>(_, t). n0 - at_clock t"])
    fix x :: "bool \<times> attempt"
    obtain b t where x: "x = (b, t)" by (cases x)
    assume "case x of (_, t) \<Rightarrow> \<not> at_overtime t"
    then obtain r b' t' where t': "atr_commit_round env (b, t) = Some (r, b', t')" "r = Inl Retry_operation \<longrightarrow>
        at_clock t < at_clock t' \<and> \<not> at_overtime t' \<and> \<not> ae_expired env (at_clock t)"
      using commit_round_progress [OF assms(1) _ assms(3), of t b] x by auto
    moreover have "at_clock t < n0" if "\<not> ae_expired env (at_clock t)" using assms(3) that not_le by blast
    ultimately show "\<exists>r x'. atr_commit_round env x = Some (r, x') \<and> (r = Inl Retry_operation \<longrightarrow>
        (case x' of (_, t) \<Rightarrow> \<not> at_overtime t)
        \<and> (case x' of (_, t) \<Rightarrow> n0 - at_clock t) < (case x of (_, t) \<Rightarrow> n0 - at_clock t))"
      unfolding x by (intro exI [of _ r] exI [of _ "(b', t')"]) auto
  qed (use assms(2) in simp)
  then show ?thesis by (auto simp: atr_commit_def)
qed

theorem atr_commit_returns_witness:
  "\<exists>r s'. atr_commit ((demo_amb (demo_read status_success []))\<lparr> ae_expired := \<lambda>n. 5 \<le> n \<rparr>) False demo_attempt = Some (r, s')"
  using atr_commit_returns [of "(demo_amb (demo_read status_success []))\<lparr> ae_expired := \<lambda>n. 5 \<le> n \<rparr>" demo_attempt 5 False]
  by (simp add: lookups_answered_def demo_amb_def demo_env_def demo_read_def)

end
