(* ===== verification/Txn_Run.thy ===== *)
theory Txn_Run
  imports Attempt
begin

text \<open>
  A whole transaction: \<^verbatim>\<open>transactions::run\<close> and \<^verbatim>\<open>wrap_run\<close> of
  \<^verbatim>\<open>core/transactions/transactions.cxx\<close> with \<^verbatim>\<open>transaction_context\<close>, which starts
  attempts, hands them to the code of the application, commits or rolls back, and decides from the
  error whether there is another attempt. The application is a parameter: a function of the state of
  the attempt. The theorems carry what is known of one commit over to the run: a transaction that was
  committed is not rolled back, not repeated and not reported as failed, and one that is reported as
  done was committed.
\<close>

subsection \<open>The context of a transaction\<close>

text \<open>\<^verbatim>\<open>exp_delay\<close>; how long a call sleeps is left out. Times are in nanoseconds.\<close>

record exp_delay =
  xd_retries :: u32
  xd_end_time :: "int option"

definition exp_delay_call :: "int \<Rightarrow> int \<Rightarrow> exp_delay \<Rightarrow> txn_exception + exp_delay" where
  "exp_delay_call timeout now d =
     (if 100 \<le> xd_retries d then Inl Retry_operation_retries_exhausted
      else case xd_end_time d of
        None \<Rightarrow> Inr (d\<lparr> xd_end_time := Some (now + timeout) \<rparr>)
      | Some end_time \<Rightarrow>
          (if now > end_time then Inl Retry_operation_timeout
           else Inr (d\<lparr> xd_retries := xd_retries d + 1 \<rparr>)))"

text \<open>
  The contexts of the attempts, the last one the current; the attempts handed to the cleanup, by
  number. The state of an attempt, which the source keeps in \<^verbatim>\<open>attempts_\<close>, is in its context.
\<close>

record txn_context =
  tc_attempts :: "attempt list"
  tc_cleanup :: "nat list"
  tc_delay :: exp_delay

definition new_txn_context :: txn_context where
  "new_txn_context = \<lparr> tc_attempts = [], tc_cleanup = [],
     tc_delay = \<lparr> xd_retries = 0, xd_end_time = None \<rparr> \<rparr>"

definition new_attempt :: attempt where
  "new_attempt = \<lparr> at_state = state_NOT_STARTED, at_overtime = False, at_done = False, at_queue = [],
     at_atr_id = None, at_errors = [], at_query_mode = False, at_clock = 0, at_log = [] \<rparr>"

text \<open>What the application throws; \<open>Thrown_other\<close> is no \<^verbatim>\<open>std::exception\<close>.\<close>

datatype thrown = Thrown txn_exception | Thrown_other

record txn_env =
  te_timeout :: int
  te_now :: "nat \<Rightarrow> int"
  te_expired :: "nat \<Rightarrow> bool"
  te_attempt :: "nat \<Rightarrow> attempt_env"
  te_logic :: "nat \<Rightarrow> attempt \<Rightarrow> ((thrown + unit) \<times> attempt) option"

abbreviation number :: "txn_context \<Rightarrow> nat" where
  "number s \<equiv> length (tc_attempts s) - 1"

definition new_attempt_context :: "txn_env \<Rightarrow> txn_context \<Rightarrow> (txn_exception + unit) \<times> txn_context" where
  "new_attempt_context env s =
     (case exp_delay_call (2 * te_timeout env) (te_now env (length (tc_attempts s))) (tc_delay s) of
        Inl e \<Rightarrow> (Inl e, s)
      | Inr d \<Rightarrow> (Inr (), s\<lparr> tc_attempts := tc_attempts s @ [new_attempt], tc_delay := d \<rparr>))"

definition current_attempt_context :: "txn_context \<Rightarrow> attempt" where
  "current_attempt_context s = last (tc_attempts s)"

definition set_current :: "attempt \<Rightarrow> txn_context \<Rightarrow> txn_context" where
  "set_current a s = s\<lparr> tc_attempts := butlast (tc_attempts s) @ [a] \<rparr>"

definition get_transaction_result :: "txn_context \<Rightarrow> bool" where
  "get_transaction_result s \<longleftrightarrow> at_state (current_attempt_context s) = state_COMPLETED"

definition cleanup_add_attempt :: "txn_context \<Rightarrow> txn_context" where
  "cleanup_add_attempt s = s\<lparr> tc_cleanup := tc_cleanup s @ [number s] \<rparr>"

definition rollback_current ::
  "txn_env \<Rightarrow> txn_context \<Rightarrow> ((txn_exception + unit) \<times> txn_context) option" where
  "rollback_current env s =
     map_option (\<lambda>(r, a). (r, set_current a s))
       (rollback (te_attempt env (number s)) (current_attempt_context s))"

subsection \<open>The end of an attempt\<close>

text \<open>The arguments of the completion callback: an exception, a result.\<close>

type_synonym completion = "failure_type option \<times> bool option"

definition handle_failed_end ::
  "transaction_operation_failed \<Rightarrow> txn_context \<Rightarrow> completion \<times> txn_context" where
  "handle_failed_end er s =
     (let s' = cleanup_add_attempt s
      in if tof_retry er then ((None, None), s')
         else case get_final_exception er of
           None \<Rightarrow> ((None, Some (get_transaction_result s')), s')
         | Some f \<Rightarrow> ((Some f, None), s'))"

text \<open>
  \<^verbatim>\<open>handle_error\<close> for a \<^verbatim>\<open>transaction_operation_failed\<close>. A violated assertion has no
  result.
\<close>

definition handle_failed ::
  "txn_env \<Rightarrow> transaction_operation_failed \<Rightarrow> txn_context \<Rightarrow> (completion \<times> txn_context) option" where
  "handle_failed env er s =
     (if \<not> tof_rollback er then Some (handle_failed_end er s)
      else case rollback_current env s of
        None \<Rightarrow> None
      | Some (Inl _, s1) \<Rightarrow>
          (case get_final_exception er of
             None \<Rightarrow> None
           | Some f \<Rightarrow> Some ((Some f, None), cleanup_add_attempt s1))
      | Some (Inr _, s1) \<Rightarrow>
          (if tof_retry er \<and> te_expired env (number s)
           then Some ((get_final_exception (expired (no_rollback (op_failed FAIL_EXPIRY))), None), s1)
           else Some (handle_failed_end er s1)))"

definition handle_error :: "txn_env \<Rightarrow> thrown \<Rightarrow> txn_context \<Rightarrow> (completion \<times> txn_context) option" where
  "handle_error env err s =
     (case err of
        Thrown (Op_exception c) \<Rightarrow> handle_failed env (with_cause c (op_failed FAIL_OTHER)) s
      | Thrown (Op_failed er) \<Rightarrow> handle_failed env er s
      | _ \<Rightarrow>
          map_option (\<lambda>(_, s1). ((get_final_exception (op_failed FAIL_OTHER), None), cleanup_add_attempt s1))
            (rollback_current env s))"

definition finalize :: "txn_env \<Rightarrow> txn_context \<Rightarrow> (completion \<times> txn_context) option" where
  "finalize env s =
     (case existing_error False (current_attempt_context s) of
        None \<Rightarrow> None
      | Some (Inl e, a) \<Rightarrow> handle_error env (Thrown e) (set_current a s)
      | Some (Inr _, a) \<Rightarrow>
          (if at_done a then Some ((None, Some (get_transaction_result s)), s)
           else case commit_cb (te_attempt env (number s)) a of
             None \<Rightarrow> None
           | Some (Inl e, a') \<Rightarrow> handle_error env (Thrown e) (set_current a' s)
           | Some (Inr _, a') \<Rightarrow>
               Some ((None, Some (get_transaction_result (set_current a' s))), set_current a' s)))"

subsection \<open>The run\<close>

text \<open>How a run ends otherwise: with a \<^verbatim>\<open>transaction_exception\<close>, or with another exception.\<close>

datatype run_exception = Transaction_exception failure_type | Escaped txn_exception

text \<open>The handler of \<^verbatim>\<open>wrap_run\<close>: neither a result nor an exception means another attempt.\<close>

definition finalize_handler :: "completion \<Rightarrow> run_exception + bool option" where
  "finalize_handler = (\<lambda>(err, result).
     case result of
       Some b \<Rightarrow> Inr (Some b)
     | None \<Rightarrow> (case err of Some f \<Rightarrow> Inl (Transaction_exception f) | None \<Rightarrow> Inr None))"

definition run_attempt ::
  "txn_env \<Rightarrow> txn_context \<Rightarrow> ((run_exception + bool option) \<times> txn_context) option" where
  "run_attempt env s =
     map_option (map_prod finalize_handler id)
       (case te_logic env (number s) (current_attempt_context s) of
          None \<Rightarrow> None
        | Some (Inl x, a) \<Rightarrow> handle_error env x (set_current a s)
        | Some (Inr _, a) \<Rightarrow> finalize env (set_current a s))"

primrec wrap_run :: "nat \<Rightarrow> txn_env \<Rightarrow> txn_context \<Rightarrow> ((run_exception + bool) \<times> txn_context) option" where
  "wrap_run 0 env s =
     Some (if tc_attempts s = [] then Inl (Escaped Std_exception)
           else Inr (get_transaction_result s), s)"
| "wrap_run (Suc attempts) env s =
     (case new_attempt_context env s of
        (Inl e, s1) \<Rightarrow> Some (Inl (Escaped e), s1)
      | (Inr _, s1) \<Rightarrow>
          (case run_attempt env s1 of
             None \<Rightarrow> None
           | Some (Inl e, s2) \<Rightarrow> Some (Inl e, s2)
           | Some (Inr (Some b), s2) \<Rightarrow> Some (Inr b, s2)
           | Some (Inr None, s2) \<Rightarrow> wrap_run attempts env s2))"

definition max_attempts :: nat where
  "max_attempts = 1000"

definition run :: "txn_env \<Rightarrow> ((run_exception + bool) \<times> txn_context) option" where
  "run env = wrap_run max_attempts env new_txn_context"

text \<open>
  The asynchronous \<^verbatim>\<open>run\<close>: a thread that handles \<^verbatim>\<open>transaction_exception\<close> only, so that any
  other exception ends the process.
\<close>

definition run_async :: "txn_env \<Rightarrow> completion option" where
  "run_async env =
     (case run env of
        Some (Inr b, _) \<Rightarrow> Some (None, Some b)
      | Some (Inl (Transaction_exception f), _) \<Rightarrow> Some (Some f, None)
      | _ \<Rightarrow> None)"

subsection \<open>Effects of a piece of transaction code\<close>

text \<open>A relation that holds between the states before and after every run that returns.\<close>

definition effect :: "(attempt \<Rightarrow> attempt \<Rightarrow> bool) \<Rightarrow> 'a attempt_code \<Rightarrow> bool" where
  "effect R m \<longleftrightarrow> (\<forall>s r s'. m s = Some (r, s') \<longrightarrow> R s s')"

named_theorems effect_intros

lemma effectI [effect_intros]: "(\<And>s. R s (f s)) \<Longrightarrow> effect R (tx_modify f)"
  by (simp add: effect_def tx_modify_def)

lemma effectD: "effect R m \<Longrightarrow> m s = Some (r, s') \<Longrightarrow> R s s'"
  by (simp add: effect_def)

lemma effect_state: "(\<And>s. effect R (m s)) \<Longrightarrow> effect R (\<lambda>s. m s s)"
  by (simp add: effect_def)

locale attempt_effect =
  fixes R :: "attempt \<Rightarrow> attempt \<Rightarrow> bool"
  assumes stays: "R s s"
    and composes: "R s t \<Longrightarrow> R t u \<Longrightarrow> R s u"
begin

lemma effect_return [effect_intros]: "effect R (tx_return x)"
  by (simp add: effect_def tx_return_def stays)

lemma effect_throw [effect_intros]: "effect R (tx_throw e)"
  by (simp add: effect_def tx_throw_def stays)

lemma effect_bind [effect_intros]:
  "effect R m \<Longrightarrow> (\<And>x. effect R (f x)) \<Longrightarrow> effect R (tx_bind m f)"
  unfolding effect_def by (blast elim: tx_bind_SomeE intro: composes)

lemma effect_then [effect_intros]: "effect R m \<Longrightarrow> effect R k \<Longrightarrow> effect R (tx_then m k)"
  unfolding tx_then_def by (rule effect_bind)

lemma effect_catch [effect_intros]:
  "effect R m \<Longrightarrow> (\<And>e. effect R (h e)) \<Longrightarrow> effect R (tx_catch m h)"
  unfolding effect_def by (blast elim: tx_catch_SomeE intro: composes)

lemma effect_retry_op_exp [effect_intros]:
  assumes "effect R m"
  shows "effect R (retry_op_exp m)"
proof -
  have "effect R (retry_op_exponential_backoff n m)" for n
  proof (induction n)
    case (Suc n)
    show ?case unfolding effect_def
    proof (intro allI impI)
      fix s r s'
      assume run: "retry_op_exponential_backoff (Suc n) m s = Some (r, s')"
      then obtain r1 t where m: "m s = Some (r1, t)" by (auto split: option.splits)
      then have "R s t" using assms effectD by blast
      then show "R s s'" using run m effectD [OF Suc] composes by (auto split: if_splits)
    qed
  qed (simp add: effect_def stays)
  then show ?thesis by (simp add: retry_op_exp_def)
qed

lemma effect_throw_if [effect_intros]: "effect R (throw_if ec)"
  by (simp add: throw_if_def effect_return effect_throw split: option.split)

lemma effect_wrap [effect_intros]: "effect R (wrap_operation_future ign res)"
  by (auto simp: effect_def wrap_operation_future_def stays split: option.splits)

lemma effect_atr_id_value [effect_intros]: "effect R atr_id_value"
  by (auto simp: effect_def atr_id_value_def stays split: option.splits)

end

text \<open>The log grows by events of a kind; the record of the attempt stays where it is.\<close>

definition log_grows :: "(attempt_event \<Rightarrow> bool) \<Rightarrow> attempt \<Rightarrow> attempt \<Rightarrow> bool" where
  "log_grows P s s' \<longleftrightarrow> (\<exists>l. at_log s' = at_log s @ l \<and> list_all P l) \<and> at_atr_id s' = at_atr_id s"

interpretation log_effect: attempt_effect "log_grows P" for P :: "attempt_event \<Rightarrow> bool"
  by unfold_locales (auto simp: log_grows_def)

lemma log_grows_same [simp]: "at_log s' = at_log s \<Longrightarrow> at_atr_id s' = at_atr_id s \<Longrightarrow> log_grows P s s'"
  by (simp add: log_grows_def)

lemma log_grows_mono: "log_grows P s s' \<Longrightarrow> (\<And>e. P e \<Longrightarrow> Q e) \<Longrightarrow> log_grows Q s s'"
  by (auto simp: log_grows_def list_all_iff)

lemma log_hook [effect_intros]: "effect (log_grows P) (wait_for_hook env)"
  by (simp add: effect_def wait_for_hook_def)

lemma log_expiry [effect_intros]:
  "effect (log_grows P) (has_expired_client_side env)"
  "effect (log_grows P) (error_if_expired_and_not_in_overtime env)"
  "effect (log_grows P) (check_expiry_during_commit_or_rollback env)"
  by (simp_all add: effect_def expiry_defs tx_defs)

lemma log_execute [effect_intros]:
  "(\<And>resp. P (Atr_mutated req resp)) \<Longrightarrow> effect (log_grows P) (execute_mutate_in env req)"
  by (simp add: effect_def execute_mutate_in_def log_grows_def Let_def)

lemma log_unstage [effect_intros]:
  "(\<And>evs. P (Unstaged b evs)) \<Longrightarrow> effect (log_grows P) (unstage_phase env b)"
  unfolding effect_def log_grows_def using unstage_phase_cases by (fastforce simp: list_all_iff)

subsection \<open>What a rollback and a commit write\<close>

primrec rolls_back :: "attempt_env \<Rightarrow> attempt_event \<Rightarrow> bool" where
  "rolls_back env (Atr_mutated req resp) \<longleftrightarrow> (\<exists>i q. req = atr_abort_request env i q)"
| "rolls_back env (Atr_read path resp) \<longleftrightarrow> False"
| "rolls_back env (Unstaged committing evs) \<longleftrightarrow> \<not> committing"
| "rolls_back env (Doc_mutated dreq resp) \<longleftrightarrow> False"
| "rolls_back env (Doc_read i lresp) \<longleftrightarrow> False"

primrec rollback_event :: "attempt_env \<Rightarrow> attempt_event \<Rightarrow> bool" where
  "rollback_event env (Atr_mutated req resp) \<longleftrightarrow>
     (\<exists>i q. req = atr_abort_request env i q) \<or> (\<exists>i. req = atr_remove_request env i)"
| "rollback_event env (Atr_read path resp) \<longleftrightarrow> False"
| "rollback_event env (Unstaged committing evs) \<longleftrightarrow> \<not> committing"
| "rollback_event env (Doc_mutated dreq resp) \<longleftrightarrow> False"
| "rollback_event env (Doc_read i lresp) \<longleftrightarrow> False"

lemma rollback_event_no_evidence: "rollback_event env e \<Longrightarrow> \<not> atr_evidence env e"
  by (cases e) (auto simp: atr_abort_request_def atr_remove_request_def atr_commit_request_def)

lemma commit_event_no_rollback: "commit_event env e \<Longrightarrow> \<not> rolls_back env e"
  by (cases e) (auto simp: atr_abort_request_def atr_commit_request_def)

lemma remove_request_no_abort [simp]: "atr_remove_request env i \<noteq> atr_abort_request env j q"
  by (simp add: atr_remove_request_def atr_abort_request_def)

lemma log_abort_errors [effect_intros]:
  "effect (log_grows P) (atr_abort_error ec)" "effect (log_grows P) (atr_rollback_complete_error ec)"
  by (auto simp: effect_def atr_abort_error_def atr_rollback_complete_error_def tx_defs
      split: if_splits error_class.splits)

lemma atr_abort_log: "effect (log_grows (rollback_event env)) (atr_abort env)"
proof -
  have "effect (log_grows (rollback_event env)) (\<lambda>s. tx_bind (execute_mutate_in env (atr_abort_request env i (at_queue s)))
      (\<lambda>resp. tx_bind (wrap_operation_future True (create_from_subdoc_response resp)) (\<lambda>_.
         tx_then (tx_modify (\<lambda>s. s\<lparr> at_state := state_ABORTED \<rparr>))
         (tx_bind (wait_for_hook env) throw_if))) s)" for i
    by (rule effect_state, intro effect_intros) auto
  moreover have "effect (log_grows (rollback_event env))
      (case e of Client_error ec \<Rightarrow> atr_abort_error ec | _ \<Rightarrow> tx_throw e)" for e
    by (cases e) (simp_all add: effect_intros)
  ultimately show ?thesis unfolding atr_abort_def by (intro effect_intros)
qed

lemma atr_rollback_complete_log: "effect (log_grows (rollback_event env)) (atr_rollback_complete env)"
proof -
  have "effect (log_grows (rollback_event env))
      (case e of Client_error ec \<Rightarrow> atr_rollback_complete_error ec | _ \<Rightarrow> tx_throw e)" for e
    by (cases e) (simp_all add: effect_intros)
  then show ?thesis unfolding atr_rollback_complete_def by (intro effect_intros) auto
qed

lemma rollback_log: "effect (log_grows (rollback_event env)) (rollback env)"
proof -
  let ?E = "effect (log_grows (rollback_event env))"
  have "?E (case e of Client_error FAIL_HARD \<Rightarrow> tx_throw (Op_failed (no_rollback (op_failed FAIL_HARD)))
      | Client_error _ \<Rightarrow> tx_return () | _ \<Rightarrow> tx_throw e)" for e
    by (simp add: effect_intros split: txn_exception.split error_class.split)
  then have "?E (tx_catch (tx_then (retry_op_exp (atr_abort env))
      (tx_then (unstage_phase env False) (retry_op_exp (atr_rollback_complete env))))
      (\<lambda>e. case e of Client_error FAIL_HARD \<Rightarrow> tx_throw (Op_failed (no_rollback (op_failed FAIL_HARD)))
        | Client_error _ \<Rightarrow> tx_return () | _ \<Rightarrow> tx_throw e))"
    by (intro effect_intros atr_abort_log atr_rollback_complete_log) auto
  then have "?E (rollback_kv env)" unfolding rollback_kv_def
    by (intro effect_intros) (auto simp: effect_def split: if_splits)
  moreover have "?E (rollback_with_query env)"
    by (auto simp: effect_def rollback_with_query_def Let_def split: option.splits query_failure.splits)
  ultimately show ?thesis by (auto simp: effect_def rollback_def split: if_splits)
qed

text \<open>The commit keeps the record of the attempt and writes nothing that undoes it.\<close>

lemma atr_complete_log: "effect (log_grows (\<lambda>e. \<not> rolls_back env e)) (atr_complete env)"
proof -
  have "effect (log_grows (\<lambda>e. \<not> rolls_back env e)) (case e of
      Client_error FAIL_HARD \<Rightarrow> tx_throw (Op_failed (failed_post_commit (no_rollback (op_failed FAIL_HARD))))
    | Client_error _ \<Rightarrow> tx_return () | _ \<Rightarrow> tx_throw e)" for e
    by (simp add: effect_intros split: txn_exception.split error_class.split)
  then show ?thesis unfolding atr_complete_def by (intro effect_intros) auto
qed

lemma commit_log: "effect (log_grows (\<lambda>e. \<not> rolls_back env e)) (commit env)"
proof -
  let ?E = "effect (log_grows (\<lambda>e. \<not> rolls_back env e))"
  have "?E (atr_commit env False)"
    using atr_commit_cases commit_event_no_rollback
    by (fastforce simp: effect_def log_grows_def phase_one_def list_all_iff)
  then have "?E (tx_then (retry_op_exp (atr_commit env False)) (tx_then (unstage_phase env True)
      (tx_then (atr_complete env) (tx_modify (\<lambda>s. s\<lparr> at_done := True \<rparr>)))))"
    by (intro effect_intros atr_complete_log) auto
  moreover have "?E (check_expiry_pre_commit env)"
    by (simp add: effect_def expiry_defs tx_defs)
  ultimately have "?E (commit_kv env)" unfolding commit_kv_def
    by (intro effect_intros) (auto simp: effect_def tx_throw_def split: if_splits)
  moreover have "?E (commit_with_query env)"
    by (auto simp: effect_def commit_with_query_def Let_def split: option.splits query_failure.splits)
  moreover have "?E (existing_error b)" for b
    by (auto simp: effect_def existing_error_def split: if_splits option.splits)
  ultimately show ?thesis unfolding commit_def
    by (intro effect_intros) (auto simp: effect_def split: if_splits)
qed

lemma commit_cb_log: "effect (log_grows (\<lambda>e. \<not> rolls_back env e)) (commit_cb env)"
proof -
  have "effect (log_grows (\<lambda>e. \<not> rolls_back env e))
      (case e of Op_failed f \<Rightarrow> tx_throw e | _ \<Rightarrow> tx_throw (Op_failed (op_failed FAIL_OTHER)))" for e
    by (simp add: effect_intros split: txn_exception.split)
  then show ?thesis unfolding commit_cb_def by (intro effect_intros commit_log)
qed

lemma commit_cb_value: "commit_cb env s = Some (Inr x, s') \<Longrightarrow> commit env s = Some (Inr (), s')"
  unfolding commit_cb_def
  by (elim tx_catch_SomeE) (auto simp: tx_throw_def split: txn_exception.splits)

lemma commit_cb_error:
  assumes "commit_cb env s = Some (Inl e, s')" and "\<not> at_query_mode s" and "at_errors s = []"
  shows "\<exists>f l. e = Op_failed f \<and> at_log s' = at_log s @ l
    \<and> ((no_hooks env \<longrightarrow> \<not> has_evidence env l) \<and> tof_to_raise f \<noteq> FAILED_POST_COMMIT
       \<or> has_evidence env l \<and> (no_cancels env \<longrightarrow> post_error True (Op_failed f)))"
proof -
  obtain f where f: "e = Op_failed f" using assms(1) unfolding commit_cb_def
    by (elim tx_catch_SomeE) (auto simp: tx_throw_def split: txn_exception.splits)
  obtain e1 where e1: "commit env s = Some (Inl e1, s')"
    "e1 = Op_failed f \<or> (\<forall>g. e1 \<noteq> Op_failed g) \<and> f = op_failed FAIL_OTHER"
    using assms(1) unfolding f by (rule commit_cb_cases) auto
  obtain l where l: "at_log s' = at_log s @ l"
    "stopped_early env l (Inl e1) \<or> went_through env (at_queue s) l (Inl e1)"
    using commit_cases [OF e1(1) assms(2,3)] by blast
  from l(2) show ?thesis
  proof
    assume "stopped_early env l (Inl e1)"
    then have "no_hooks env \<longrightarrow> \<not> has_evidence env l" "tof_to_raise f \<noteq> FAILED_POST_COMMIT"
      using e1(2) by (auto simp: stopped_early_def failed_well_def)
    then show ?thesis using f l(1) by blast
  next
    assume "went_through env (at_queue s) l (Inl e1)"
    then have "has_evidence env l" "no_cancels env \<longrightarrow> post_error True e1"
      by (auto simp: went_through_def)
    moreover from this(2) have "no_cancels env \<longrightarrow> post_error True (Op_failed f)"
      using e1(2) by (auto simp: post_error_def)
    ultimately show ?thesis using f l(1) by blast
  qed
qed

subsection \<open>What the handling of an error does\<close>

lemma set_current_simps [simp]:
  "tc_attempts (set_current a s) = butlast (tc_attempts s) @ [a]"
  "current_attempt_context (set_current a s) = a"
  "tc_delay (set_current a s) = tc_delay s" "set_current b (set_current a s) = set_current b s"
  "tc_attempts s \<noteq> [] \<Longrightarrow> number (set_current a s) = number s"
  by (simp_all add: set_current_def current_attempt_context_def)

lemma cleanup_add_attempt_simps [simp]:
  "tc_attempts (cleanup_add_attempt s) = tc_attempts s" "tc_delay (cleanup_add_attempt s) = tc_delay s"
  by (simp_all add: cleanup_add_attempt_def)

lemma get_final_exception_None [simp]: "get_final_exception f = None \<longleftrightarrow> tof_to_raise f = FAILED_POST_COMMIT"
  by (simp add: get_final_exception_def split: final_error.split)

text \<open>
  Only the current attempt changes; it changes only by a rollback, for which the error has to ask.
\<close>

definition only_rolled_back :: "txn_env \<Rightarrow> txn_context \<Rightarrow> txn_context \<Rightarrow> bool" where
  "only_rolled_back env s s' \<longleftrightarrow> tc_delay s' = tc_delay s \<and> (\<exists>a. tc_attempts s' = butlast (tc_attempts s) @ [a]
     \<and> log_grows (rollback_event (te_attempt env (number s))) (current_attempt_context s) a)"

lemma rollback_current_effect:
  "rollback_current env s = Some (r, s') \<Longrightarrow> only_rolled_back env s s'"
  using effectD [OF rollback_log [of "te_attempt env (number s)"], of "current_attempt_context s"]
  by (auto simp: rollback_current_def only_rolled_back_def)

lemma only_rolled_back_same: "tc_attempts s \<noteq> [] \<Longrightarrow> only_rolled_back env s s"
  by (auto simp: only_rolled_back_def current_attempt_context_def intro!: exI [of _ "last (tc_attempts s)"])

lemma only_rolled_back_cleanup [simp]:
  "only_rolled_back env s (cleanup_add_attempt s') \<longleftrightarrow> only_rolled_back env s s'"
  by (simp add: only_rolled_back_def)

lemma handle_failed_end_attempts [simp]: "only_rolled_back env s (snd (handle_failed_end er s')) \<longleftrightarrow> only_rolled_back env s s'"
  by (simp add: handle_failed_end_def Let_def split: option.split)

lemma handle_failed_end_result:
  "snd (fst (handle_failed_end er s)) \<noteq> None \<longleftrightarrow> \<not> tof_retry er \<and> tof_to_raise er = FAILED_POST_COMMIT"
  by (cases "tof_to_raise er") (auto simp: handle_failed_end_def get_final_exception_def Let_def)

lemma handle_failed_end_attempts_eq [simp]: "tc_attempts (snd (handle_failed_end er s)) = tc_attempts s"
  by (simp add: handle_failed_end_def Let_def split: option.split)

lemma handle_failed_cases:
  assumes "handle_failed env er s = Some (c, s')" and "tc_attempts s \<noteq> []"
  shows "only_rolled_back env s s' \<and> (snd c \<noteq> None \<longrightarrow> tof_to_raise er = FAILED_POST_COMMIT)
    \<and> (\<not> tof_rollback er \<longrightarrow> tc_attempts s' = tc_attempts s
       \<and> (snd c \<noteq> None \<longleftrightarrow> \<not> tof_retry er \<and> tof_to_raise er = FAILED_POST_COMMIT))"
proof (cases "tof_rollback er")
  case False
  then have "c = fst (handle_failed_end er s)" "s' = snd (handle_failed_end er s)"
    using assms(1) by (simp_all add: handle_failed_def)
  then show ?thesis using handle_failed_end_result [of er s] only_rolled_back_same [OF assms(2)] by simp
next
  case True
  then obtain r s1 where r: "rollback_current env s = Some (r, s1)"
    using assms(1) by (auto simp: handle_failed_def split: option.splits)
  note rb = rollback_current_effect [OF r]
  show ?thesis
  proof (cases r)
    case (Inl e)
    then show ?thesis using assms(1) True r rb by (auto simp: handle_failed_def split: option.splits)
  next
    case (Inr x)
    then have "snd c = None \<and> s' = s1 \<or> c = fst (handle_failed_end er s1) \<and> s' = snd (handle_failed_end er s1)"
      using assms(1) True r by (auto simp: handle_failed_def split: if_splits)
    then show ?thesis using True rb handle_failed_end_result [of er s1] by auto
  qed
qed

lemma handle_error_cases:
  assumes "handle_error env err s = Some (c, s')" and "tc_attempts s \<noteq> []"
  shows "only_rolled_back env s s'
    \<and> (snd c \<noteq> None \<longrightarrow> (\<exists>er. err = Thrown (Op_failed er) \<and> tof_to_raise er = FAILED_POST_COMMIT))"
proof -
  consider c' where "handle_failed env (with_cause c' (op_failed FAIL_OTHER)) s = Some (c, s')"
    | er where "err = Thrown (Op_failed er)" "handle_failed env er s = Some (c, s')"
    | r s1 where "rollback_current env s = Some (r, s1)" "snd c = None" "s' = cleanup_add_attempt s1"
    using assms(1) by (auto simp: handle_error_def split: thrown.splits txn_exception.splits)
  then show ?thesis
  proof cases
    case (1 c')
    then show ?thesis using handle_failed_cases [OF 1 assms(2)] by (simp add: tof_builders)
  next
    case (2 er)
    then show ?thesis using handle_failed_cases [OF 2(2) assms(2)] by simp
  next
    case (3 r s1)
    then show ?thesis using rollback_current_effect [OF 3(1)] by simp
  qed
qed

subsection \<open>One attempt\<close>

text \<open>
  The application in key-value mode: it leaves the end of the attempt to the run, its operations
  neither commit nor roll back, and no error of an operation is one after the commit.
\<close>

definition kv_logic :: "txn_env \<Rightarrow> bool" where
  "kv_logic env \<longleftrightarrow> (\<forall>n r a. te_logic env n new_attempt = Some (r, a) \<longrightarrow>
     \<not> at_query_mode a \<and> \<not> at_done a
     \<and> list_all (\<lambda>e. \<not> atr_evidence (te_attempt env n) e \<and> \<not> rolls_back (te_attempt env n) e) (at_log a)
     \<and> list_all (\<lambda>f. tof_to_raise f \<noteq> FAILED_POST_COMMIT) (at_errors a)
     \<and> (\<forall>f. r = Inl (Thrown (Op_failed f)) \<longrightarrow> tof_to_raise f \<noteq> FAILED_POST_COMMIT))"

text \<open>The attempt was committed, as an answer of the server showed.\<close>

definition committed :: "txn_env \<Rightarrow> txn_context \<Rightarrow> nat \<Rightarrow> bool" where
  "committed env s i \<longleftrightarrow> has_evidence (te_attempt env i) (at_log (tc_attempts s ! i))"

definition undisturbed :: "txn_env \<Rightarrow> bool" where
  "undisturbed env \<longleftrightarrow> (\<forall>n. no_hooks (te_attempt env n) \<and> no_cancels (te_attempt env n))"

definition undone :: "txn_env \<Rightarrow> txn_context \<Rightarrow> nat \<Rightarrow> bool" where
  "undone env s i \<longleftrightarrow> (\<exists>e \<in> set (at_log (tc_attempts s ! i)). rolls_back (te_attempt env i) e)"

lemma merge_loop_raise:
  "list_all (\<lambda>f. tof_to_raise f \<noteq> x) (a # es) \<Longrightarrow> tof_to_raise (merge_loop a es) \<noteq> x"
  by (induction es arbitrary: a) (auto simp: Let_def)

lemma existing_error_cases:
  assumes "existing_error False a = Some (r, a')"
  shows "a' = a \<and> (at_errors a = [] \<and> r = Inr () \<or> at_errors a \<noteq> [] \<and> (\<exists>f. r = Inl (Op_failed f) \<and>
    (list_all (\<lambda>f. tof_to_raise f \<noteq> FAILED_POST_COMMIT) (at_errors a) \<longrightarrow> tof_to_raise f \<noteq> FAILED_POST_COMMIT)))"
  using assms merge_loop_raise [of FAILED_POST_COMMIT "hd (at_errors a)" "at_errors a"]
  by (cases "at_errors a") (auto simp: existing_error_def merge_errors_def Let_def simp del: merge_loop.simps)

text \<open>How an attempt stands at its end, for the result that the loop gets.\<close>

definition well_ended :: "attempt_env \<Rightarrow> attempt \<Rightarrow> run_exception + bool option \<Rightarrow> bool" where
  "well_ended E a r \<longleftrightarrow>
     (has_evidence E (at_log a) \<longrightarrow> (\<exists>b. r = Inr (Some b)) \<and> list_all (\<lambda>e. \<not> rolls_back E e) (at_log a))
     \<and> ((\<exists>b. r = Inr (Some b)) \<and> has_atr a \<longrightarrow> has_evidence E (at_log a))"

lemma finalize_handler_result [simp]: "(\<exists>b. finalize_handler c = Inr (Some b)) \<longleftrightarrow> snd c \<noteq> None"
  by (auto simp: finalize_handler_def split: prod.split option.split)

lemma log_grows_evidence:
  "log_grows (rollback_event E) a a' \<Longrightarrow> has_evidence E (at_log a') \<longleftrightarrow> has_evidence E (at_log a)"
  using rollback_event_no_evidence by (fastforce simp: log_grows_def list_all_iff)

lemma failed_attempt_ended:
  assumes "handle_error env err (set_current a s) = Some (c, s')" and "tc_attempts s \<noteq> []"
    and "\<not> has_evidence (te_attempt env (number s)) (at_log a)"
    and "\<forall>f. err = Thrown (Op_failed f) \<longrightarrow> tof_to_raise f \<noteq> FAILED_POST_COMMIT"
  shows "\<exists>a'. tc_attempts s' = butlast (tc_attempts s) @ [a'] \<and> tc_delay s' = tc_delay s
    \<and> well_ended (te_attempt env (number s)) a' (finalize_handler c)"
proof -
  have *: "only_rolled_back env (set_current a s) s'" "snd c = None"
    using handle_error_cases [OF assms(1)] assms(4) by auto
  then obtain a' where a': "tc_attempts s' = butlast (tc_attempts s) @ [a']" "tc_delay s' = tc_delay s"
    "log_grows (rollback_event (te_attempt env (number s))) a a'"
    using assms(2) by (auto simp: only_rolled_back_def)
  have "\<not> has_evidence (te_attempt env (number s)) (at_log a')" using log_grows_evidence [OF a'(3)] assms(3) by blast
  then have "well_ended (te_attempt env (number s)) a' (finalize_handler c)"
    using *(2) by (simp add: well_ended_def)
  then show ?thesis using a' by blast
qed

lemma commit_attempt_ended:
  assumes "commit_cb (te_attempt env (number s)) a = Some (r, a')" and "tc_attempts s \<noteq> []"
    and "\<not> at_query_mode a" and "\<not> at_done a" and "at_errors a = []" and und: "undisturbed env"
    and a: "list_all (\<lambda>e. \<not> atr_evidence (te_attempt env (number s)) e \<and> \<not> rolls_back (te_attempt env (number s)) e) (at_log a)"
    and run: "(case r of Inl e \<Rightarrow> handle_error env (Thrown e) (set_current a' s)
      | Inr _ \<Rightarrow> Some ((None, Some b), set_current a' s)) = Some (c, s')"
  shows "\<exists>a'. tc_attempts s' = butlast (tc_attempts s) @ [a'] \<and> tc_delay s' = tc_delay s
    \<and> well_ended (te_attempt env (number s)) a' (finalize_handler c)"
proof -
  let ?E = "te_attempt env (number s)"
  have grows: "log_grows (\<lambda>e. \<not> rolls_back ?E e) a a'" using effectD [OF commit_cb_log assms(1)] .
  then have clean: "list_all (\<lambda>e. \<not> rolls_back ?E e) (at_log a')"
    using a by (auto simp: log_grows_def list_all_iff)
  show ?thesis
  proof (cases r)
    case (Inr x)
    have "commit ?E a = Some (Inr (), a')" using commit_cb_value assms(1) Inr by blast
    then obtain l where "at_log a' = at_log a @ l" "\<not> has_atr a \<or> went_through ?E (at_queue a) l (Inr ())"
      using commit_cases [OF _ assms(3,5)] assms(4) by blast
    moreover have "has_atr a' = has_atr a" using grows by (simp add: has_atr_def log_grows_def)
    ultimately have "has_atr a' \<longrightarrow> has_evidence ?E (at_log a')" by (auto simp: went_through_def)
    then show ?thesis using run Inr clean assms(2)
      by (auto simp: well_ended_def finalize_handler_def)
  next
    case (Inl e)
    obtain f l where f: "e = Op_failed f" "at_log a' = at_log a @ l" "\<not> has_evidence ?E l \<and> tof_to_raise f \<noteq> FAILED_POST_COMMIT
       \<or> has_evidence ?E l \<and> post_error True (Op_failed f)"
      using commit_cb_error [of ?E a e a'] assms(1,3,5) Inl und by (auto simp: undisturbed_def)
    have h: "handle_error env (Thrown (Op_failed f)) (set_current a' s) = Some (c, s')" using run Inl f(1) by simp
    show ?thesis
    proof (cases "has_evidence ?E l")
      case True
      then have "\<not> tof_rollback f" "\<not> tof_retry f" "tof_to_raise f = FAILED_POST_COMMIT"
        using f(3) by (auto simp: post_error_def)
      then have "tc_attempts s' = butlast (tc_attempts s) @ [a']" "tc_delay s' = tc_delay s" "snd c \<noteq> None"
        using h handle_failed_cases [of env f "set_current a' s" c s']
        by (auto simp: handle_error_def only_rolled_back_def)
      moreover have "has_evidence ?E (at_log a')" using True f(2) by auto
      ultimately show ?thesis using clean by (auto simp: well_ended_def)
    next
      case False
      then have "\<not> has_evidence ?E (at_log a')" using a f(2) by (auto simp: list_all_iff)
      then show ?thesis using failed_attempt_ended [OF h assms(2)] f(3) False by blast
    qed
  qed
qed

lemma run_attempt_SomeE:
  assumes "run_attempt env s = Some (r, s')"
  obtains x a c where "te_logic env (number s) (current_attempt_context s) = Some (x, a)"
    "(case x of Inl x \<Rightarrow> handle_error env x (set_current a s) | Inr _ \<Rightarrow> finalize env (set_current a s)) = Some (c, s')"
    "r = finalize_handler c"
proof -
  obtain x a where l: "te_logic env (number s) (current_attempt_context s) = Some (x, a)"
    using assms by (auto simp: run_attempt_def split: option.splits)
  then show ?thesis using assms that [OF l] by (auto simp: run_attempt_def split: sum.splits)
qed

lemma run_attempt_ended:
  assumes "run_attempt env s = Some (r, s')" and s: "tc_attempts s = as @ [new_attempt]"
    and "kv_logic env" and "undisturbed env"
  shows "\<exists>a'. tc_attempts s' = as @ [a'] \<and> tc_delay s' = tc_delay s \<and> well_ended (te_attempt env (length as)) a' r"
proof -
  have n: "number s = length as" "tc_attempts s \<noteq> []" "butlast (tc_attempts s) = as" using s by simp_all
  obtain x a c where l: "te_logic env (length as) new_attempt = Some (x, a)"
    and c: "(case x of Inl x \<Rightarrow> handle_error env x (set_current a s) | Inr _ \<Rightarrow> finalize env (set_current a s)) = Some (c, s')"
      "r = finalize_handler c"
    by (rule run_attempt_SomeE [OF assms(1)]) (use s in \<open>simp add: current_attempt_context_def\<close>)
  have kv: "\<not> at_query_mode a" "\<not> at_done a"
    "list_all (\<lambda>e. \<not> atr_evidence (te_attempt env (length as)) e \<and> \<not> rolls_back (te_attempt env (length as)) e) (at_log a)"
    "list_all (\<lambda>f. tof_to_raise f \<noteq> FAILED_POST_COMMIT) (at_errors a)"
    "\<forall>f. x = Inl (Thrown (Op_failed f)) \<longrightarrow> tof_to_raise f \<noteq> FAILED_POST_COMMIT"
    using assms(3) l unfolding kv_logic_def by blast+
  then have none: "\<not> has_evidence (te_attempt env (length as)) (at_log a)" by (auto simp: list_all_iff)
  show ?thesis
  proof (cases x)
    case (Inl e)
    then show ?thesis using failed_attempt_ended [of env e a s c s'] c n none kv(5) by simp
  next
    case (Inr y)
    then have fin: "finalize env (set_current a s) = Some (c, s')" using c by simp
    then obtain er a1 where er: "existing_error False a = Some (er, a1)"
      by (auto simp: finalize_def split: option.splits)
    note ex = existing_error_cases [OF er]
    show ?thesis
    proof (cases "at_errors a = []")
      case True
      then have "er = Inr ()" "a1 = a" using ex by auto
      then obtain q a2 where q: "commit_cb (te_attempt env (length as)) a = Some (q, a2)" "(case q of
          Inl e \<Rightarrow> handle_error env (Thrown e) (set_current a2 s)
        | Inr _ \<Rightarrow> Some ((None, Some (get_transaction_result (set_current a2 s))), set_current a2 s)) = Some (c, s')"
        using fin er kv(2) n by (auto simp: finalize_def split: option.splits sum.splits)
      then show ?thesis using commit_attempt_ended [of env s a q a2 _ c s'] kv True assms(4) n c(2) by simp
    next
      case False
      then obtain f where "er = Inl (Op_failed f)" "tof_to_raise f \<noteq> FAILED_POST_COMMIT" "a1 = a"
        using ex kv(4) by auto
      then show ?thesis using failed_attempt_ended [of env "Thrown (Op_failed f)" a s c s'] fin er n none c(2)
        by (simp add: finalize_def)
    qed
  qed
qed

subsection \<open>The loop over the attempts\<close>

text \<open>The delay counts the attempts: the first call only sets the end, each later one is a retry.\<close>

definition delay_counts :: "txn_context \<Rightarrow> bool" where
  "delay_counts s \<longleftrightarrow> (xd_end_time (tc_delay s) = None \<longleftrightarrow> tc_attempts s = [])
     \<and> unat (xd_retries (tc_delay s)) = number s \<and> length (tc_attempts s) \<le> 101"

lemma delay_counts_new: "delay_counts new_txn_context"
  by (simp add: delay_counts_def new_txn_context_def)

lemma new_attempt_context_counts:
  assumes "delay_counts s" and "new_attempt_context env s = (Inr x, s1)"
  shows "delay_counts s1 \<and> tc_attempts s1 = tc_attempts s @ [new_attempt]"
proof -
  obtain d where d: "exp_delay_call (2 * te_timeout env) (te_now env (length (tc_attempts s))) (tc_delay s) = Inr d"
    "s1 = s\<lparr> tc_attempts := tc_attempts s @ [new_attempt], tc_delay := d \<rparr>"
    using assms(2) by (auto simp: new_attempt_context_def split: sum.splits)
  have lt: "unat (xd_retries (tc_delay s)) < 100"
    using d(1) by (auto simp: exp_delay_call_def word_le_nat_alt split: if_splits)
  then have "unat (xd_retries (tc_delay s) + 1) = unat (xd_retries (tc_delay s)) + 1"
    by (simp add: unat_word_ariths)
  then show ?thesis using assms(1) d lt
    by (cases "tc_attempts s") (auto simp: delay_counts_def exp_delay_call_def split: if_splits option.splits)
qed

lemma new_attempt_context_error: "new_attempt_context env s = (Inl e, s1) \<Longrightarrow> s1 = s"
  by (auto simp: new_attempt_context_def split: sum.splits)

lemma finalize_SomeE:
  assumes "finalize env s = Some (c, s')"
  obtains x a where "handle_error env x (set_current a s) = Some (c, s')" | a where "s' = set_current a s" | "s' = s"
proof -
  obtain er a where er: "existing_error False (current_attempt_context s) = Some (er, a)"
    using assms by (auto simp: finalize_def split: option.splits)
  show ?thesis
  proof (cases er)
    case (Inl e)
    show ?thesis using assms er Inl by (intro that(1) [of "Thrown e" a]) (simp add: finalize_def)
  next
    case (Inr x)
    show ?thesis
    proof (cases "at_done a")
      case True
      then show ?thesis using assms er Inr by (intro that(3)) (simp add: finalize_def)
    next
      case False
      then obtain q b where q: "commit_cb (te_attempt env (number s)) a = Some (q, b)"
        using assms er Inr by (auto simp: finalize_def split: option.splits)
      show ?thesis
      proof (cases q)
        case (Inl e)
        then show ?thesis using assms er Inr False q by (intro that(1) [of "Thrown e" b]) (simp add: finalize_def)
      next
        case q': (Inr y)
        then show ?thesis using assms er Inr False q by (intro that(2) [of b]) (simp add: finalize_def)
      qed
    qed
  qed
qed

lemma run_attempt_frame:
  assumes "run_attempt env s = Some (r, s')" and "tc_attempts s \<noteq> []"
  shows "length (tc_attempts s') = length (tc_attempts s) \<and> tc_delay s' = tc_delay s"
proof -
  have err: "length (tc_attempts s') = length (tc_attempts s)" "tc_delay s' = tc_delay s"
    if "handle_error env x (set_current a s) = Some (c, s')" for x a c
    using handle_error_cases [OF that] assms(2) by (auto simp: only_rolled_back_def)
  obtain x :: "thrown + unit" and a c where c: "(case x of Inl x \<Rightarrow> handle_error env x (set_current a s)
      | Inr _ \<Rightarrow> finalize env (set_current a s)) = Some (c, s')"
    by (rule run_attempt_SomeE [OF assms(1)])
  show ?thesis
  proof (cases x)
    case (Inl e)
    then show ?thesis using c err by simp
  next
    case (Inr y)
    then have "finalize env (set_current a s) = Some (c, s')" using c by simp
    then show ?thesis
    proof (cases rule: finalize_SomeE)
      case (1 x b)
      then show ?thesis using err [of x b c] by simp
    qed (use assms(2) in simp_all)
  qed
qed

lemma delay_counts_frame:
  "delay_counts s \<Longrightarrow> length (tc_attempts s') = length (tc_attempts s) \<Longrightarrow> tc_delay s' = tc_delay s \<Longrightarrow> delay_counts s'"
  by (auto simp: delay_counts_def simp flip: length_0_conv)

lemma wrap_run_counts:
  "wrap_run n env s = Some (r, s') \<Longrightarrow> delay_counts s \<Longrightarrow> delay_counts s'"
proof (induction n arbitrary: s)
  case (Suc n)
  obtain x s1 where x: "new_attempt_context env s = (x, s1)" by fastforce
  show ?case
  proof (cases x)
    case (Inl e)
    then show ?thesis using Suc.prems x new_attempt_context_error [of env s e s1] by auto
  next
    case (Inr y)
    note s1 = new_attempt_context_counts [OF Suc.prems(2), of env y s1]
    obtain q s2 where q: "run_attempt env s1 = Some (q, s2)"
      using Suc.prems(1) x Inr by (auto split: option.splits)
    have "delay_counts s2"
      using run_attempt_frame [OF q] s1 x Inr delay_counts_frame [of s1 s2] by auto
    then show ?thesis using Suc.prems(1) Suc.IH [of s2] x Inr q by (auto split: sum.splits option.splits)
  qed
qed simp

text \<open>How a run stands at its end.\<close>

definition run_ended :: "txn_env \<Rightarrow> run_exception + bool \<Rightarrow> txn_context \<Rightarrow> bool" where
  "run_ended env r s \<longleftrightarrow>
     (\<forall>i < length (tc_attempts s). committed env s i \<longrightarrow>
        i = number s \<and> (\<exists>b. r = Inr b) \<and> \<not> undone env s i)
     \<and> ((\<exists>b. r = Inr b) \<and> has_atr (current_attempt_context s) \<longrightarrow> committed env s (number s))"

lemma wrap_run_ended:
  assumes "kv_logic env" and "undisturbed env"
  shows "wrap_run n env s = Some (r, s') \<Longrightarrow> delay_counts s \<Longrightarrow> 102 \<le> n + length (tc_attempts s) \<Longrightarrow>
    \<forall>i < length (tc_attempts s). \<not> committed env s i \<Longrightarrow> run_ended env r s'"
proof (induction n arbitrary: s)
  case 0
  then show ?case by (simp add: delay_counts_def)
next
  case (Suc n)
  obtain x s1 where x: "new_attempt_context env s = (x, s1)" by fastforce
  show ?case
  proof (cases x)
    case (Inl e)
    then show ?thesis using Suc.prems x new_attempt_context_error [of env s e s1] by (auto simp: run_ended_def)
  next
    case (Inr y)
    have s1: "delay_counts s1" "tc_attempts s1 = tc_attempts s @ [new_attempt]"
      using new_attempt_context_counts [OF Suc.prems(2), of env y s1] x Inr by simp_all
    obtain q s2 where q: "run_attempt env s1 = Some (q, s2)"
      using Suc.prems(1) x Inr by (auto split: option.splits)
    obtain a where a: "tc_attempts s2 = tc_attempts s @ [a]" "tc_delay s2 = tc_delay s1"
      "well_ended (te_attempt env (length (tc_attempts s))) a q"
      using run_attempt_ended [OF q s1(2) assms] by blast
    have old: "\<not> committed env s2 i" if "i < length (tc_attempts s)" for i
      using Suc.prems(4) that a(1) by (simp add: committed_def nth_append)
    have last: "committed env s2 (length (tc_attempts s)) \<longleftrightarrow> has_evidence (te_attempt env (length (tc_attempts s))) (at_log a)"
      "undone env s2 (length (tc_attempts s)) \<longleftrightarrow> \<not> list_all (\<lambda>e. \<not> rolls_back (te_attempt env (length (tc_attempts s))) e) (at_log a)"
      "current_attempt_context s2 = a"
      using a(1) by (auto simp: committed_def undone_def current_attempt_context_def list_all_iff)
    show ?thesis
    proof (cases "q = Inr None")
      case True
      then have "\<not> committed env s2 (length (tc_attempts s))" using a(3) last by (auto simp: well_ended_def)
      then have "\<forall>i < length (tc_attempts s2). \<not> committed env s2 i" using a(1) old less_Suc_eq by auto
      then show ?thesis using Suc.IH [of s2] Suc.prems(1,3) x Inr q True a(1,2) s1 delay_counts_frame [of s1 s2]
        by simp
    next
      case False
      then have "s' = s2" "(\<exists>b. r = Inr b) \<longleftrightarrow> (\<exists>b. q = Inr (Some b))"
        using Suc.prems(1) x Inr q by (auto split: sum.splits option.splits)
      then show ?thesis using a last old by (auto simp: run_ended_def well_ended_def less_Suc_eq)
    qed
  qed
qed

lemma run_run_ended:
  "run env = Some (r, s) \<Longrightarrow> kv_logic env \<Longrightarrow> undisturbed env \<Longrightarrow> run_ended env r s"
  using wrap_run_ended [of env max_attempts new_txn_context r s] delay_counts_new
  by (simp add: run_def max_attempts_def new_txn_context_def)

text \<open>
  C3: A committed transaction stays committed. In a run whose application only uses key-value
  operations, and where no testing hook and no cancelled timer interferes: when an answer of the
  server showed an attempt to be committed, then it is the last attempt of the run, the run returns a
  result and no exception, and the attempt was neither aborted nor were its documents rolled back.
\<close>

theorem run_committed_is_final:
  assumes "run env = Some (r, s)" and "kv_logic env" and "undisturbed env"
    and "i < length (tc_attempts s)" and "committed env s i"
  shows "i = length (tc_attempts s) - 1 \<and> (\<exists>b. r = Inr b) \<and> \<not> undone env s i"
  using run_run_ended [OF assms(1-3)] assms(4,5) by (auto simp: run_ended_def)

text \<open>
  A transaction that is reported as done was committed: when a run returns a result and its last
  attempt has staged something, so that it has an entry in a transaction record, an answer of the
  server has shown that entry to be COMMITTED.
\<close>

theorem run_result_committed:
  assumes "run env = Some (Inr b, s)" and "kv_logic env" and "undisturbed env"
    and "has_atr (current_attempt_context s)"
  shows "committed env s (length (tc_attempts s) - 1)"
  using run_run_ended [OF assms(1-3)] assms(4) by (auto simp: run_ended_def)

text \<open>
  C30: A run makes at most a hundred and one attempts, whatever the application and the server do: the
  delay before an attempt gives up first, and the limit of a thousand attempts is never reached.
\<close>

theorem run_attempts_bounded:
  assumes "run env = Some (r, s)"
  shows "length (tc_attempts s) \<le> 101"
  using wrap_run_counts [of max_attempts env new_txn_context r s] assms delay_counts_new
  by (simp add: run_def delay_counts_def)

lemma retried_at_once:
  assumes "tc_attempts s = as @ [new_attempt]"
    and "\<forall>n. te_logic env n new_attempt = Some (Inl (Thrown (Op_failed f)), new_attempt)"
    and "tof_retry f" and "tof_rollback f" and "\<forall>n. \<not> te_expired env n"
  shows "\<exists>s'. run_attempt env s = Some (Inr None, s')"
proof -
  obtain a where "rollback (te_attempt env (length as)) new_attempt = Some (Inr (), a)"
    by (cases "ae_expired (te_attempt env (length as)) 0")
      (auto simp: rollback_def rollback_kv_def expiry_defs tx_defs new_attempt_def has_atr_def)
  then have "rollback_current env (set_current new_attempt s) = Some (Inr (), set_current a s)"
    using assms(1) by (simp add: rollback_current_def)
  then show ?thesis using assms
    by (simp add: run_attempt_def handle_error_def handle_failed_def handle_failed_end_def Let_def
        current_attempt_context_def finalize_handler_def)
qed

text \<open>
  C24: How a run with a persistent conflict ends. When every attempt fails at once with an error that
  asks for a retry, and the transaction does not expire, the run is not ended by a
  \<^verbatim>\<open>transaction_exception\<close>: after a hundred and one attempts the delay throws an exception of its own,
  which the run passes on. The asynchronous run handles it nowhere, and the process ends.
\<close>

theorem persistent_conflict_escapes:
  assumes "\<forall>n. te_logic env n new_attempt = Some (Inl (Thrown (Op_failed f)), new_attempt)"
    and "tof_retry f" and "tof_rollback f" and "\<forall>n. \<not> te_expired env n"
    and "\<forall>n. te_now env n \<le> te_now env 0 + 2 * te_timeout env"
  shows "(\<exists>s. run env = Some (Inl (Escaped Retry_operation_retries_exhausted), s) \<and> length (tc_attempts s) = 101)
    \<and> run_async env = None"
proof -
  let ?limit = "Some (te_now env 0 + 2 * te_timeout env)"
  have "\<exists>s'. wrap_run n env s = Some (Inl (Escaped Retry_operation_retries_exhausted), s') \<and> length (tc_attempts s') = 101"
    if "delay_counts s" "102 \<le> n + length (tc_attempts s)" "tc_attempts s = [] \<or> xd_end_time (tc_delay s) = ?limit" for n s
    using that
  proof (induction n arbitrary: s)
    case 0
    then show ?case by (simp add: delay_counts_def)
  next
    case (Suc n)
    show ?case
    proof (cases "length (tc_attempts s) = 101")
      case True
      then have "100 \<le> xd_retries (tc_delay s)" using Suc.prems(1) by (simp add: delay_counts_def word_le_nat_alt)
      then show ?thesis using True by (simp add: new_attempt_context_def exp_delay_call_def)
    next
      case False
      then have "\<not> 100 \<le> xd_retries (tc_delay s)"
        using Suc.prems(1) by (auto simp: delay_counts_def word_le_nat_alt)
      then obtain s1 where s1: "new_attempt_context env s = (Inr (), s1)" "xd_end_time (tc_delay s1) = ?limit"
        using Suc.prems(1,3) assms(5)
        by (cases "tc_attempts s") (auto simp: new_attempt_context_def exp_delay_call_def delay_counts_def not_less [symmetric] split: option.splits)
      have c1: "delay_counts s1" "tc_attempts s1 = tc_attempts s @ [new_attempt]"
        using new_attempt_context_counts [OF Suc.prems(1) s1(1)] by simp_all
      obtain s2 where s2: "run_attempt env s1 = Some (Inr None, s2)"
        using retried_at_once [OF c1(2) assms(1-4)] by blast
      have "length (tc_attempts s2) = length (tc_attempts s1)" "tc_delay s2 = tc_delay s1"
        using run_attempt_frame [OF s2] c1(2) by simp_all
      then show ?thesis using Suc.IH [of s2] Suc.prems(2) s1 c1 s2 delay_counts_frame [of s1 s2] by simp
    qed
  qed
  from this [OF delay_counts_new, of max_attempts] show ?thesis
    by (auto simp: run_def run_async_def max_attempts_def new_txn_context_def)
qed

subsection \<open>Concrete runs\<close>

lemma wrap_run_once:
  "new_attempt_context env s = (Inr (), s1) \<Longrightarrow> run_attempt env s1 = Some (Inr (Some b), s2) \<Longrightarrow>
   0 < n \<Longrightarrow> wrap_run n env s = Some (Inr b, s2)"
  by (cases n) simp_all

definition demo_txn :: txn_env where
  "demo_txn = \<lparr> te_timeout = 15000000000, te_now = (\<lambda>n. int n * 100000000), te_expired = (\<lambda>_. False),
     te_attempt = (\<lambda>_. demo_ok None), te_logic = (\<lambda>_ _. Some (Inr (), demo_attempt)) \<rparr>"

lemma demo_txn_contract: "kv_logic demo_txn" "undisturbed demo_txn"
  by (auto simp: kv_logic_def undisturbed_def demo_txn_def demo_attempt_def demo_ok_def)

lemma demo_txn_run:
  "\<exists>b s. run demo_txn = Some (Inr b, s) \<and> length (tc_attempts s) = 1 \<and> has_atr (current_attempt_context s)"
proof -
  obtain a where a: "commit (demo_ok None) demo_attempt = Some (Inr (), a)" using demo_ok_run by blast
  then have "commit_cb (demo_ok None) demo_attempt = Some (Inr (), a)"
    by (simp add: commit_cb_def tx_catch_def)
  moreover have "has_atr a" using effectD [OF commit_log a]
    by (simp add: log_grows_def has_atr_def demo_attempt_def mk_document_id_def)
  moreover have "at_errors demo_attempt = []" "\<not> at_done demo_attempt" by (simp_all add: demo_attempt_def)
  ultimately have "run_attempt demo_txn (new_txn_context\<lparr> tc_attempts := [new_attempt], tc_delay := d \<rparr>)
      = Some (Inr (Some (at_state a = state_COMPLETED)), new_txn_context\<lparr> tc_attempts := [a], tc_delay := d \<rparr>)" for d
    by (simp add: run_attempt_def finalize_def existing_error_def finalize_handler_def demo_txn_def
        current_attempt_context_def set_current_def get_transaction_result_def)
  then have "run demo_txn = Some (Inr (at_state a = state_COMPLETED), new_txn_context\<lparr> tc_attempts := [a],
      tc_delay := \<lparr> xd_retries = 0, xd_end_time = Some (te_now demo_txn 0 + 2 * te_timeout demo_txn) \<rparr> \<rparr>)"
    unfolding run_def
    by (intro wrap_run_once) (auto simp: new_attempt_context_def exp_delay_call_def new_txn_context_def max_attempts_def)
  then show ?thesis using \<open>has_atr a\<close> by (simp add: current_attempt_context_def)
qed

theorem run_result_committed_witness:
  "\<exists>b s. run demo_txn = Some (Inr b, s) \<and> committed demo_txn s 0"
  using demo_txn_run run_result_committed [OF _ demo_txn_contract] by fastforce

theorem run_committed_is_final_witness:
  "\<exists>b s. run demo_txn = Some (Inr b, s) \<and> \<not> undone demo_txn s 0"
proof -
  obtain b s where s: "run demo_txn = Some (Inr b, s)" "length (tc_attempts s) = 1"
    "has_atr (current_attempt_context s)" using demo_txn_run by blast
  then have "committed demo_txn s 0"
    using run_run_ended [OF s(1) demo_txn_contract] by (simp add: run_ended_def)
  then show ?thesis using run_committed_is_final [OF s(1) demo_txn_contract, of 0] s by auto
qed

theorem run_attempts_bounded_witness: "\<exists>r s. run demo_txn = Some (r, s) \<and> length (tc_attempts s) \<le> 101"
  using demo_txn_run run_attempts_bounded by fast

definition demo_conflict :: txn_env where
  "demo_conflict = demo_txn\<lparr> te_logic := \<lambda>_ a.
     Some (Inl (Thrown (Op_failed (with_retry (op_failed FAIL_WRITE_WRITE_CONFLICT)))), a),
     te_now := \<lambda>n. int (min n 101) * 100000000 \<rparr>"

theorem persistent_conflict_escapes_witness: "run_async demo_conflict = None"
proof -
  have "te_now demo_conflict n \<le> te_now demo_conflict 0 + 2 * te_timeout demo_conflict" for n
    by (simp add: demo_conflict_def demo_txn_def)
  then show ?thesis
    using persistent_conflict_escapes [of demo_conflict "with_retry (op_failed FAIL_WRITE_WRITE_CONFLICT)"]
    by (simp add: demo_conflict_def demo_txn_def)
qed

end
