(* ===== verification/Forward_Compat.thy ===== *)
theory Forward_Compat
  imports Txn_Errors Std_String
begin

text \<open>
  Forward compatibility of transactions, \<^verbatim>\<open>core/transactions/forward_compat.cxx\<close>: a document or a
  transaction record written by a newer client names, for the stages of the protocol, the extensions
  and protocol versions a client has to support, and what a client without them has to do. An
  exception is \<open>Inl\<close>; reading a missing element of a vector has no result.
\<close>

subsection \<open>JSON values\<close>

text \<open>A computation that throws, has undefined behaviour, or gives a value.\<close>

type_synonym 'a fallible = "(txn_exception + 'a) run"

definition fb_return :: "'a \<Rightarrow> 'a fallible" where
  "fb_return x = Some (Inr x)"

definition fb_throw :: "'a fallible" where
  "fb_throw = Some (Inl Std_exception)"

definition fb_bind :: "'a fallible \<Rightarrow> ('a \<Rightarrow> 'b fallible) \<Rightarrow> 'b fallible" where
  "fb_bind m f = (case m of None \<Rightarrow> None | Some (Inl e) \<Rightarrow> Some (Inl e) | Some (Inr x) \<Rightarrow> f x)"

primrec fb_map :: "('a \<Rightarrow> 'b fallible) \<Rightarrow> 'a list \<Rightarrow> 'b list fallible" where
  "fb_map f [] = fb_return []"
| "fb_map f (x # xs) = fb_bind (f x) (\<lambda>y. fb_bind (fb_map f xs) (\<lambda>ys. fb_return (y # ys)))"

lemma fb_bind_simps [simp]:
  "fb_bind (fb_return x) f = f x" "fb_bind (Some (Inr x)) f = f x" "fb_bind (Some (Inl e)) f = Some (Inl e)"
  "fb_bind None f = None" "fb_bind fb_throw f = fb_throw"
  by (simp_all add: fb_bind_def fb_return_def fb_throw_def)

lemma fb_bind_Some_iff: "fb_bind m f = Some (Inr y) \<longleftrightarrow> (\<exists>x. m = Some (Inr x) \<and> f x = Some (Inr y))"
  by (auto simp: fb_bind_def split: option.split sum.split)

text \<open>
  The values of the JSON library and how the sources read them: each access that finds another type
  throws. Parsing of text is the library's. The numbers of the transaction fields are integers; no
  other numbers are modelled.
\<close>

datatype json =
    J_null
  | J_bool bool
  | J_number int
  | J_string string
  | J_array "json list"
  | J_object "(string \<times> json) list"

definition get_object :: "json \<Rightarrow> (string \<times> json) list fallible" where
  "get_object j = (case j of J_object ms \<Rightarrow> fb_return ms | _ \<Rightarrow> fb_throw)"

definition get_array :: "json \<Rightarrow> json list fallible" where
  "get_array j = (case j of J_array js \<Rightarrow> fb_return js | _ \<Rightarrow> fb_throw)"

definition get_string :: "json \<Rightarrow> string fallible" where
  "get_string j = (case j of J_string s \<Rightarrow> fb_return s | _ \<Rightarrow> fb_throw)"

definition get_unsigned :: "json \<Rightarrow> u64 fallible" where
  "get_unsigned j = (case j of J_number n \<Rightarrow> if 0 \<le> n then fb_return (word_of_int n) else fb_throw | _ \<Rightarrow> fb_throw)"

definition get_number :: "json \<Rightarrow> ('w :: len) word fallible" where
  "get_number j = (case j of J_number n \<Rightarrow> fb_return (word_of_int n) | _ \<Rightarrow> fb_throw)"

definition json_find :: "json \<Rightarrow> string \<Rightarrow> json option fallible" where
  "json_find j key = fb_bind (get_object j) (\<lambda>ms. fb_return (map_of ms key))"

definition json_at :: "json \<Rightarrow> string \<Rightarrow> json fallible" where
  "json_at j key = fb_bind (json_find j key) (\<lambda>v. case v of Some v \<Rightarrow> fb_return v | None \<Rightarrow> fb_throw)"

text \<open>\<^verbatim>\<open>value.optional<T>(key)\<close>\<close>

definition json_optional :: "(json \<Rightarrow> 'a fallible) \<Rightarrow> json \<Rightarrow> string \<Rightarrow> 'a option fallible" where
  "json_optional get j key =
     fb_bind (json_find j key) (\<lambda>v.
       case v of None \<Rightarrow> fb_return None | Some v \<Rightarrow> fb_bind (get v) (\<lambda>x. fb_return (Some x)))"

lemmas json_defs = get_object_def get_array_def get_string_def get_unsigned_def get_number_def json_find_def
  json_at_def json_optional_def

subsection \<open>Stages and behaviours\<close>

datatype forward_compat_stage =
    WRITE_WRITE_CONFLICT_READING_ATR
  | WRITE_WRITE_CONFLICT_REPLACING
  | WRITE_WRITE_CONFLICT_REMOVING
  | WRITE_WRITE_CONFLICT_INSERTING
  | WRITE_WRITE_CONFLICT_INSERTING_GET
  | GETS
  | GETS_READING_ATR
  | CLEANUP_ENTRY
  | CAS_MISMATCH_DURING_COMMIT
  | CAS_MISMATCH_DURING_ROLLBACK
  | CAS_MISMATCH_DURING_STAGING
  | GET_MULTI_GET

primrec stage_to_string :: "forward_compat_stage \<Rightarrow> string" where
  "stage_to_string WRITE_WRITE_CONFLICT_READING_ATR = ''WW_R''"
| "stage_to_string WRITE_WRITE_CONFLICT_REPLACING = ''WW_RP''"
| "stage_to_string WRITE_WRITE_CONFLICT_REMOVING = ''WW_RM''"
| "stage_to_string WRITE_WRITE_CONFLICT_INSERTING = ''WW_I''"
| "stage_to_string WRITE_WRITE_CONFLICT_INSERTING_GET = ''WW_IG''"
| "stage_to_string GETS = ''G''"
| "stage_to_string GETS_READING_ATR = ''G_A''"
| "stage_to_string CLEANUP_ENTRY = ''CL_E''"
| "stage_to_string CAS_MISMATCH_DURING_COMMIT = ''CM_C''"
| "stage_to_string CAS_MISMATCH_DURING_ROLLBACK = ''CM_R''"
| "stage_to_string CAS_MISMATCH_DURING_STAGING = ''CM_S''"
| "stage_to_string GET_MULTI_GET = ''GM_G''"

definition create_forward_compat_stage :: "string \<Rightarrow> forward_compat_stage fallible" where
  "create_forward_compat_stage str =
     (if str = ''WW_R'' then fb_return WRITE_WRITE_CONFLICT_READING_ATR
      else if str = ''WW_RP'' then fb_return WRITE_WRITE_CONFLICT_REPLACING
      else if str = ''WW_RM'' then fb_return WRITE_WRITE_CONFLICT_REMOVING
      else if str = ''WW_I'' then fb_return WRITE_WRITE_CONFLICT_INSERTING
      else if str = ''WW_IG'' then fb_return WRITE_WRITE_CONFLICT_INSERTING_GET
      else if str = ''G'' then fb_return GETS
      else if str = ''G_A'' then fb_return GETS_READING_ATR
      else if str = ''CL_E'' then fb_return CLEANUP_ENTRY
      else if str = ''CM_C'' then fb_return CAS_MISMATCH_DURING_COMMIT
      else if str = ''CM_R'' then fb_return CAS_MISMATCH_DURING_ROLLBACK
      else if str = ''CM_S'' then fb_return CAS_MISMATCH_DURING_STAGING
      else if str = ''GM_G'' then fb_return GET_MULTI_GET
      else fb_throw)"

datatype forward_compat_behavior = CONTINUE | RETRY_TXN | FAIL_FAST_TXN

definition create_forward_compat_behavior :: "string \<Rightarrow> forward_compat_behavior" where
  "create_forward_compat_behavior str = (if str = ''r'' then RETRY_TXN else FAIL_FAST_TXN)"

record forward_compat_supported =
  fs_protocol_major :: u32
  fs_protocol_minor :: u32
  fs_extensions :: "string list"

definition supported_here :: forward_compat_supported where
  "supported_here = \<lparr> fs_protocol_major = 2, fs_protocol_minor = 0,
     fs_extensions = [''BF3705'', ''BF3787'', ''BF3791'', ''BF3838'', ''BM'', ''BS'', ''CM'', ''CO'', ''IX'',
       ''MO'', ''PU'', ''QC'', ''QU'', ''RC'', ''RP'', ''RX'', ''SD'', ''SI'', ''TI'', ''TS'', ''UA'', ''GM'', ''RPP1''] \<rparr>"

record forward_compat_behavior_full =
  bf_behavior :: forward_compat_behavior
  bf_retry_delay :: "u64 option"

datatype forward_compat_requirement =
    Protocol_requirement forward_compat_behavior_full u64 u64
  | Extension_requirement forward_compat_behavior_full string

primrec requirement_check ::
  "forward_compat_supported \<Rightarrow> forward_compat_requirement \<Rightarrow> forward_compat_behavior_full" where
  "requirement_check sp (Protocol_requirement behavior min_major min_minor) =
     (if min_major > ucast (fs_protocol_major sp) \<or> min_minor > ucast (fs_protocol_minor sp)
      then behavior else \<lparr> bf_behavior = CONTINUE, bf_retry_delay = None \<rparr>)"
| "requirement_check sp (Extension_requirement behavior ext) =
     (if ext \<notin> set (fs_extensions sp) then behavior else \<lparr> bf_behavior = CONTINUE, bf_retry_delay = None \<rparr>)"

definition create_behavior_full :: "json \<Rightarrow> forward_compat_behavior_full fallible" where
  "create_behavior_full j =
     fb_bind (json_at j ''b'') (\<lambda>b.
     fb_bind (get_string b) (\<lambda>b.
     fb_bind (json_optional get_unsigned j ''ra'') (\<lambda>delay.
       fb_return \<lparr> bf_behavior = create_forward_compat_behavior b, bf_retry_delay = delay \<rparr>)))"

function split_string :: "string \<Rightarrow> char \<Rightarrow> string list" where
  "split_string input d =
     (if input = [] then []
      else takeWhile (\<lambda>c. c \<noteq> d) input #
        (case dropWhile (\<lambda>c. c \<noteq> d) input of [] \<Rightarrow> [] | _ # rest \<Rightarrow> split_string rest d))"
  by pat_completeness auto

termination split_string
proof (relation "measure (\<lambda>(input, _). length input)", goal_cases)
  case (2 input d c rest)
  then have "length (c # rest) \<le> length input" by (metis length_dropWhile_le)
  then show ?case by simp
qed simp

declare split_string.simps [simp del]

definition throw_stox :: "stox_error + 'a \<Rightarrow> 'a fallible" where
  "throw_stox r = (case r of Inl _ \<Rightarrow> fb_throw | Inr x \<Rightarrow> fb_return x)"

definition protocol_of :: "string \<Rightarrow> (u64 \<times> u64) fallible" where
  "protocol_of p =
     (case split_string p (CHR ''.'') of
        major # minor # _ \<Rightarrow>
          fb_bind (throw_stox (stoul major)) (\<lambda>a.
          fb_bind (throw_stox (stoul minor)) (\<lambda>b. fb_return (a, b)))
      | _ \<Rightarrow> None)"

definition parse_item :: "json \<Rightarrow> forward_compat_requirement option fallible" where
  "parse_item item =
     fb_bind (create_behavior_full item) (\<lambda>behavior.
     fb_bind (json_find item ''e'') (\<lambda>e.
       case e of
         Some e \<Rightarrow> fb_bind (get_string e) (\<lambda>ext. fb_return (Some (Extension_requirement behavior ext)))
       | None \<Rightarrow>
           fb_bind (json_find item ''p'') (\<lambda>p.
             case p of
               Some p \<Rightarrow>
                 fb_bind (get_string p) (\<lambda>proto_string.
                 fb_bind (protocol_of proto_string) (\<lambda>(a, b).
                   fb_return (Some (Protocol_requirement behavior a b))))
             | None \<Rightarrow> fb_return None)))"

text \<open>The constructor of \<^verbatim>\<open>forward_compat\<close>: the requirements of each stage, in the order of the members.\<close>

definition forward_compat ::
  "json \<Rightarrow> (forward_compat_stage \<times> forward_compat_requirement list) list fallible" where
  "forward_compat json =
     fb_bind (get_object json) (fb_map (\<lambda>(key, v).
       fb_bind (create_forward_compat_stage key) (\<lambda>stage.
       fb_bind (get_array v) (\<lambda>items.
       fb_bind (fb_map parse_item items) (\<lambda>rs. fb_return (stage, concat (map (case_option [] (\<lambda>r. [r])) rs)))))))"

text \<open>
  The result of a check is the failure and the milliseconds the thread sleeps before it is returned.
\<close>

fun check_internal ::
  "forward_compat_supported \<Rightarrow> forward_compat_requirement list \<Rightarrow>
   (transaction_operation_failed \<times> u64 option) option" where
  "check_internal sp [] = None"
| "check_internal sp (r # rs) =
     (let ex = with_cause FORWARD_COMPATIBILITY_FAILURE (op_failed FAIL_OTHER);
          behavior = requirement_check sp r
      in case bf_behavior behavior of
           FAIL_FAST_TXN \<Rightarrow> Some (ex, None)
         | RETRY_TXN \<Rightarrow> Some (with_retry ex, bf_retry_delay behavior)
         | CONTINUE \<Rightarrow> check_internal sp rs)"

definition check_forward_compat ::
  "forward_compat_stage \<Rightarrow> json option \<Rightarrow> (transaction_operation_failed \<times> u64 option) option fallible" where
  "check_forward_compat stage json =
     (case json of
        None \<Rightarrow> fb_return None
      | Some j \<Rightarrow>
          fb_bind (forward_compat j) (\<lambda>m.
            fb_return (check_internal supported_here (concat (map snd (filter (\<lambda>(s, _). s = stage) m))))))"

subsection \<open>Properties\<close>

text \<open>The name of a stage is read back as the stage.\<close>

lemma stage_roundtrip: "create_forward_compat_stage (stage_to_string s) = fb_return s"
  by (cases s) (simp_all add: create_forward_compat_stage_def)

lemma check_internal_error:
  "check_internal sp rs = Some (f, delay) \<Longrightarrow> tof_rollback f \<and> tof_to_raise f = FAILED"
  by (induction rs) (auto simp: Let_def split: forward_compat_behavior.splits)

lemma check_forward_compat_error:
  "check_forward_compat stage json = Some (Inr (Some (f, delay))) \<Longrightarrow> tof_rollback f \<and> tof_to_raise f = FAILED"
  by (auto simp: check_forward_compat_def fb_bind_Some_iff fb_return_def split: option.splits dest: check_internal_error)

lemma split_string_last: "d \<notin> set w \<Longrightarrow> w \<noteq> [] \<Longrightarrow> split_string w d = [w]"
  by (subst split_string.simps, subst dropWhile_eq_Nil_conv [THEN iffD2]) (auto simp: takeWhile_eq_all_conv)

lemma split_string_first:
  "d \<notin> set v \<Longrightarrow> split_string (v @ d # w) d = v # split_string w d"
  by (subst split_string.simps) (simp add: takeWhile_append dropWhile_append)

lemma dec_digits_no_dot: "CHR ''.'' \<notin> set (dec_digits n)"
  using dec_digits_digits [of "CHR ''.''" n] by (auto simp: char_digit_def uchar_def)

lemma stoul_dec_word: "stoul (dec_digits (unat a)) = Inr a"
proof -
  have "unat a < 2 ^ LENGTH(64)" by (rule unsigned_less)
  then show ?thesis using stoul_dec [of "unat a"] by simp
qed

lemma protocol_of_dec:
  "protocol_of (dec_digits (unat a) @ CHR ''.'' # dec_digits (unat b)) = Some (Inr (a, b))"
  by (simp add: protocol_of_def split_string_first split_string_last dec_digits_no_dot stoul_dec_word throw_stox_def fb_return_def)

text \<open>
  C27: The check of a protocol version, from the text of the field to the decision: a requirement of
  protocol a.b lets this client, which supports protocol 2.0, go on exactly if a is at most 2 and b is
  0. The minor versions are compared whatever the major versions, so that a document that asks for
  protocol 1.1 or newer is refused.
\<close>

theorem protocol_requirement_decision:
  fixes a b :: u64
  shows "check_forward_compat GETS (Some (J_object [(''G'', J_array [J_object [(''b'', J_string ''f''),
       (''p'', J_string (dec_digits (unat a) @ CHR ''.'' # dec_digits (unat b)))]])]))
     = Some (Inr (if a \<le> 2 \<and> b = 0 then None
         else Some (with_cause FORWARD_COMPATIBILITY_FAILURE (op_failed FAIL_OTHER), None)))"
proof -
  let ?behavior = "\<lparr> bf_behavior = FAIL_FAST_TXN, bf_retry_delay = None \<rparr>"
  let ?item = "J_object [(''b'', J_string ''f''),
    (''p'', J_string (dec_digits (unat a) @ CHR ''.'' # dec_digits (unat b)))]"
  have "parse_item ?item = Some (Inr (Some (Protocol_requirement ?behavior a b)))"
    unfolding parse_item_def
    by (simp add: protocol_of_dec create_forward_compat_behavior_def create_behavior_full_def json_defs
        fb_return_def del: unat_eq_zero)
  moreover have "requirement_check supported_here (Protocol_requirement ?behavior a b)
    = (if a \<le> 2 \<and> b = 0 then \<lparr> bf_behavior = CONTINUE, bf_retry_delay = None \<rparr> else ?behavior)"
    by (auto simp: supported_here_def word_gt_0 not_le)
  ultimately show ?thesis
    by (simp add: check_forward_compat_def forward_compat_def create_forward_compat_stage_def json_defs
        fb_return_def Let_def del: requirement_check.simps)
qed



end
