(* ===== verification/Txn_Doc.thy ===== *)
theory Txn_Doc
  imports Forward_Compat Staged_Mutations Topology
begin

text \<open>
  Documents and transaction records as the transaction code sees them:
  \<^verbatim>\<open>transaction_links\<close> and \<^verbatim>\<open>transaction_get_result\<close>, built from the answer to a
  lookup of the \<^verbatim>\<open>txn\<close> attributes; the metadata an operation stages next to the document,
  \<^verbatim>\<open>create_document_metadata\<close>; the entries of an active transaction record (ATR),
  \<^verbatim>\<open>map_to_atr\<close>; the choice of the record, \<^verbatim>\<open>atr_ids.cxx\<close>. The parser of the JSON library
  is an argument, no result being the exception it throws.
\<close>

subsection \<open>Documents\<close>

record encoded_value =
  ev_data :: bytes
  ev_flags :: u32

definition empty_value :: encoded_value where
  "empty_value = \<lparr> ev_data = [], ev_flags = 0 \<rparr>"

record transaction_links =
  tl_atr_id :: "string option"
  tl_atr_bucket :: "string option"
  tl_atr_scope :: "string option"
  tl_atr_collection :: "string option"
  tl_transaction_id :: "string option"
  tl_attempt_id :: "string option"
  tl_operation_id :: "string option"
  tl_content_json :: "encoded_value option"
  tl_content_binary :: "encoded_value option"
  tl_cas_pre_txn :: "string option"
  tl_revid_pre_txn :: "string option"
  tl_exptime_pre_txn :: "u32 option"
  tl_crc32 :: "string option"
  tl_op :: "string option"
  tl_forward_compat :: "json option"
  tl_deleted :: bool

definition no_links :: transaction_links where
  "no_links = \<lparr> tl_atr_id = None, tl_atr_bucket = None, tl_atr_scope = None, tl_atr_collection = None,
     tl_transaction_id = None, tl_attempt_id = None, tl_operation_id = None, tl_content_json = None,
     tl_content_binary = None, tl_cas_pre_txn = None, tl_revid_pre_txn = None, tl_exptime_pre_txn = None,
     tl_crc32 = None, tl_op = None, tl_forward_compat = None, tl_deleted = False \<rparr>"

definition is_document_in_transaction :: "transaction_links \<Rightarrow> bool" where
  "is_document_in_transaction l \<longleftrightarrow> tl_atr_id l \<noteq> None"

definition is_document_being_removed :: "transaction_links \<Rightarrow> bool" where
  "is_document_being_removed l \<longleftrightarrow> tl_op l = Some ''remove''"

definition is_document_being_inserted :: "transaction_links \<Rightarrow> bool" where
  "is_document_being_inserted l \<longleftrightarrow> tl_op l = Some ''insert''"

definition has_staged_write :: "transaction_links \<Rightarrow> bool" where
  "has_staged_write l \<longleftrightarrow> tl_attempt_id l \<noteq> None"

definition staged_content_json_or_binary :: "transaction_links \<Rightarrow> encoded_value" where
  "staged_content_json_or_binary l =
     (case tl_content_json l of
        Some v \<Rightarrow> v
      | None \<Rightarrow> (case tl_content_binary l of Some v \<Rightarrow> v | None \<Rightarrow> empty_value))"

record transaction_get_result =
  gr_id :: document_id
  gr_content :: encoded_value
  gr_cas :: u64
  gr_links :: transaction_links
  gr_metadata :: "document_metadata option"

text \<open>
  \<^verbatim>\<open>create_from(document, content)\<close>: the accessors of the staged contents give an empty value
  where there is none, so the copy has both.
\<close>

definition create_from :: "transaction_get_result \<Rightarrow> encoded_value \<Rightarrow> transaction_get_result" where
  "create_from doc content = doc\<lparr> gr_content := content,
     gr_links := (gr_links doc)\<lparr>
       tl_content_json := Some (case tl_content_json (gr_links doc) of Some v \<Rightarrow> v | None \<Rightarrow> empty_value),
       tl_content_binary := Some (case tl_content_binary (gr_links doc) of Some v \<Rightarrow> v | None \<Rightarrow> empty_value) \<rparr> \<rparr>"

subsection \<open>Reading a document\<close>

text \<open>An unchecked subscript; the value of a field that was found.\<close>

definition field_value :: "lookup_in_response \<Rightarrow> nat \<Rightarrow> bytes option fallible" where
  "field_value resp i =
     (if i < length (li_fields resp)
      then fb_return (if sf_status (li_fields resp ! i) = status_success then Some (sf_value (li_fields resp ! i))
        else None)
      else None)"

definition deserialize :: "(bytes \<Rightarrow> json option) \<Rightarrow> bytes \<Rightarrow> json fallible" where
  "deserialize parse v = (case parse v of Some j \<Rightarrow> fb_return j | None \<Rightarrow> fb_throw)"

definition field_json :: "(bytes \<Rightarrow> json option) \<Rightarrow> lookup_in_response \<Rightarrow> nat \<Rightarrow> json option fallible" where
  "field_json parse resp i =
     fb_bind (field_value resp i) (\<lambda>v.
       case v of
         None \<Rightarrow> fb_return None
       | Some v \<Rightarrow> fb_bind (deserialize parse v) (\<lambda>j. fb_return (Some j)))"

definition field_string :: "(bytes \<Rightarrow> json option) \<Rightarrow> lookup_in_response \<Rightarrow> nat \<Rightarrow> string option fallible" where
  "field_string parse resp i =
     fb_bind (field_json parse resp i) (\<lambda>j.
       case j of None \<Rightarrow> fb_return None | Some j \<Rightarrow> fb_bind (get_string j) (\<lambda>s. fb_return (Some s)))"

definition member :: "(json \<Rightarrow> 'a fallible) \<Rightarrow> json option \<Rightarrow> string \<Rightarrow> 'a option fallible" where
  "member get j key = (case j of None \<Rightarrow> fb_return None | Some j \<Rightarrow> json_optional get j key)"

text \<open>The \<^verbatim>\<open>$document\<close> attribute: the metadata and the flags of the body.\<close>

definition document_attribute :: "json option \<Rightarrow> (document_metadata \<times> u32) fallible" where
  "document_attribute j =
     (case j of
        None \<Rightarrow> fb_return (\<lparr> md_cas = None, md_revid = None, md_exptime = None, md_crc32 = None \<rparr>, 0)
      | Some j \<Rightarrow>
          fb_bind (fb_bind (json_at j ''CAS'') get_string) (\<lambda>cas.
          fb_bind (fb_bind (json_at j ''revid'') get_string) (\<lambda>revid.
          fb_bind (fb_bind (json_at j ''exptime'') get_number) (\<lambda>exptime.
          fb_bind (fb_bind (json_at j ''value_crc32c'') get_string) (\<lambda>crc32.
          fb_bind (fb_bind (json_at j ''flags'') get_number) (\<lambda>flags.
            fb_return (\<lparr> md_cas = Some cas, md_revid = Some revid, md_exptime = Some exptime,
              md_crc32 = Some crc32 \<rparr>, flags)))))))"

definition create_from_subdoc ::
  "(bytes \<Rightarrow> json option) \<Rightarrow> document_id \<Rightarrow> lookup_in_response \<Rightarrow> transaction_get_result fallible" where
  "create_from_subdoc parse i resp =
     fb_bind (field_json parse resp 0) (\<lambda>id.
     fb_bind (member get_string id ''txn'') (\<lambda>transaction_id.
     fb_bind (member get_string id ''atmpt'') (\<lambda>attempt_id.
     fb_bind (member get_string id ''op'') (\<lambda>operation_id.
     fb_bind (field_json parse resp 1) (\<lambda>atr.
     fb_bind (member get_string atr ''id'') (\<lambda>atr_id.
     fb_bind (member get_string atr ''bkt'') (\<lambda>atr_bucket_name.
     fb_bind (member get_string atr ''scp'') (\<lambda>atr_scope_name.
     fb_bind (member get_string atr ''coll'') (\<lambda>atr_collection_name.
     fb_bind (field_string parse resp 2) (\<lambda>op.
     fb_bind (field_value resp 3) (\<lambda>stgd.
     fb_bind (field_string parse resp 4) (\<lambda>crc32.
     fb_bind (field_json parse resp 5) (\<lambda>restore.
     fb_bind (member get_string restore ''CAS'') (\<lambda>cas_pre_txn.
     fb_bind (member get_string restore ''revid'') (\<lambda>revid_pre_txn.
     fb_bind (member get_number restore ''exptime'') (\<lambda>exptime_pre_txn.
     fb_bind (field_json parse resp 6) (\<lambda>forward_compat.
     fb_bind (fb_bind (field_json parse resp 7) document_attribute) (\<lambda>(metadata, flags).
     fb_bind (field_value resp 8) (\<lambda>bin.
     fb_bind (fb_bind (field_json parse resp 9) (\<lambda>aux. member get_number aux ''uf'')) (\<lambda>uf.
     fb_bind (field_value resp 10) (\<lambda>body.
       fb_return \<lparr> gr_id = mk_document_id (id_bucket i) (id_scope i) (id_collection i) (id_key i),
         gr_content = \<lparr> ev_data = (case body of Some v \<Rightarrow> v | None \<Rightarrow> []), ev_flags = flags \<rparr>,
         gr_cas = li_cas resp,
         gr_links = \<lparr> tl_atr_id = atr_id, tl_atr_bucket = atr_bucket_name, tl_atr_scope = atr_scope_name,
           tl_atr_collection = atr_collection_name, tl_transaction_id = transaction_id,
           tl_attempt_id = attempt_id, tl_operation_id = operation_id,
           tl_content_json = map_option (\<lambda>v. \<lparr> ev_data = v, ev_flags = json_common_flags \<rparr>) stgd,
           tl_content_binary = map_option (\<lambda>v. \<lparr> ev_data = v,
             ev_flags = (case uf of Some f \<Rightarrow> f | None \<Rightarrow> binary_common_flags) \<rparr>) bin,
           tl_cas_pre_txn = cas_pre_txn, tl_revid_pre_txn = revid_pre_txn,
           tl_exptime_pre_txn = exptime_pre_txn, tl_crc32 = crc32, tl_op = op,
           tl_forward_compat = forward_compat, tl_deleted = li_deleted resp \<rparr>,
         gr_metadata = Some metadata \<rparr>)))))))))))))))))))))"

subsection \<open>What an operation stages next to the document\<close>

definition create_document_metadata ::
  "string \<Rightarrow> string \<Rightarrow> document_id option \<Rightarrow> string \<Rightarrow> string \<Rightarrow> document_metadata option \<Rightarrow> u32 \<Rightarrow> json" where
  "create_document_metadata transaction_id attempt_id atr operation_type operation_id metadata user_flags =
     (let restore = (case metadata of
            None \<Rightarrow> []
          | Some m \<Rightarrow>
              (case md_cas m of None \<Rightarrow> [] | Some v \<Rightarrow> [(''CAS'', J_string v)])
              @ (case md_revid m of None \<Rightarrow> [] | Some v \<Rightarrow> [(''revid'', J_string v)])
              @ (case md_exptime m of None \<Rightarrow> [] | Some v \<Rightarrow> [(''exptime'', J_number (uint v))]));
          fc_check = J_array [J_object [(''e'', J_string ''BS''), (''b'', J_string ''f'')]]
      in J_object (
           [(''op'', J_object [(''type'', J_string operation_type)]),
            (''aux'', J_object [(''uf'', J_number (uint user_flags))]),
            (''id'', J_object [(''txn'', J_string transaction_id), (''atmpt'', J_string attempt_id),
               (''op'', J_string operation_id)]),
            (''atr'', J_object (case atr of
                None \<Rightarrow> [(''id'', J_string [])]
              | Some a \<Rightarrow> [(''id'', J_string (id_key a)), (''bkt'', J_string (id_bucket a)),
                  (''scp'', J_string (id_scope a)), (''coll'', J_string (id_collection a))]))]
           @ (if restore = [] then [] else [(''restore'', J_object restore)])
           @ (if has_common_flags user_flags binary_common_flags
                \<and> (operation_type = ''replace'' \<or> operation_type = ''insert'')
              then [(''fc'', J_object (map (\<lambda>s. (stage_to_string s, fc_check))
                [WRITE_WRITE_CONFLICT_INSERTING, WRITE_WRITE_CONFLICT_INSERTING_GET, GETS, CLEANUP_ENTRY]))]
              else [])))"

subsection \<open>The transaction record\<close>

text \<open>\<^verbatim>\<open>std::stoull\<close> in base 16: spaces, a sign, an optional prefix, digits.\<close>

definition xdigit_value :: "char \<Rightarrow> nat" where
  "xdigit_value c = (if char_digit c then uchar c - 48 else if uchar c \<le> 70 then uchar c - 55 else uchar c - 87)"

fun strip_0x :: "string \<Rightarrow> string" where
  "strip_0x (a # b # c # s) =
     (if a = CHR ''0'' \<and> (b = CHR ''x'' \<or> b = CHR ''X'') \<and> char_xdigit c then c # s else a # b # c # s)"
| "strip_0x s = s"

definition stoull16 :: "string \<Rightarrow> stox_error + u64" where
  "stoull16 s =
     (let (neg, rest) = split_sign (dropWhile char_space s);
          ds = takeWhile char_xdigit (strip_0x rest);
          v = foldl (\<lambda>v c. 16 * v + xdigit_value c) 0 ds
      in if ds = [] then Inl stox_invalid_argument
         else if 2 ^ 64 \<le> v then Inl stox_out_of_range
         else Inr (if neg then - of_nat v else of_nat v))"

primrec byteswap_loop :: "nat \<Rightarrow> u64 \<Rightarrow> u64 \<Rightarrow> u64" where
  "byteswap_loop 0 val ret = ret"
| "byteswap_loop (Suc n) val ret = byteswap_loop n (drop_bit 8 val) (push_bit 8 ret OR (val AND 0xff))"

definition parse_mutation_cas :: "string \<Rightarrow> u64 fallible" where
  "parse_mutation_cas cas =
     (if cas = [] then fb_return 0
      else fb_bind (throw_stox (stoull16 cas)) (\<lambda>val. fb_return (byteswap_loop 8 val 0 div 1000000)))"

definition now_ns_from_vbucket :: "json \<Rightarrow> u64 fallible" where
  "now_ns_from_vbucket vbucket =
     fb_bind (json_at vbucket ''HLC'') (\<lambda>hlc.
     fb_bind (json_at hlc ''now'') (\<lambda>now.
     fb_bind (get_string now) (\<lambda>now_str.
     fb_bind (throw_stox (stoul now_str)) (\<lambda>n. fb_return (n * 1000000000)))))"

definition doc_record :: "json \<Rightarrow> doc_ref fallible" where
  "doc_record obj =
     fb_bind (fb_bind (json_at obj ''bkt'') get_string) (\<lambda>bucket_name.
     fb_bind (fb_bind (json_at obj ''scp'') get_string) (\<lambda>scope_name.
     fb_bind (fb_bind (json_at obj ''col'') get_string) (\<lambda>collection_name.
     fb_bind (fb_bind (json_at obj ''id'') get_string) (\<lambda>id.
       fb_return (id, bucket_name, scope_name, collection_name)))))"

definition process_document_ids :: "json \<Rightarrow> string \<Rightarrow> doc_ref list option fallible" where
  "process_document_ids entry key =
     fb_bind (json_find entry key) (\<lambda>items.
       case items of
         Some (J_array js) \<Rightarrow>
           fb_bind (fb_map (\<lambda>j. fb_bind (get_object j) (\<lambda>ms. doc_record (J_object ms))) js)
             (\<lambda>rs. fb_return (Some rs))
       | _ \<Rightarrow> fb_return None)"

record atr_entry =
  ent_attempt_id :: string
  ent_state :: attempt_state
  ent_start_ms :: u64
  ent_commit_ms :: u64
  ent_complete_ms :: u64
  ent_rollback_ms :: u64
  ent_rolled_back_ms :: u64
  ent_expires_after_ms :: u32
  ent_inserted :: "doc_ref list option"
  ent_replaced :: "doc_ref list option"
  ent_removed :: "doc_ref list option"
  ent_forward_compat :: "json option"
  ent_now_ns :: u64
  ent_durability :: "string option"

definition timestamp_field :: "json \<Rightarrow> string \<Rightarrow> u64 fallible" where
  "timestamp_field val key =
     fb_bind (json_optional get_string val key) (\<lambda>v.
       parse_mutation_cas (case v of Some s \<Rightarrow> s | None \<Rightarrow> []))"

definition map_to_entry :: "u64 \<Rightarrow> string \<times> json \<Rightarrow> atr_entry fallible" where
  "map_to_entry now_ns = (\<lambda>(key, val).
     fb_bind (json_find val ''fc'') (\<lambda>forward_compat.
     fb_bind (json_optional (\<lambda>j. get_number j :: 32 word fallible) val ''exp'') (\<lambda>expires.
     fb_bind (fb_bind (json_at val ''st'') get_string) (\<lambda>status.
     fb_bind (timestamp_field val ''tst'') (\<lambda>start.
     fb_bind (timestamp_field val ''tsc'') (\<lambda>commit.
     fb_bind (timestamp_field val ''tsco'') (\<lambda>complete.
     fb_bind (timestamp_field val ''tsrs'') (\<lambda>rollback.
     fb_bind (timestamp_field val ''tsrc'') (\<lambda>rolled_back.
     fb_bind (process_document_ids val ''ins'') (\<lambda>inserted.
     fb_bind (process_document_ids val ''rep'') (\<lambda>replaced.
     fb_bind (process_document_ids val ''rem'') (\<lambda>removed.
     fb_bind (json_optional get_string val ''d'') (\<lambda>durability.
       fb_return \<lparr> ent_attempt_id = key, ent_state = attempt_state_value status, ent_start_ms = start,
         ent_commit_ms = commit, ent_complete_ms = complete, ent_rollback_ms = rollback,
         ent_rolled_back_ms = rolled_back,
         ent_expires_after_ms = (case expires of Some e \<Rightarrow> if 0 \<le> sint e then e else 0 | None \<Rightarrow> 0),
         ent_inserted = inserted, ent_replaced = replaced, ent_removed = removed,
         ent_forward_compat = forward_compat, ent_now_ns = now_ns, ent_durability = durability \<rparr>)))))))))))))"

definition map_to_atr :: "(bytes \<Rightarrow> json option) \<Rightarrow> lookup_in_response \<Rightarrow> atr_entry list fallible" where
  "map_to_atr parse resp =
     fb_bind (field_value resp 0) (\<lambda>v.
       case v of
         None \<Rightarrow> fb_return []
       | Some v \<Rightarrow>
           fb_bind (deserialize parse v) (\<lambda>attempts.
           if length (li_fields resp) < 2 then None
           else fb_bind (deserialize parse (sf_value (li_fields resp ! 1))) (\<lambda>vbucket.
           fb_bind (now_ns_from_vbucket vbucket) (\<lambda>now_ns.
           fb_bind (get_object attempts) (fb_map (map_to_entry now_ns))))))"

subsection \<open>The choice of the record\<close>

text \<open>The table of the names of the records is an argument. The index is checked against its size.\<close>

definition vbucket_for_key :: "string \<Rightarrow> nat" where
  "vbucket_for_key key = unat (hash_crc32 (chars_bytes key)) mod 1024"

definition atr_id_for_vbucket :: "string list \<Rightarrow> nat \<Rightarrow> string fallible" where
  "atr_id_for_vbucket atr_ids vbucket_id =
     (if vbucket_id > length atr_ids then fb_throw
      else if vbucket_id < length atr_ids then fb_return (atr_ids ! vbucket_id) else None)"

definition atr_id_from_bucket_and_key ::
  "(string \<times> string \<times> string) option \<Rightarrow> string \<Rightarrow> string \<Rightarrow> document_id" where
  "atr_id_from_bucket_and_key metadata_collection bucket key =
     (case metadata_collection of
        Some (b, s, c) \<Rightarrow> mk_document_id b s c key
      | None \<Rightarrow> mk_document_id bucket ''_default'' ''_default'' key)"

end
