(* ===== verification/Staging.thy ===== *)
theory Staging
  imports Txn_Run Txn_Doc
begin

text \<open>
  The operations of a transaction attempt in the key-value mode, \<^verbatim>\<open>get\<close>, \<^verbatim>\<open>insert\<close>,
  \<^verbatim>\<open>replace\<close> and \<^verbatim>\<open>remove\<close> of \<^verbatim>\<open>core/transactions/attempt_context_impl.cxx\<close>. A
  write is staged in the document next to its body, after the attempt has been entered in a transaction
  record (ATR) as PENDING; a read decides from the record of the writer which version is visible.

  One operation runs at a time. The operations are asynchronous: the value of an \<open>outcome\<close> is
  what the callback is given, an exception or a result, while an exception of the code itself is the
  \<open>Inl\<close> of the surrounding computation. An exception thrown by the continuation of a response has
  no caller, the callback is never called, and there is no result. The decisions of the environment are
  read at the counter of the attempt.
\<close>

subsection \<open>Environment and outcomes\<close>

record stage_env =
  se_attempt :: attempt_env
  se_transaction_id :: string
  se_timeout :: int
  se_remaining :: "nat \<Rightarrow> int"
  se_now :: "nat \<Rightarrow> int"
  se_parse :: "bytes \<Rightarrow> json option"
  se_jsonify :: "json \<Rightarrow> bytes"
  se_atr_ids :: "string list"
  se_hook_atr :: "string option"
  se_metadata_collection :: "(string \<times> string \<times> string) option"
  se_open_fails :: "nat \<Rightarrow> bool"
  se_supports_revive :: "nat \<Rightarrow> bool option"
  se_uid :: "nat \<Rightarrow> string"

type_synonym 'a outcome = "txn_exception + 'a"

definition tick :: "(nat \<Rightarrow> 'a) \<Rightarrow> 'a attempt_code" where
  "tick f s = Some (Inr (f (at_clock s)), s\<lparr> at_clock := at_clock s + 1 \<rparr>)"

text \<open>A computation that looks at the attempt; one without effect; the continuation of a response.\<close>

definition read_state :: "(attempt \<Rightarrow> 'a attempt_code) \<Rightarrow> 'a attempt_code" where
  "read_state k s = k s s"

definition pure_code :: "'a fallible \<Rightarrow> 'a attempt_code" where
  "pure_code m s = map_option (\<lambda>r. (r, s)) m"

definition continuation :: "'a attempt_code \<Rightarrow> 'a attempt_code" where
  "continuation m s = (case m s of Some (Inr x, s') \<Rightarrow> Some (Inr x, s') | _ \<Rightarrow> None)"

text \<open>
  \<^verbatim>\<open>op_completed_with_error\<close> keeps a \<^verbatim>\<open>transaction_operation_failed\<close> in the list of the
  errors of the attempt.
\<close>

definition op_completed_with_error :: "txn_exception \<Rightarrow> 'a outcome attempt_code" where
  "op_completed_with_error e s =
     Some (Inr (Inl e), case e of Op_failed f \<Rightarrow> s\<lparr> at_errors := at_errors s @ [f] \<rparr> | _ \<Rightarrow> s)"

definition op_completed_with_callback :: "'a \<Rightarrow> 'a outcome attempt_code" where
  "op_completed_with_callback x = tx_return (Inr x)"

abbreviation op_failure :: "transaction_operation_failed \<Rightarrow> 'a outcome attempt_code" where
  "op_failure f \<equiv> op_completed_with_error (Op_failed f)"

text \<open>
  \<^verbatim>\<open>cache_error_async\<close>. Once an attempt is done its list of operations is closed, which is the
  \<^verbatim>\<open>async_operation_conflict\<close>; \<^verbatim>\<open>check_if_done\<close> comes after it.
\<close>

definition conflict_cause :: "attempt_state \<Rightarrow> external_exception" where
  "conflict_cause st =
     (case st of
        state_ABORTED \<Rightarrow> TRANSACTION_ALREADY_ABORTED
      | state_ROLLED_BACK \<Rightarrow> TRANSACTION_ALREADY_ABORTED
      | state_COMMITTED \<Rightarrow> TRANSACTION_ALREADY_COMMITTED
      | state_COMPLETED \<Rightarrow> TRANSACTION_ALREADY_COMMITTED
      | _ \<Rightarrow> UNKNOWN)"

definition cache_error_async_catch :: "txn_exception \<Rightarrow> 'a outcome attempt_code" where
  "cache_error_async_catch e =
     (case e of
        Op_failed f \<Rightarrow>
          (if tof_cause f = PREVIOUS_OPERATION_FAILED \<or> tof_cause f = FEATURE_NOT_AVAILABLE_EXCEPTION
           then op_completed_with_error e else (\<lambda>_. None))
      | Op_exception _ \<Rightarrow> op_completed_with_error e
      | _ \<Rightarrow> op_failure (op_failed FAIL_OTHER))"

definition cache_error_async :: "'a outcome attempt_code \<Rightarrow> 'a outcome attempt_code" where
  "cache_error_async func s =
     (if at_done s
      then Some (Inr (Inl (Op_failed (with_cause (conflict_cause (at_state s)) (op_failed FAIL_OTHER)))), s)
      else tx_catch (tx_then (existing_error True) func) cache_error_async_catch s)"

definition ensure_open_bucket :: "stage_env \<Rightarrow> string \<Rightarrow> bool attempt_code" where
  "ensure_open_bucket env bucket_name =
     (if bucket_name = [] then tx_return True else tick (se_open_fails env))"

text \<open>The rest of an operation is the continuation of opening the bucket.\<close>

definition in_open_bucket :: "stage_env \<Rightarrow> string \<Rightarrow> 'a outcome attempt_code \<Rightarrow> 'a outcome attempt_code" where
  "in_open_bucket env bucket_name body =
     tx_bind (ensure_open_bucket env bucket_name) (\<lambda>ec.
       continuation (if ec then op_failure (op_failed FAIL_OTHER) else body))"

definition hook :: "stage_env \<Rightarrow> error_class option attempt_code" where
  "hook env = wait_for_hook (se_attempt env)"

definition execute_doc_lookup :: "stage_env \<Rightarrow> document_id \<Rightarrow> lookup_in_response attempt_code" where
  "execute_doc_lookup env i s =
     (let resp = ae_lookup (se_attempt env) (at_clock s)
      in Some (Inr resp, s\<lparr> at_clock := at_clock s + 1, at_log := at_log s @ [Doc_read i resp] \<rparr>))"

definition execute_doc_mutate :: "stage_env \<Rightarrow> mutate_in_request \<Rightarrow> mutate_in_response attempt_code" where
  "execute_doc_mutate env req s =
     (let resp = ae_mutate (se_attempt env) (at_clock s)
      in Some (Inr resp, s\<lparr> at_clock := at_clock s + 1, at_log := at_log s @ [Doc_mutated req resp] \<rparr>))"

text \<open>A loop whose rounds end it or ask for another one.\<close>

datatype ('c, 'a) round = Done 'a | Again 'c

partial_function (option) round_loop ::
  "('c \<Rightarrow> ('s, ('c, 'a) round) txn_code) \<Rightarrow> 'c \<Rightarrow> ('s, 'a) txn_code" where
  "round_loop f c s = Option.bind (f c s) (\<lambda>r.
     case fst r of
       Inl e \<Rightarrow> Some (Inl e, snd r)
     | Inr (Done x) \<Rightarrow> Some (Inr x, snd r)
     | Inr (Again c') \<Rightarrow> round_loop f c' (snd r))"

subsection \<open>Reading the record of another attempt\<close>

text \<open>
  \<^verbatim>\<open>active_transaction_record::get_atr\<close>: the callback runs inside the handler of the exceptions of
  the parser, so it is called again when it throws.
\<close>

definition get_atr ::
  "stage_env \<Rightarrow> document_id \<Rightarrow> (bool \<Rightarrow> atr_entry list option \<Rightarrow> 'a attempt_code) \<Rightarrow> 'a attempt_code" where
  "get_atr env atr_id cb =
     tx_bind (execute_doc_lookup env atr_id) (\<lambda>resp.
       continuation (tx_catch
         (if li_ec resp = Some (errc_key_value key_value_document_not_found) then cb False None
          else if li_ec resp = None
          then tx_bind (pure_code (map_to_atr (se_parse env) resp)) (\<lambda>entries. cb False (Some entries))
          else cb True None)
         (\<lambda>_. cb True None)))"

definition write_write_conflict :: transaction_operation_failed where
  "write_write_conflict = with_retry (op_failed FAIL_WRITE_WRITE_CONFLICT)"

text \<open>\<^verbatim>\<open>optional::value\<close> of the four parts of the name of the record.\<close>

definition links_atr_id :: "transaction_links \<Rightarrow> document_id fallible" where
  "links_atr_id l =
     (case (tl_atr_bucket l, tl_atr_scope l, tl_atr_collection l, tl_atr_id l) of
        (Some b, Some s, Some c, Some k) \<Rightarrow> fb_return (mk_document_id b s c k)
      | _ \<Rightarrow> fb_throw)"

definition forward_compat_error ::
  "forward_compat_stage \<Rightarrow> json option \<Rightarrow> transaction_operation_failed option attempt_code" where
  "forward_compat_error stage fc = pure_code (fb_bind (check_forward_compat stage fc) (\<lambda>r. fb_return (map_option fst r)))"

definition blocking_entry ::
  "transaction_links \<Rightarrow> bool \<Rightarrow> atr_entry list option \<Rightarrow>
   (unit, transaction_operation_failed option) round attempt_code" where
  "blocking_entry l err entries =
     (if err then tx_return (Done (Some write_write_conflict))
      else case entries of
        None \<Rightarrow> tx_return (Done None)
      | Some es \<Rightarrow>
          (case find (\<lambda>e. Some (ent_attempt_id e) = tl_attempt_id l) es of
             None \<Rightarrow> tx_return (Done None)
           | Some e \<Rightarrow>
               tx_bind (forward_compat_error WRITE_WRITE_CONFLICT_READING_ATR (ent_forward_compat e)) (\<lambda>fwd_err.
                 case fwd_err of
                   Some f \<Rightarrow> tx_return (Done (Some f))
                 | None \<Rightarrow>
                     (if ent_state e = state_COMPLETED \<or> ent_state e = state_ROLLED_BACK
                      then tx_return (Done None) else tx_return (Again ())))))"

definition blocking_round ::
  "stage_env \<Rightarrow> transaction_links \<Rightarrow> (unit, transaction_operation_failed option) round attempt_code" where
  "blocking_round env l =
     tx_bind (hook env) (\<lambda>ec.
       if ec \<noteq> None then tx_return (Done (Some write_write_conflict))
       else tx_bind (pure_code (links_atr_id l)) (\<lambda>atr_id. get_atr env atr_id (blocking_entry l)))"

text \<open>
  The first call of the delay only starts its clock. Later calls are made by the callback of
  \<^verbatim>\<open>get_atr\<close>, so that every exception of the delay ends as a conflict.
\<close>

definition delay_left :: "exp_delay \<Rightarrow> nat" where
  "delay_left d = 2 * (100 - unat (xd_retries d)) + (if xd_end_time d = None then 1 else 0)"

lemma delay_left_call:
  assumes "exp_delay_call timeout now d = Inr d'"
  shows "delay_left d' < delay_left d"
proof (cases "xd_end_time d")
  case (Some t)
  then have d': "d' = d\<lparr> xd_retries := xd_retries d + 1 \<rparr>" and lt: "xd_retries d < 100"
    using assms by (auto simp: exp_delay_call_def split: if_splits)
  then have "unat (xd_retries d) < 100" by (simp add: word_less_nat_alt)
  moreover from this have "unat (xd_retries d + 1) = unat (xd_retries d) + 1"
    by (simp add: unat_word_ariths)
  ultimately show ?thesis using d' Some by (simp add: delay_left_def)
qed (use assms in \<open>auto simp: exp_delay_call_def delay_left_def split: if_splits\<close>)

function check_atr_entry_for_blocking_document ::
  "stage_env \<Rightarrow> transaction_links \<Rightarrow> exp_delay \<Rightarrow> transaction_operation_failed option attempt_code" where
  "check_atr_entry_for_blocking_document env l d s =
     (case exp_delay_call 1000000000 (se_now env (at_clock s)) d of
        Inl e \<Rightarrow> Some (Inr (Some write_write_conflict), s)
      | Inr d' \<Rightarrow>
          (case blocking_round env l (s\<lparr> at_clock := at_clock s + 1 \<rparr>) of
             None \<Rightarrow> None
           | Some (Inl e, s') \<Rightarrow> Some (Inl e, s')
           | Some (Inr (Done r), s') \<Rightarrow> Some (Inr r, s')
           | Some (Inr (Again _), s') \<Rightarrow> check_atr_entry_for_blocking_document env l d' s'))"
  by pat_completeness auto
termination check_atr_entry_for_blocking_document
  by (relation "measure (\<lambda>(env, l, d, s). delay_left d)") (auto dest: delay_left_call)

declare check_atr_entry_for_blocking_document.simps [simp del]

definition new_exp_delay :: exp_delay where
  "new_exp_delay = \<lparr> xd_retries = 0, xd_end_time = None \<rparr>"

definition check_and_handle_blocking_transactions ::
  "stage_env \<Rightarrow> transaction_get_result \<Rightarrow> forward_compat_stage \<Rightarrow> transaction_operation_failed option attempt_code" where
  "check_and_handle_blocking_transactions env doc stage =
     (let l = gr_links doc
      in if \<not> has_staged_write l \<or> tl_transaction_id l = Some (se_transaction_id env)
           \<or> tl_atr_id l = None \<or> tl_atr_bucket l = None
         then tx_return None
         else tx_bind (forward_compat_error stage (tl_forward_compat l)) (\<lambda>err.
           case err of
             Some f \<Rightarrow> tx_return (Some f)
           | None \<Rightarrow> check_atr_entry_for_blocking_document env l new_exp_delay))"

subsection \<open>Entering the attempt in a transaction record\<close>

definition store_durability_level_to_string :: "durability_level \<Rightarrow> string" where
  "store_durability_level_to_string level =
     (if level = 0 then ''n'' else if level = 1 then ''m'' else if level = 2 then ''pa''
      else if level = 3 then ''pm'' else ''m'')"

definition atr_pending_request :: "stage_env \<Rightarrow> document_id \<Rightarrow> int \<Rightarrow> atr_request" where
  "atr_pending_request env i remaining =
     (let a = se_attempt env; bounded = max (min remaining (se_timeout env)) 0
      in \<lparr> ar_id = i,
           ar_ops = [Atr_insert (atr_field a ''tid'') (Atr_string (se_transaction_id env)) True,
             Atr_insert (atr_field a ''st'') (Atr_string (attempt_state_name state_PENDING)) True,
             Atr_insert (atr_field a ''tst'') (Atr_macro mutation_cas) True,
             Atr_insert (atr_field a ''exp'') (Atr_int (bounded div 1000000)) True,
             Atr_insert (atr_field a ''d'') (Atr_string (store_durability_level_to_string (ae_level a))) True,
             Atr_set_doc (Atr_raw [0])],
           ar_level = ae_level a, ar_semantics = store_upsert \<rparr>)"

definition atr_pending_error ::
  "error_class \<Rightarrow> (unit, transaction_operation_failed option) round attempt_code" where
  "atr_pending_error ec s =
     (let err = op_failed ec; done = (\<lambda>r. Some (Inr (Done r), s))
      in if at_overtime s then done (Some (expired (no_rollback err)))
         else case ec of
           FAIL_EXPIRY \<Rightarrow> Some (Inr (Done (Some (expired err))), s\<lparr> at_overtime := True \<rparr>)
         | FAIL_ATR_FULL \<Rightarrow> done (Some err)
         | FAIL_PATH_ALREADY_EXISTS \<Rightarrow> done None
         | FAIL_AMBIGUOUS \<Rightarrow> Some (Inr (Again ()), s)
         | FAIL_TRANSIENT \<Rightarrow> done (Some (with_retry err))
         | FAIL_HARD \<Rightarrow> done (Some (no_rollback err))
         | _ \<Rightarrow> done (Some err))"

text \<open>
  A round of \<^verbatim>\<open>set_atr_pending_locked\<close>, which does nothing, and does not call back, when a
  mutation is already staged.
\<close>

definition response_error_class :: "mutate_in_response \<Rightarrow> error_class option attempt_code" where
  "response_error_class resp = pure_code (Some (error_class_from_response resp))"

definition set_atr_pending_reply ::
  "stage_env \<Rightarrow> mutate_in_response \<Rightarrow> (unit, transaction_operation_failed option) round attempt_code" where
  "set_atr_pending_reply env resp =
     tx_bind (response_error_class resp) (\<lambda>ec.
       case ec of
         Some c \<Rightarrow> atr_pending_error c
       | None \<Rightarrow>
           tx_bind (hook env) (\<lambda>ec.
             case ec of
               Some c \<Rightarrow> atr_pending_error c
             | None \<Rightarrow>
                 tx_then (tx_modify (\<lambda>s. s\<lparr> at_state := state_PENDING \<rparr>)) (tx_return (Done None))))"

definition set_atr_pending_round ::
  "stage_env \<Rightarrow> document_id \<Rightarrow> (unit, transaction_operation_failed option) round attempt_code" where
  "set_atr_pending_round env atr_id =
     tx_bind (error_if_expired_and_not_in_overtime (se_attempt env)) (\<lambda>ec.
       case ec of
         Some c \<Rightarrow> tx_return (Done (Some (expired (op_failed c))))
       | None \<Rightarrow>
           tx_bind (hook env) (\<lambda>ec.
             case ec of
               Some c \<Rightarrow> atr_pending_error c
             | None \<Rightarrow>
                 tx_bind (tick (se_remaining env)) (\<lambda>remaining.
                 tx_bind (execute_mutate_in (se_attempt env) (atr_pending_request env atr_id remaining)) (\<lambda>resp.
                   continuation (set_atr_pending_reply env resp)))))"

definition set_atr_pending :: "stage_env \<Rightarrow> transaction_operation_failed option attempt_code" where
  "set_atr_pending env s =
     (if \<not> smq_empty (at_queue s) then None
      else case at_atr_id s of
        None \<Rightarrow> Some (Inr (Some (op_failed FAIL_OTHER)), s)
      | Some atr_id \<Rightarrow> round_loop (\<lambda>_. set_atr_pending_round env atr_id) () s)"

text \<open>
  \<^verbatim>\<open>select_atr_if_needed_unlocked\<close>: an exception is logged, and the callback is not called.
\<close>

definition choose_atr_key :: "stage_env \<Rightarrow> document_id \<Rightarrow> string fallible" where
  "choose_atr_key env i =
     (case se_hook_atr env of
        Some k \<Rightarrow> fb_return k
      | None \<Rightarrow> atr_id_for_vbucket (se_atr_ids env) (vbucket_for_key (id_key i)))"

definition select_atr_if_needed :: "stage_env \<Rightarrow> document_id \<Rightarrow> transaction_operation_failed option attempt_code" where
  "select_atr_if_needed env i s =
     (if at_atr_id s \<noteq> None then Some (Inr None, s)
      else continuation (tx_bind (pure_code (choose_atr_key env i)) (\<lambda>key.
        tx_then (tx_modify (\<lambda>s. s\<lparr> at_state := state_NOT_STARTED,
            at_atr_id := Some (atr_id_from_bucket_and_key (se_metadata_collection env) (id_bucket i) key) \<rparr>))
          (set_atr_pending env))) s)"

subsection \<open>Fetching a document\<close>

definition lookup_error_class :: "lookup_in_response \<Rightarrow> error_class option" where
  "lookup_error_class resp =
     (case li_ec resp of
        None \<Rightarrow> None
      | Some e \<Rightarrow> (case error_class_of_code e of Some c \<Rightarrow> Some c | None \<Rightarrow> Some FAIL_OTHER))"

definition lookup_external_exception :: "lookup_in_response \<Rightarrow> external_exception fallible" where
  "lookup_external_exception resp =
     (if li_ec resp = Some (errc_key_value key_value_document_irretrievable)
      then fb_return DOCUMENT_UNRETRIEVABLE_EXCEPTION
      else case li_first_error_index resp of
        None \<Rightarrow> fb_return UNKNOWN
      | Some i \<Rightarrow>
          (if i < length (li_fields resp)
           then fb_return (if sf_status (li_fields resp ! i) = status_subdoc_value_cannot_insert
               \<and> sf_path (li_fields resp ! i) = ''txn.op.bin'' then FEATURE_NOT_AVAILABLE_EXCEPTION else UNKNOWN)
           else fb_throw))"

text \<open>The arguments of the callback of a read.\<close>

type_synonym doc_answer =
  "error_class option \<times> external_exception option \<times> transaction_get_result option"

definition lookup_answer :: "stage_env \<Rightarrow> document_id \<Rightarrow> lookup_in_response \<Rightarrow> doc_answer fallible" where
  "lookup_answer env i resp =
     (case lookup_error_class resp of
        Some FAIL_PATH_NOT_FOUND \<Rightarrow>
          fb_bind (lookup_external_exception resp) (\<lambda>cause.
          fb_bind (create_from_subdoc (se_parse env) i resp) (\<lambda>doc.
            fb_return (Some FAIL_PATH_NOT_FOUND, Some cause, Some doc)))
      | Some c \<Rightarrow> fb_bind (lookup_external_exception resp) (\<lambda>cause. fb_return (Some c, Some cause, None))
      | None \<Rightarrow> fb_bind (create_from_subdoc (se_parse env) i resp) (\<lambda>doc. fb_return (None, None, Some doc)))"

definition get_doc ::
  "stage_env \<Rightarrow> document_id \<Rightarrow> (doc_answer \<Rightarrow> 'a attempt_code) \<Rightarrow> 'a attempt_code" where
  "get_doc env i cb =
     tx_bind (execute_doc_lookup env i) (\<lambda>resp.
       continuation (tx_bind (pure_code (lookup_answer env i resp)) cb))"

subsection \<open>Staging a replace\<close>

definition document_metadata_for ::
  "stage_env \<Rightarrow> attempt \<Rightarrow> string \<Rightarrow> string \<Rightarrow> document_metadata option \<Rightarrow> u32 \<Rightarrow> bytes" where
  "document_metadata_for env s operation_type op_id metadata flags =
     se_jsonify env (create_document_metadata (se_transaction_id env) (ae_id (se_attempt env)) (at_atr_id s)
       operation_type op_id metadata flags)"

definition staging_specs :: "bytes \<Rightarrow> encoded_value \<Rightarrow> subdoc_command list" where
  "staging_specs txn content =
     (let binary = has_common_flags (ev_flags content) binary_common_flags
      in [spec_upsert ''txn'' txn True True False False,
          spec_upsert (if binary then ''txn.op.bin'' else ''txn.op.stgd'') (ev_data content) True False False binary,
          spec_upsert ''txn.op.crc32'' (macro_to_binary mutation_value_crc32c) True True True False])"

definition staged_replace_request ::
  "stage_env \<Rightarrow> attempt \<Rightarrow> document_id \<Rightarrow> encoded_value \<Rightarrow> u32 \<Rightarrow> u64 \<Rightarrow> string \<Rightarrow>
   document_metadata option \<Rightarrow> mutate_in_request" where
  "staged_replace_request env s i content original_flags cas op_id metadata =
     (new_mutate_in_request i)\<lparr>
       mq_specs := staging_specs (document_metadata_for env s ''replace'' op_id metadata (ev_flags content)) content,
       mq_durability_level := ae_level (se_attempt env), mq_cas := cas, mq_flags := Some original_flags,
       mq_access_deleted := True \<rparr>"

definition staged_replace_error ::
  "error_class \<Rightarrow> external_exception \<Rightarrow> 'a outcome attempt_code" where
  "staged_replace_error ec cause =
     (let err = with_cause cause (op_failed ec)
      in case ec of
           FAIL_DOC_NOT_FOUND \<Rightarrow> op_failure (with_retry err)
         | FAIL_DOC_ALREADY_EXISTS \<Rightarrow> op_failure (with_retry err)
         | FAIL_CAS_MISMATCH \<Rightarrow> op_failure (with_retry err)
         | FAIL_TRANSIENT \<Rightarrow> op_failure (with_retry err)
         | FAIL_AMBIGUOUS \<Rightarrow> op_failure (with_retry err)
         | FAIL_HARD \<Rightarrow> op_failure (no_rollback err)
         | _ \<Rightarrow> op_failure err)"

text \<open>The result given to the application: links to this attempt; the record is named in the
  bucket, scope and collection of the document.\<close>

definition staged_links ::
  "stage_env \<Rightarrow> document_id \<Rightarrow> document_id \<Rightarrow> encoded_value \<Rightarrow> string \<Rightarrow> string \<Rightarrow> bool \<Rightarrow> transaction_links" where
  "staged_links env atr i content op_id operation_type deleted =
     no_links\<lparr> tl_atr_id := Some (id_key atr), tl_atr_bucket := Some (id_bucket i),
       tl_atr_scope := Some (id_scope i), tl_atr_collection := Some (id_collection i),
       tl_transaction_id := Some (se_transaction_id env), tl_attempt_id := Some (ae_id (se_attempt env)),
       tl_operation_id := Some op_id,
       tl_content_json :=
         (if has_common_flags (ev_flags content) json_common_flags then Some content else None),
       tl_content_binary :=
         (if has_common_flags (ev_flags content) json_common_flags then None
          else if has_common_flags (ev_flags content) binary_common_flags then Some content else None),
       tl_op := Some operation_type, tl_deleted := deleted \<rparr>"

definition staged_entry ::
  "stage_env \<Rightarrow> attempt \<Rightarrow> staged_mutation_type \<Rightarrow> transaction_get_result \<Rightarrow> bool \<Rightarrow> u32 \<Rightarrow> staged_mutation" where
  "staged_entry env s t out supports user_flags =
     (let staged = staged_content_json_or_binary (gr_links out)
      in \<lparr> sm_type = t, sm_id = gr_id out, sm_cas = gr_cas out,
           sm_content = (if supports then None else Some (ev_data staged)), sm_staged_flags = ev_flags staged,
           sm_user_flags = user_flags, sm_metadata = gr_metadata out, sm_operation_id = se_uid env (at_clock s) \<rparr>)"

definition add_staged :: "staged_mutation \<Rightarrow> attempt \<Rightarrow> attempt" where
  "add_staged m s = s\<lparr> at_clock := at_clock s + 1, at_queue := smq_add m (at_queue s) \<rparr>"

definition response_cause :: "mutate_in_response \<Rightarrow> external_exception attempt_code" where
  "response_cause resp = pure_code (Some (external_exception_from_response resp))"

definition staged_replace_done ::
  "stage_env \<Rightarrow> document_id \<Rightarrow> encoded_value \<Rightarrow> u32 \<Rightarrow> string \<Rightarrow> document_metadata option \<Rightarrow>
   mutate_in_response \<Rightarrow> transaction_get_result outcome attempt_code" where
  "staged_replace_done env i content original_flags op_id metadata resp = read_state (\<lambda>s.
     case at_atr_id s of
        None \<Rightarrow> (\<lambda>_. None)
      | Some atr \<Rightarrow>
          (let out = \<lparr> gr_id = i, gr_content = content, gr_cas = mi_cas resp,
                 gr_links = staged_links env atr i content op_id ''replace'' False, gr_metadata = metadata \<rparr>
           in tx_bind (tick (se_supports_revive env)) (\<lambda>supports.
                continuation (case supports of
                  None \<Rightarrow> staged_replace_error FAIL_OTHER UNKNOWN
                | Some b \<Rightarrow>
                    tx_then (tx_modify (\<lambda>s. add_staged (staged_entry env s mutation_REPLACE out b original_flags) s))
                      (op_completed_with_callback out)))))"

definition staged_replace_reply ::
  "stage_env \<Rightarrow> document_id \<Rightarrow> encoded_value \<Rightarrow> u32 \<Rightarrow> string \<Rightarrow> document_metadata option \<Rightarrow>
   mutate_in_response \<Rightarrow> transaction_get_result outcome attempt_code" where
  "staged_replace_reply env i content original_flags op_id metadata resp =
     tx_bind (response_error_class resp) (\<lambda>ec.
       case ec of
         Some c \<Rightarrow> tx_bind (response_cause resp) (staged_replace_error c)
       | None \<Rightarrow>
           tx_bind (hook env) (\<lambda>ec.
             case ec of
               Some c \<Rightarrow> staged_replace_error c UNKNOWN
             | None \<Rightarrow> staged_replace_done env i content original_flags op_id metadata resp))"

definition create_staged_replace ::
  "stage_env \<Rightarrow> document_id \<Rightarrow> encoded_value \<Rightarrow> u32 \<Rightarrow> u64 \<Rightarrow> string \<Rightarrow> document_metadata option \<Rightarrow>
   transaction_get_result outcome attempt_code" where
  "create_staged_replace env i content original_flags cas op_id metadata =
     tx_bind (hook env) (\<lambda>ec.
       case ec of
         Some c \<Rightarrow> staged_replace_error c UNKNOWN
       | None \<Rightarrow> read_state (\<lambda>s.
           tx_bind (execute_doc_mutate env
               (staged_replace_request env s i content original_flags cas op_id metadata)) (\<lambda>resp.
             continuation (staged_replace_reply env i content original_flags op_id metadata resp))))"

subsection \<open>Staging an insert\<close>

definition staged_insert_request ::
  "stage_env \<Rightarrow> attempt \<Rightarrow> document_id \<Rightarrow> encoded_value \<Rightarrow> u64 \<Rightarrow> string \<Rightarrow> mutate_in_request" where
  "staged_insert_request env s i content cas op_id =
     (new_mutate_in_request i)\<lparr>
       mq_specs := staging_specs (document_metadata_for env s ''insert'' op_id None (ev_flags content)) content,
       mq_durability_level := ae_level (se_attempt env), mq_access_deleted := True,
       mq_create_as_deleted := True, mq_flags := Some (ev_flags content), mq_cas := cas,
       mq_store_semantics := (if cas = 0 then store_insert else store_replace) \<rparr>"

text \<open>A round ends with the outcome, or with the CAS the insert is repeated with.\<close>

type_synonym insert_round = "(u64, transaction_get_result outcome) round"

definition round_done :: "'a outcome attempt_code \<Rightarrow> ('c, 'a outcome) round attempt_code" where
  "round_done m = tx_bind m (\<lambda>r. tx_return (Done r))"

definition existing_doc_error :: "error_class \<Rightarrow> insert_round attempt_code" where
  "existing_doc_error ec = read_state (\<lambda>s.
     round_done
       (if at_overtime s then op_failure (expired (op_failed FAIL_EXPIRY))
        else case ec of
          FAIL_DOC_NOT_FOUND \<Rightarrow> op_failure (with_retry (op_failed ec))
        | FAIL_TRANSIENT \<Rightarrow> op_failure (with_retry (op_failed ec))
        | _ \<Rightarrow> op_failure (op_failed ec)))"

text \<open>A document was found where one is to be inserted.\<close>

definition insert_over ::
  "stage_env \<Rightarrow> encoded_value \<Rightarrow> string \<Rightarrow> transaction_get_result \<Rightarrow> insert_round attempt_code" where
  "insert_over env content op_id doc =
     (let l = gr_links doc
      in tx_bind (forward_compat_error WRITE_WRITE_CONFLICT_INSERTING_GET (tl_forward_compat l)) (\<lambda>err.
         case err of
           Some f \<Rightarrow> round_done (op_failure f)
         | None \<Rightarrow>
             (if \<not> is_document_in_transaction l \<and> tl_deleted l then tx_return (Again (gr_cas doc))
              else if \<not> is_document_in_transaction l
              then round_done (op_completed_with_error (Op_exception DOCUMENT_EXISTS_EXCEPTION))
              else if tl_attempt_id l = Some (ae_id (se_attempt env))
              then (if tl_operation_id l = Some op_id
                    then tx_then (tx_modify (\<lambda>s. add_staged \<lparr> sm_type = mutation_INSERT, sm_id = gr_id doc,
                            sm_cas = gr_cas doc, sm_content = Some (ev_data content),
                            sm_staged_flags = ev_flags content, sm_user_flags = ev_flags (gr_content doc),
                            sm_metadata = gr_metadata doc, sm_operation_id = se_uid env (at_clock s) \<rparr> s))
                          (round_done (op_completed_with_callback doc))
                    else round_done (op_failure
                      (with_cause CONCURRENT_OPERATIONS_DETECTED_ON_SAME_DOCUMENT (op_failed FAIL_OTHER))))
              else if tl_op l \<noteq> None \<and> tl_op l \<noteq> Some ''insert''
              then round_done (op_completed_with_error (Op_exception DOCUMENT_EXISTS_EXCEPTION))
              else tx_bind (check_and_handle_blocking_transactions env doc WRITE_WRITE_CONFLICT_INSERTING) (\<lambda>err.
                case err of
                  Some f \<Rightarrow> round_done (op_failure f)
                | None \<Rightarrow> tx_return (Again (gr_cas doc))))))"

definition insert_existing_doc ::
  "stage_env \<Rightarrow> document_id \<Rightarrow> encoded_value \<Rightarrow> string \<Rightarrow> insert_round attempt_code" where
  "insert_existing_doc env i content op_id =
     tx_bind (hook env) (\<lambda>ec.
       case ec of
         Some c \<Rightarrow> existing_doc_error c
       | None \<Rightarrow>
           get_doc env i (\<lambda>(ec, _, doc).
             case ec of
               Some c \<Rightarrow> existing_doc_error c
             | None \<Rightarrow>
                 (case doc of
                    None \<Rightarrow> round_done (op_failure (with_retry (op_failed FAIL_DOC_NOT_FOUND)))
                  | Some d \<Rightarrow> insert_over env content op_id d)))"

definition create_staged_insert_error_handler ::
  "stage_env \<Rightarrow> document_id \<Rightarrow> encoded_value \<Rightarrow> u64 \<Rightarrow> string \<Rightarrow> error_class \<Rightarrow> external_exception \<Rightarrow>
   insert_round attempt_code" where
  "create_staged_insert_error_handler env i content cas op_id ec cause s =
     (if at_overtime s then round_done (op_failure (expired (op_failed FAIL_EXPIRY))) s
      else case ec of
        FAIL_EXPIRY \<Rightarrow> round_done (op_failure (expired (op_failed ec))) (s\<lparr> at_overtime := True \<rparr>)
      | FAIL_TRANSIENT \<Rightarrow> round_done (op_failure (with_retry (op_failed ec))) s
      | FAIL_AMBIGUOUS \<Rightarrow> tx_return (Again cas) s
      | FAIL_OTHER \<Rightarrow> round_done (op_failure (with_cause cause (op_failed ec))) s
      | FAIL_HARD \<Rightarrow> round_done (op_failure (no_rollback (op_failed ec))) s
      | FAIL_DOC_ALREADY_EXISTS \<Rightarrow> insert_existing_doc env i content op_id s
      | FAIL_CAS_MISMATCH \<Rightarrow> insert_existing_doc env i content op_id s
      | _ \<Rightarrow> round_done (op_failure (with_retry (op_failed ec))) s)"

definition staged_insert_done ::
  "stage_env \<Rightarrow> document_id \<Rightarrow> encoded_value \<Rightarrow> u64 \<Rightarrow> string \<Rightarrow> mutate_in_response \<Rightarrow> insert_round attempt_code" where
  "staged_insert_done env i content cas op_id resp =
     tx_bind (tick (se_supports_revive env)) (\<lambda>supports.
       continuation (case supports of
         None \<Rightarrow> create_staged_insert_error_handler env i content cas op_id FAIL_OTHER UNKNOWN
       | Some b \<Rightarrow> read_state (\<lambda>s.
           (case at_atr_id s of
              None \<Rightarrow> (\<lambda>_. None)
            | Some atr \<Rightarrow>
                (let out = \<lparr> gr_id = i, gr_content = content, gr_cas = mi_cas resp,
                       gr_links = staged_links env atr i content op_id ''insert'' True, gr_metadata = None \<rparr>;
                     staged_flags = ev_flags (staged_content_json_or_binary (gr_links out))
                 in tx_then (tx_modify (\<lambda>s. add_staged (staged_entry env s mutation_INSERT out b staged_flags) s))
                      (round_done (op_completed_with_callback out)))))))"

definition staged_insert_reply ::
  "stage_env \<Rightarrow> document_id \<Rightarrow> encoded_value \<Rightarrow> u64 \<Rightarrow> string \<Rightarrow> mutate_in_response \<Rightarrow> insert_round attempt_code" where
  "staged_insert_reply env i content cas op_id resp =
     (let failed = (\<lambda>c. tx_bind (response_cause resp) (create_staged_insert_error_handler env i content cas op_id c))
      in tx_bind (response_error_class resp) (\<lambda>ec.
         case ec of
           Some c \<Rightarrow> failed c
         | None \<Rightarrow>
             tx_bind (hook env) (\<lambda>ec.
               case ec of Some c \<Rightarrow> failed c | None \<Rightarrow> staged_insert_done env i content cas op_id resp)))"

definition create_staged_insert_round ::
  "stage_env \<Rightarrow> document_id \<Rightarrow> encoded_value \<Rightarrow> string \<Rightarrow> u64 \<Rightarrow> insert_round attempt_code" where
  "create_staged_insert_round env i content op_id cas =
     (let failed = (\<lambda>c. create_staged_insert_error_handler env i content cas op_id c UNKNOWN)
      in tx_bind (error_if_expired_and_not_in_overtime (se_attempt env)) (\<lambda>ec.
         case ec of
           Some c \<Rightarrow> failed c
         | None \<Rightarrow>
             tx_bind (hook env) (\<lambda>ec.
               case ec of
                 Some c \<Rightarrow> failed c
               | None \<Rightarrow> read_state (\<lambda>s.
                   tx_bind (execute_doc_mutate env (staged_insert_request env s i content cas op_id)) (\<lambda>resp.
                     continuation (staged_insert_reply env i content cas op_id resp))))))"

function create_staged_insert_loop ::
  "stage_env \<Rightarrow> document_id \<Rightarrow> encoded_value \<Rightarrow> string \<Rightarrow> u64 \<Rightarrow> exp_delay \<Rightarrow>
   transaction_get_result outcome attempt_code" where
  "create_staged_insert_loop env i content op_id cas d s =
     (case create_staged_insert_round env i content op_id cas s of
        None \<Rightarrow> None
      | Some (Inl e, s') \<Rightarrow> Some (Inl e, s')
      | Some (Inr (Done r), s') \<Rightarrow> Some (Inr r, s')
      | Some (Inr (Again cas'), s') \<Rightarrow>
          (case exp_delay_call (se_timeout env) (se_now env (at_clock s')) d of
             Inl e \<Rightarrow> None
           | Inr d' \<Rightarrow> create_staged_insert_loop env i content op_id cas' d' (s'\<lparr> at_clock := at_clock s' + 1 \<rparr>)))"
  by pat_completeness auto
termination create_staged_insert_loop
  by (relation "measure (\<lambda>(env, i, content, op_id, cas, d, s). delay_left d)") (auto dest: delay_left_call)

declare create_staged_insert_loop.simps [simp del]

definition create_staged_insert ::
  "stage_env \<Rightarrow> document_id \<Rightarrow> encoded_value \<Rightarrow> u64 \<Rightarrow> string \<Rightarrow> transaction_get_result outcome attempt_code" where
  "create_staged_insert env i content cas op_id =
     create_staged_insert_loop env i content op_id cas new_exp_delay"

subsection \<open>Writing\<close>

text \<open>The error an earlier step of an operation gave to its callback ends the operation.\<close>

definition unless_failed ::
  "transaction_operation_failed option attempt_code \<Rightarrow> 'a outcome attempt_code \<Rightarrow> 'a outcome attempt_code" where
  "unless_failed m k = tx_bind m (\<lambda>err. case err of Some f \<Rightarrow> op_failure f | None \<Rightarrow> k)"

definition doc_not_found :: transaction_operation_failed where
  "doc_not_found = with_cause DOCUMENT_NOT_FOUND_EXCEPTION (op_failed FAIL_DOC_NOT_FOUND)"

definition own_mutation :: "document_id \<Rightarrow> attempt \<Rightarrow> staged_mutation option" where
  "own_mutation i s = smq_find_any i (at_queue s)"

definition insert_body ::
  "stage_env \<Rightarrow> document_id \<Rightarrow> encoded_value \<Rightarrow> transaction_get_result outcome attempt_code" where
  "insert_body env i content =
     tx_bind (tick (se_uid env)) (\<lambda>op_id. read_state (\<lambda>s.
       case own_mutation i s of
          Some m \<Rightarrow>
            (if sm_type m = mutation_INSERT \<or> sm_type m = mutation_REPLACE
             then op_completed_with_error (Op_exception DOCUMENT_EXISTS_EXCEPTION)
             else tx_bind (check_expiry_pre_commit (se_attempt env)) (\<lambda>is_expired.
               if is_expired then op_failure (expired (op_failed FAIL_EXPIRY))
               else unless_failed (select_atr_if_needed env i)
                 (create_staged_replace env (sm_id m) content (sm_user_flags m) (sm_cas m) op_id (sm_metadata m))))
        | None \<Rightarrow>
            tx_bind (check_expiry_pre_commit (se_attempt env)) (\<lambda>is_expired.
              if is_expired then op_failure (expired (op_failed FAIL_EXPIRY))
              else unless_failed (select_atr_if_needed env i) (create_staged_insert env i content 0 op_id))))"

definition txn_insert ::
  "stage_env \<Rightarrow> document_id \<Rightarrow> encoded_value \<Rightarrow> transaction_get_result outcome attempt_code" where
  "txn_insert env i content = cache_error_async (in_open_bucket env (id_bucket i) (insert_body env i content))"

definition replace_body ::
  "stage_env \<Rightarrow> transaction_get_result \<Rightarrow> encoded_value \<Rightarrow> transaction_get_result outcome attempt_code" where
  "replace_body env doc content =
     tx_bind (tick (se_uid env)) (\<lambda>op_id. read_state (\<lambda>s.
       if id_key (gr_id doc) = [] \<or> id_bucket (gr_id doc) = [] then op_failure doc_not_found
        else if map_option sm_type (own_mutation (gr_id doc) s) = Some mutation_REMOVE then op_failure doc_not_found
        else tx_bind (check_expiry_pre_commit (se_attempt env)) (\<lambda>is_expired.
          if is_expired then op_failure (expired (op_failed FAIL_EXPIRY))
          else unless_failed (check_and_handle_blocking_transactions env doc WRITE_WRITE_CONFLICT_REPLACING)
            (unless_failed (select_atr_if_needed env (gr_id doc))
              (if map_option sm_type (own_mutation (gr_id doc) s) = Some mutation_INSERT
               then create_staged_insert env (gr_id doc) content (gr_cas doc) op_id
               else create_staged_replace env (gr_id doc) content (ev_flags (gr_content doc)) (gr_cas doc) op_id
                 (gr_metadata doc))))))"

definition txn_replace ::
  "stage_env \<Rightarrow> transaction_get_result \<Rightarrow> encoded_value \<Rightarrow> transaction_get_result outcome attempt_code" where
  "txn_replace env doc content =
     cache_error_async (in_open_bucket env (id_bucket (gr_id doc)) (replace_body env doc content))"

definition remove_error :: "error_class \<Rightarrow> unit outcome attempt_code" where
  "remove_error ec =
     (let err = op_failed ec
      in case ec of
           FAIL_EXPIRY \<Rightarrow>
             tx_then (tx_modify (\<lambda>s. s\<lparr> at_overtime := True \<rparr>)) (op_failure (expired err))
         | FAIL_DOC_NOT_FOUND \<Rightarrow> op_failure (with_retry err)
         | FAIL_DOC_ALREADY_EXISTS \<Rightarrow> op_failure (with_retry err)
         | FAIL_CAS_MISMATCH \<Rightarrow> op_failure (with_retry err)
         | FAIL_TRANSIENT \<Rightarrow> op_failure (with_retry err)
         | FAIL_AMBIGUOUS \<Rightarrow> op_failure (with_retry err)
         | FAIL_HARD \<Rightarrow> op_failure (no_rollback err)
         | _ \<Rightarrow> op_failure err)"

definition staged_remove_request ::
  "stage_env \<Rightarrow> attempt \<Rightarrow> transaction_get_result \<Rightarrow> string \<Rightarrow> mutate_in_request" where
  "staged_remove_request env s doc op_id =
     (new_mutate_in_request (gr_id doc))\<lparr>
       mq_specs := [spec_upsert ''txn'' (document_metadata_for env s ''remove'' op_id (gr_metadata doc) 0)
           True True False False,
         spec_upsert ''txn.op.crc32'' (macro_to_binary mutation_value_crc32c) True True True False],
       mq_durability_level := ae_level (se_attempt env), mq_cas := gr_cas doc,
       mq_access_deleted := tl_deleted (gr_links doc) \<rparr>"

definition staged_remove_reply ::
  "stage_env \<Rightarrow> transaction_get_result \<Rightarrow> mutate_in_response \<Rightarrow> unit outcome attempt_code" where
  "staged_remove_reply env doc resp =
     tx_bind (response_error_class resp) (\<lambda>ec.
       case ec of
         Some c \<Rightarrow> remove_error c
       | None \<Rightarrow>
           tx_bind (hook env) (\<lambda>ec.
             case ec of
               Some c \<Rightarrow> remove_error c
             | None \<Rightarrow>
                 tx_then (tx_modify (\<lambda>s. add_staged \<lparr> sm_type = mutation_REMOVE, sm_id = gr_id doc,
                     sm_cas = mi_cas resp, sm_content = None, sm_staged_flags = ev_flags (gr_content doc),
                     sm_user_flags = ev_flags (gr_content doc), sm_metadata = gr_metadata doc,
                     sm_operation_id = se_uid env (at_clock s) \<rparr> s))
                   (op_completed_with_callback ())))"

definition create_staged_remove ::
  "stage_env \<Rightarrow> transaction_get_result \<Rightarrow> string \<Rightarrow> unit outcome attempt_code" where
  "create_staged_remove env doc op_id =
     tx_bind (hook env) (\<lambda>ec.
       case ec of
         Some c \<Rightarrow> remove_error c
       | None \<Rightarrow> read_state (\<lambda>s.
           tx_bind (execute_doc_mutate env (staged_remove_request env s doc op_id)) (\<lambda>resp.
             continuation (staged_remove_reply env doc resp))))"

definition remove_staged_insert_error :: "error_class \<Rightarrow> unit outcome attempt_code" where
  "remove_staged_insert_error ec =
     (case ec of
        FAIL_HARD \<Rightarrow> op_failure (no_rollback (op_failed ec)) | _ \<Rightarrow> op_failure (with_retry (op_failed ec)))"

definition remove_staged_insert_request :: "stage_env \<Rightarrow> document_id \<Rightarrow> mutate_in_request" where
  "remove_staged_insert_request env i =
     (new_mutate_in_request i)\<lparr> mq_specs := [spec_remove ''txn'' True],
       mq_durability_level := ae_level (se_attempt env), mq_access_deleted := True \<rparr>"

definition remove_staged_insert_reply ::
  "stage_env \<Rightarrow> document_id \<Rightarrow> mutate_in_response \<Rightarrow> unit outcome attempt_code" where
  "remove_staged_insert_reply env i resp =
     tx_bind (response_error_class resp) (\<lambda>ec.
       case ec of
         Some c \<Rightarrow> remove_staged_insert_error c
       | None \<Rightarrow>
           tx_bind (hook env) (\<lambda>ec.
             case ec of
               Some c \<Rightarrow> remove_staged_insert_error c
             | None \<Rightarrow>
                 tx_then (tx_modify (\<lambda>s. s\<lparr> at_queue := smq_remove_any i (at_queue s) \<rparr>))
                   (op_completed_with_callback ())))"

definition remove_staged_insert :: "stage_env \<Rightarrow> document_id \<Rightarrow> unit outcome attempt_code" where
  "remove_staged_insert env i =
     tx_bind (error_if_expired_and_not_in_overtime (se_attempt env)) (\<lambda>ec.
       if ec \<noteq> None then op_failure (expired (no_rollback (op_failed FAIL_EXPIRY)))
       else tx_bind (hook env) (\<lambda>ec.
         case ec of
           Some c \<Rightarrow> remove_staged_insert_error c
         | None \<Rightarrow>
             tx_bind (execute_doc_mutate env (remove_staged_insert_request env i)) (\<lambda>resp.
               continuation (remove_staged_insert_reply env i resp))))"

definition remove_body :: "stage_env \<Rightarrow> transaction_get_result \<Rightarrow> unit outcome attempt_code" where
  "remove_body env doc = read_state (\<lambda>s.
     let existing = map_option sm_type (own_mutation (gr_id doc) s)
     in tx_bind (check_expiry_pre_commit (se_attempt env)) (\<lambda>is_expired.
           if is_expired then remove_error FAIL_EXPIRY
           else tx_bind (tick (se_uid env)) (\<lambda>op_id.
             if existing = Some mutation_REMOVE then op_failure doc_not_found
             else if existing = Some mutation_INSERT then remove_staged_insert env (gr_id doc)
             else unless_failed (check_and_handle_blocking_transactions env doc WRITE_WRITE_CONFLICT_REMOVING)
               (unless_failed (select_atr_if_needed env (gr_id doc))
                 (create_staged_remove env doc op_id)))))"

definition txn_remove :: "stage_env \<Rightarrow> transaction_get_result \<Rightarrow> unit outcome attempt_code" where
  "txn_remove env doc = cache_error_async (in_open_bucket env (id_bucket (gr_id doc)) (remove_body env doc))"

subsection \<open>Reading\<close>

definition check_for_own_write :: "document_id \<Rightarrow> attempt \<Rightarrow> staged_mutation option" where
  "check_for_own_write i s =
     (case smq_find_replace i (at_queue s) of Some m \<Rightarrow> Some m | None \<Rightarrow> smq_find_insert i (at_queue s))"

definition own_write_content :: "document_id \<Rightarrow> attempt \<Rightarrow> transaction_get_result option" where
  "own_write_content i s =
     Option.bind (check_for_own_write i s) (\<lambda>m.
       map_option (\<lambda>content. \<lparr> gr_id = sm_id m,
         gr_content = \<lparr> ev_data = content, ev_flags = sm_staged_flags m \<rparr>, gr_cas = sm_cas m,
         gr_links = no_links, gr_metadata = None \<rparr>) (sm_content m))"

text \<open>What is visible of a document staged by an attempt whose entry was read.\<close>

definition visible_by_entry ::
  "stage_env \<Rightarrow> transaction_get_result \<Rightarrow> atr_entry \<Rightarrow> doc_answer attempt_code" where
  "visible_by_entry env doc e =
     (let l = gr_links doc
      in if ent_attempt_id e = ae_id (se_attempt env)
         then tx_return (None, None, Some (create_from doc (staged_content_json_or_binary l)))
         else tx_bind (forward_compat_error GETS_READING_ATR (ent_forward_compat e)) (\<lambda>err.
           case err of
             Some f \<Rightarrow> tx_return (Some FAIL_OTHER, Some (tof_cause f), None)
           | None \<Rightarrow>
               (if ent_state e = state_COMPLETED \<or> ent_state e = state_COMMITTED
                then (if is_document_being_removed l then tx_return (None, None, None)
                      else tx_return (None, None, Some (create_from doc (staged_content_json_or_binary l))))
                else if is_document_being_inserted l then tx_return (None, None, None)
                else tx_return (None, None, Some (create_from doc (gr_content doc))))))"

definition visible_by_record ::
  "stage_env \<Rightarrow> transaction_get_result \<Rightarrow> bool \<Rightarrow> atr_entry list option \<Rightarrow>
   (string option, doc_answer) round attempt_code" where
  "visible_by_record env doc err entries =
     (let l = gr_links doc
      in case (err, entries) of
           (False, Some es) \<Rightarrow>
             (case tl_attempt_id l of
                None \<Rightarrow> (if es = [] then tx_return (Again None) else tx_throw Std_exception)
              | Some a \<Rightarrow>
                  (case find (\<lambda>e. a = ent_attempt_id e) es of
                     Some e \<Rightarrow> tx_bind (visible_by_entry env doc e) (\<lambda>r. tx_return (Done r))
                   | None \<Rightarrow> tx_return (Again (Some a))))
         | _ \<Rightarrow> tx_return (Again (tl_attempt_id l)))"

definition visible_doc ::
  "stage_env \<Rightarrow> string option \<Rightarrow> doc_answer \<Rightarrow> (string option, doc_answer) round attempt_code" where
  "visible_doc env resolving = (\<lambda>(ec, cause, doc).
     case (ec, doc) of
       (Some c, _) \<Rightarrow> tx_return (Done (Some c, cause, None))
     | (None, None) \<Rightarrow> tx_return (Done (None, None, None))
     | (None, Some d) \<Rightarrow>
         (let l = gr_links d
          in if \<not> is_document_in_transaction l
             then tx_return (Done (None, None, if tl_deleted l then None else Some d))
             else if tl_attempt_id l = Some (ae_id (se_attempt env))
             then tx_return (Done (None, None,
               if is_document_being_removed l then None
               else Some (create_from d (staged_content_json_or_binary l))))
             else if resolving \<noteq> None \<and> resolving = tl_attempt_id l
             then tx_return (Done (None, None, if is_document_being_inserted l then None else Some d))
             else tx_bind (pure_code (links_atr_id l)) (\<lambda>atr_id. get_atr env atr_id (visible_by_record env d))))"

text \<open>
  A round of \<^verbatim>\<open>do_get\<close>; another one follows when the entry of the writer is not in the record.
\<close>

definition do_get_round ::
  "stage_env \<Rightarrow> document_id \<Rightarrow> string option \<Rightarrow> (string option, doc_answer) round attempt_code" where
  "do_get_round env i resolving =
     tx_bind (check_expiry_pre_commit (se_attempt env)) (\<lambda>is_expired. read_state (\<lambda>s.
       if is_expired then tx_return (Done (Some FAIL_EXPIRY, None, None))
        else case own_write_content i s of
          Some d \<Rightarrow> tx_return (Done (None, None, Some d))
        | None \<Rightarrow>
            (if smq_find_remove i (at_queue s) \<noteq> None
             then tx_return (Done (Some FAIL_DOC_NOT_FOUND, None, None))
             else tx_bind (hook env) (\<lambda>ec.
               if ec \<noteq> None then tx_return (Done (ec, None, None))
               else get_doc env i (visible_doc env resolving)))))"

definition do_get :: "stage_env \<Rightarrow> document_id \<Rightarrow> doc_answer attempt_code" where
  "do_get env i = round_loop (do_get_round env i) None"

definition get_error ::
  "error_class \<Rightarrow> external_exception option \<Rightarrow> transaction_operation_failed" where
  "get_error ec cause =
     (case ec of
        FAIL_EXPIRY \<Rightarrow> expired (op_failed ec)
      | FAIL_DOC_NOT_FOUND \<Rightarrow> doc_not_found
      | FAIL_TRANSIENT \<Rightarrow> with_retry (op_failed ec)
      | FAIL_HARD \<Rightarrow> no_rollback (op_failed ec)
      | _ \<Rightarrow> op_failed_cause FAIL_OTHER cause)"

text \<open>
  \<^verbatim>\<open>get\<close>: when there is neither an error nor a document, the empty optional with the error class is
  dereferenced, which is undefined.
\<close>

definition get_handler ::
  "external_exception option \<Rightarrow> transaction_get_result option \<Rightarrow> error_class option \<Rightarrow>
   transaction_get_result outcome attempt_code" where
  "get_handler cause res ec =
     (case (ec, res) of
        (Some c, _) \<Rightarrow> op_failure (get_error c cause)
      | (None, None) \<Rightarrow> (\<lambda>_. None)
      | (None, Some d) \<Rightarrow>
          unless_failed (forward_compat_error GETS (tl_forward_compat (gr_links d)))
            (op_completed_with_callback d))"

definition txn_get :: "stage_env \<Rightarrow> document_id \<Rightarrow> transaction_get_result outcome attempt_code" where
  "txn_get env i =
     cache_error_async (tx_bind (do_get env i) (\<lambda>(ec, cause, res).
       continuation (case ec of
         Some c \<Rightarrow> get_handler cause res (Some c)
       | None \<Rightarrow> tx_bind (hook env) (get_handler cause res))))"

definition get_optional_error ::
  "error_class \<Rightarrow> external_exception option \<Rightarrow> transaction_get_result option outcome attempt_code" where
  "get_optional_error ec cause =
     (case ec of
        FAIL_EXPIRY \<Rightarrow> op_failure (expired (op_failed_cause ec cause))
      | FAIL_DOC_NOT_FOUND \<Rightarrow> op_completed_with_callback None
      | FAIL_TRANSIENT \<Rightarrow> op_failure (with_retry (op_failed_cause ec cause))
      | FAIL_HARD \<Rightarrow> op_failure (no_rollback (op_failed_cause ec cause))
      | _ \<Rightarrow> op_failure (op_failed_cause FAIL_OTHER cause))"

definition get_optional_handler ::
  "external_exception option \<Rightarrow> transaction_get_result option \<Rightarrow> error_class option \<Rightarrow>
   transaction_get_result option outcome attempt_code" where
  "get_optional_handler cause res ec =
     (case (ec, res) of
        (Some c, _) \<Rightarrow> get_optional_error c cause
      | (None, None) \<Rightarrow> op_completed_with_callback None
      | (None, Some d) \<Rightarrow>
          unless_failed (forward_compat_error GETS (tl_forward_compat (gr_links d)))
            (op_completed_with_callback (Some d)))"

definition txn_get_optional ::
  "stage_env \<Rightarrow> document_id \<Rightarrow> transaction_get_result option outcome attempt_code" where
  "txn_get_optional env i =
     cache_error_async (in_open_bucket env (id_bucket i)
       (tx_bind (do_get env i) (\<lambda>(ec, cause, res).
         continuation (case ec of
           Some c \<Rightarrow> get_optional_handler cause res (Some c)
         | None \<Rightarrow> tx_bind (hook env) (get_optional_handler cause res)))))"

end
