(* ===== verification/Stage_Safety.thy ===== *)
theory Stage_Safety
  imports Staging
begin

text \<open>
  What holds of an attempt while the application runs its operations, by symbolic execution of
  \<open>Staging\<close>: \<open>wp m Q s\<close> says that \<open>Q\<close> holds of the result and the state of \<open>m\<close>
  started in \<open>s\<close>, if it has a result. One invariant carries the properties: documents are
  staged only after the attempt is PENDING in its transaction record, every entry of the queue of
  staged mutations is known to the server under its CAS, and nothing of a commit or a rollback is in
  the log. An application is a program of operations whose continuation depends on their outcomes.
\<close>

subsection \<open>Symbolic execution\<close>

definition wp :: "('s, 'a) txn_code \<Rightarrow> (txn_exception + 'a \<Rightarrow> 's \<Rightarrow> bool) \<Rightarrow> 's \<Rightarrow> bool" where
  "wp m Q s \<longleftrightarrow> (case m s of None \<Rightarrow> True | Some (r, s') \<Rightarrow> Q r s')"

named_theorems wp_simps

lemma wp_iff: "wp m Q s \<longleftrightarrow> (\<forall>r s'. m s = Some (r, s') \<longrightarrow> Q r s')"
  by (auto simp: wp_def split: option.split)

lemma wpD: "wp m Q s \<Longrightarrow> m s = Some (r, s') \<Longrightarrow> Q r s'"
  by (simp add: wp_iff)

lemma wp_mono: "wp m Q s \<Longrightarrow> (\<And>r s'. Q r s' \<Longrightarrow> Q' r s') \<Longrightarrow> wp m Q' s"
  by (auto simp: wp_iff)

lemma wp_return [wp_simps]: "wp (tx_return x) Q = Q (Inr x)"
  by (simp add: fun_eq_iff wp_def tx_defs)

lemma wp_throw [wp_simps]: "wp (tx_throw e) Q = Q (Inl e)"
  by (simp add: fun_eq_iff wp_def tx_defs)

lemma wp_modify [wp_simps]: "wp (tx_modify f) Q = (\<lambda>s. Q (Inr ()) (f s))"
  by (simp add: fun_eq_iff wp_def tx_defs)

lemma wp_stuck [wp_simps]: "wp (\<lambda>_. None) Q s"
  by (simp add: wp_def)

text \<open>A condition for each way to end.\<close>

definition on_end :: "(txn_exception \<Rightarrow> 's \<Rightarrow> bool) \<Rightarrow> ('a \<Rightarrow> 's \<Rightarrow> bool) \<Rightarrow> txn_exception + 'a \<Rightarrow> 's \<Rightarrow> bool" where
  "on_end E X r s = (case r of Inl e \<Rightarrow> E e s | Inr x \<Rightarrow> X x s)"

lemma on_end_simps [simp]: "on_end E X (Inl e) = E e" "on_end E X (Inr x) = X x"
  by (simp_all add: on_end_def fun_eq_iff)

lemma on_end_iff: "on_end E X r s \<longleftrightarrow> (\<forall>e. r = Inl e \<longrightarrow> E e s) \<and> (\<forall>x. r = Inr x \<longrightarrow> X x s)"
  by (cases r) simp_all

lemma wp_bind [wp_simps]: "wp (tx_bind m f) Q = wp m (on_end (\<lambda>e. Q (Inl e)) (\<lambda>x. wp (f x) Q))"
  by (auto simp: fun_eq_iff wp_def tx_bind_def split: option.splits sum.splits)

lemma wp_then [wp_simps]: "wp (tx_then m k) Q = wp m (on_end (\<lambda>e. Q (Inl e)) (\<lambda>_. wp k Q))"
  by (simp add: tx_then_def wp_bind)

lemma wp_catch [wp_simps]: "wp (tx_catch m h) Q = wp m (on_end (\<lambda>e. wp (h e) Q) (\<lambda>x. Q (Inr x)))"
  by (auto simp: fun_eq_iff wp_def tx_catch_def split: option.splits sum.splits)

lemma wp_continuation [wp_simps]: "wp (continuation m) Q = wp m (on_end (\<lambda>_ _. True) (\<lambda>x. Q (Inr x)))"
  by (auto simp: fun_eq_iff wp_def continuation_def split: option.splits sum.splits)

lemma wp_pure [wp_simps]: "wp (pure_code m) Q = (\<lambda>s. case m of None \<Rightarrow> True | Some r \<Rightarrow> Q r s)"
  by (auto simp: fun_eq_iff wp_def pure_code_def split: option.splits)

lemma wp_tick [wp_simps]: "wp (tick f) Q s = Q (Inr (f (at_clock s))) (s\<lparr> at_clock := at_clock s + 1 \<rparr>)"
  by (simp add: wp_def tick_def)

lemma wp_expired [wp_simps]:
  "wp (has_expired_client_side env) Q s = Q (Inr (ae_expired env (at_clock s))) (s\<lparr> at_clock := at_clock s + 1 \<rparr>)"
  by (simp add: wp_def has_expired_client_side_def)

lemma wp_expiry_pre_commit [wp_simps]:
  "wp (check_expiry_pre_commit env) Q s =
     (let e = ae_expired env (at_clock s); t = s\<lparr> at_clock := at_clock s + 1 \<rparr>
      in Q (Inr e) (if e then t\<lparr> at_overtime := True \<rparr> else t))"
  by (simp add: check_expiry_pre_commit_def wp_simps Let_def)

lemma wp_expired_not_overtime [wp_simps]:
  "wp (error_if_expired_and_not_in_overtime env) Q s =
     (if at_overtime s then Q (Inr None) s
      else Q (Inr (if ae_expired env (at_clock s) then Some FAIL_EXPIRY else None)) (s\<lparr> at_clock := at_clock s + 1 \<rparr>))"
  by (simp add: wp_def error_if_expired_and_not_in_overtime_def has_expired_client_side_def tx_defs)

lemma wp_execute [wp_simps]:
  "wp (execute_doc_lookup env i) Q s =
     (let resp = ae_lookup (se_attempt env) (at_clock s)
      in Q (Inr resp) (s\<lparr> at_clock := at_clock s + 1, at_log := at_log s @ [Doc_read i resp] \<rparr>))"
  "wp (execute_doc_mutate env req) R s =
     (let resp = ae_mutate (se_attempt env) (at_clock s)
      in R (Inr resp) (s\<lparr> at_clock := at_clock s + 1, at_log := at_log s @ [Doc_mutated req resp] \<rparr>))"
  "wp (execute_mutate_in aenv areq) R s =
     (let resp = ae_mutate aenv (at_clock s)
      in R (Inr resp) (s\<lparr> at_clock := at_clock s + 1, at_log := at_log s @ [Atr_mutated areq resp] \<rparr>))"
  by (simp_all add: wp_def execute_doc_lookup_def execute_doc_mutate_def execute_mutate_in_def Let_def)

lemma wp_completed [wp_simps]:
  "wp (op_completed_with_error e) Q s =
     Q (Inr (Inl e)) (case e of Op_failed f \<Rightarrow> s\<lparr> at_errors := at_errors s @ [f] \<rparr> | _ \<Rightarrow> s)"
  "wp (op_completed_with_callback x) R s = R (Inr (Inr x)) s"
  by (simp_all add: wp_def op_completed_with_error_def op_completed_with_callback_def tx_return_def)

lemma wp_round_done [wp_simps]:
  "wp (round_done m) Q = wp m (on_end (\<lambda>e. Q (Inl e)) (\<lambda>x. Q (Inr (Done x))))"
  by (simp add: round_done_def wp_simps)

lemma wp_unless_failed [wp_simps]:
  "wp (unless_failed m k) Q =
     wp m (on_end (\<lambda>e. Q (Inl e)) (\<lambda>err s'. case err of
       Some f \<Rightarrow> Q (Inr (Inl (Op_failed f))) (s'\<lparr> at_errors := at_errors s' @ [f] \<rparr>) | None \<Rightarrow> wp k Q s'))"
  unfolding unless_failed_def wp_bind
  by (rule arg_cong [where f = "\<lambda>X. wp m (on_end (\<lambda>e. Q (Inl e)) X)"])
    (auto simp: wp_simps fun_eq_iff split: option.splits)

lemma wp_read_state [wp_simps]: "wp (read_state k) Q s = wp (k s) Q s"
  by (simp add: wp_def read_state_def)

text \<open>Loops keep an invariant of their rounds.\<close>

definition round_end :: "('c \<Rightarrow> 's \<Rightarrow> bool) \<Rightarrow> ('a \<Rightarrow> 's \<Rightarrow> bool) \<Rightarrow> ('c, 'a) round \<Rightarrow> 's \<Rightarrow> bool" where
  "round_end J X x s = (case x of Done y \<Rightarrow> X y s | Again c \<Rightarrow> J c s)"

lemma round_end_simps [simp]: "round_end J X (Done y) = X y" "round_end J X (Again c) = J c"
  by (simp_all add: round_end_def fun_eq_iff)

lemma round_end_iff:
  "round_end J X x s \<longleftrightarrow> (\<forall>y. x = Done y \<longrightarrow> X y s) \<and> (\<forall>c. x = Again c \<longrightarrow> J c s)"
  by (cases x) simp_all

lemma round_loop_wp:
  assumes "J c s"
    and "\<And>c s. J c s \<Longrightarrow> wp (f c) (on_end (\<lambda>e. Q (Inl e)) (round_end J (\<lambda>y. Q (Inr y)))) s"
  shows "wp (round_loop f c) Q s"
proof -
  let ?round = "\<lambda>f. \<forall>c s. J c s \<longrightarrow> wp (f c) (on_end (\<lambda>e. Q (Inl e)) (round_end J (\<lambda>y. Q (Inr y)))) s"
  let ?P = "\<lambda>f c s y. ?round f \<longrightarrow> J c s \<longrightarrow> Q (fst y) (snd y)"
  have "?P f c s y" if "round_loop f c s = Some y" for y
  proof (rule round_loop.raw_induct [where P = ?P])
    fix loop f c s y
    assume IH: "\<And>f c s y. loop f c s = Some y \<Longrightarrow> ?P f c s y"
    assume "Option.bind (f c s) (\<lambda>r. case fst r of Inl e \<Rightarrow> Some (Inl e, snd r)
      | Inr (Done x) \<Rightarrow> Some (Inr x, snd r) | Inr (Again c') \<Rightarrow> loop f c' (snd r)) = Some y"
    then obtain r s1 where f: "f c s = Some (r, s1)"
      and y: "(case r of Inl e \<Rightarrow> Some (Inl e, s1) | Inr (Done x) \<Rightarrow> Some (Inr x, s1)
        | Inr (Again c') \<Rightarrow> loop f c' s1) = Some y"
      by (auto simp: bind_eq_Some_conv cong: sum.case_cong round.case_cong)
    show "?P f c s y"
    proof (intro impI)
      assume round: "?round f" and J: "J c s"
      then show "Q (fst y) (snd y)"
        using wpD [OF round [rule_format, OF J] f] y IH [of f _ s1 y] round
        by (auto split: sum.splits round.splits)
    qed
  qed (rule that)
  then show ?thesis using assms by (auto simp: wp_iff)
qed

lemma wp_hook: "no_hooks (se_attempt env) \<Longrightarrow> wp (hook env) Q s = Q (Inr None) (s\<lparr> at_clock := at_clock s + 1 \<rparr>)"
  by (simp add: wp_def hook_def wait_for_hook_def no_hooks_def)

subsection \<open>The invariant\<close>

definition sound_failure :: "transaction_operation_failed \<Rightarrow> bool" where
  "sound_failure f \<longleftrightarrow> tof_to_raise f \<noteq> FAILED_POST_COMMIT"

definition sound_outcome :: "'a outcome \<Rightarrow> bool" where
  "sound_outcome r \<longleftrightarrow> (\<forall>f. r = Inl (Op_failed f) \<longrightarrow> sound_failure f)"

primrec staging_event :: "stage_env \<Rightarrow> attempt_event \<Rightarrow> bool" where
  "staging_event env (Atr_mutated req resp) \<longleftrightarrow> (\<exists>i remaining. req = atr_pending_request env i remaining)"
| "staging_event env (Atr_read path resp) \<longleftrightarrow> False"
| "staging_event env (Unstaged committing evs) \<longleftrightarrow> False"
| "staging_event env (Doc_mutated dreq resp) \<longleftrightarrow> True"
| "staging_event env (Doc_read i lresp) \<longleftrightarrow> True"

text \<open>The server acknowledged the entry of the attempt as PENDING, or has had it already.\<close>

primrec pending_event :: "stage_env \<Rightarrow> attempt_event \<Rightarrow> bool" where
  "pending_event env (Atr_mutated req resp) \<longleftrightarrow> (\<exists>i remaining. req = atr_pending_request env i remaining)
     \<and> (error_class_from_response resp = Inr None
        \<or> error_class_from_response resp = Inr (Some FAIL_PATH_ALREADY_EXISTS))"
| "pending_event env (Atr_read path resp) \<longleftrightarrow> False"
| "pending_event env (Unstaged committing evs) \<longleftrightarrow> False"
| "pending_event env (Doc_mutated dreq resp) \<longleftrightarrow> False"
| "pending_event env (Doc_read i lresp) \<longleftrightarrow> False"

abbreviation pending_in :: "stage_env \<Rightarrow> attempt_event list \<Rightarrow> bool" where
  "pending_in env l \<equiv> list_ex (pending_event env) l"

definition staged_after_pending :: "stage_env \<Rightarrow> attempt_event list \<Rightarrow> bool" where
  "staged_after_pending env l \<longleftrightarrow>
     (\<forall>pre req resp post. l = pre @ Doc_mutated req resp # post \<longrightarrow> pending_in env pre)"

text \<open>
  The mutation was acknowledged with its CAS; or the document was read, with that CAS, as staged by this
  attempt, which is how an ambiguous insert is resolved.
\<close>

definition staged_on_server :: "stage_env \<Rightarrow> attempt_event list \<Rightarrow> staged_mutation \<Rightarrow> bool" where
  "staged_on_server env l m \<longleftrightarrow>
     (\<exists>req resp. Doc_mutated req resp \<in> set l \<and> mq_id req = sm_id m \<and> mi_cas resp = sm_cas m
        \<and> error_class_from_response resp = Inr None)
     \<or> (\<exists>i resp doc. Doc_read i resp \<in> set l \<and> create_from_subdoc (se_parse env) i resp = Some (Inr doc)
        \<and> tl_attempt_id (gr_links doc) = Some (ae_id (se_attempt env)) \<and> sm_type m = mutation_INSERT
        \<and> sm_id m = gr_id doc \<and> sm_cas m = gr_cas doc)"

definition stage_inv :: "stage_env \<Rightarrow> attempt \<Rightarrow> bool" where
  "stage_inv env s \<longleftrightarrow> \<not> at_query_mode s \<and> \<not> at_done s
     \<and> list_all (staging_event env) (at_log s) \<and> list_all sound_failure (at_errors s)
     \<and> list_all (staged_on_server env (at_log s)) (at_queue s)
     \<and> (at_queue s \<noteq> [] \<longrightarrow> pending_in env (at_log s)) \<and> staged_after_pending env (at_log s)"

text \<open>Between two operations: an attempt that may go on and has a record is PENDING in it.\<close>

definition ready :: "stage_env \<Rightarrow> attempt \<Rightarrow> bool" where
  "ready env s \<longleftrightarrow> stage_inv env s
     \<and> (at_errors s = [] \<longrightarrow> at_atr_id s \<noteq> None \<longrightarrow> pending_in env (at_log s))"

lemma staged_after_pendingD: "staged_after_pending env (pre @ Doc_mutated req resp # post) \<Longrightarrow> pending_in env pre"
  unfolding staged_after_pending_def by blast

lemma staged_after_pendingI:
  "(\<And>pre req resp post. l = pre @ Doc_mutated req resp # post \<Longrightarrow> pending_in env pre) \<Longrightarrow> staged_after_pending env l"
  unfolding staged_after_pending_def by blast

lemma staged_after_pending_snoc:
  "staged_after_pending env (l @ [e]) \<longleftrightarrow>
     staged_after_pending env l \<and> (\<forall>req resp. e = Doc_mutated req resp \<longrightarrow> pending_in env l)"
proof (intro iffI conjI)
  assume h: "staged_after_pending env (l @ [e])"
  show "staged_after_pending env l"
  proof (rule staged_after_pendingI)
    fix pre req resp post
    assume "l = pre @ Doc_mutated req resp # post"
    then show "pending_in env pre" using h staged_after_pendingD [of env pre req resp "post @ [e]"] by simp
  qed
  show "\<forall>req resp. e = Doc_mutated req resp \<longrightarrow> pending_in env l"
    using h staged_after_pendingD [of env l _ _ "[]"] by blast
next
  assume h: "staged_after_pending env l \<and> (\<forall>req resp. e = Doc_mutated req resp \<longrightarrow> pending_in env l)"
  show "staged_after_pending env (l @ [e])"
  proof (rule staged_after_pendingI)
    fix pre req resp post
    assume eq: "l @ [e] = pre @ Doc_mutated req resp # post"
    show "pending_in env pre"
    proof (cases post rule: rev_cases)
      case Nil
      then show ?thesis using h eq by simp
    next
      case (snoc post' x)
      then have "l = pre @ Doc_mutated req resp # post'" using eq by simp
      then show ?thesis using h staged_after_pendingD by blast
    qed
  qed
qed

lemma staged_on_server_mono: "staged_on_server env l m \<Longrightarrow> set l \<subseteq> set l' \<Longrightarrow> staged_on_server env l' m"
  unfolding staged_on_server_def by blast

lemma staged_queue_snoc:
  "list_all (staged_on_server env l) q \<Longrightarrow> list_all (staged_on_server env (l @ [e])) q"
  using staged_on_server_mono [of env l _ "l @ [e]"] by (auto simp: list_all_iff)

lemma stage_inv_updates [simp]:
  "stage_inv env (s\<lparr> at_clock := n \<rparr>) = stage_inv env s"
  "stage_inv env (s\<lparr> at_overtime := b \<rparr>) = stage_inv env s"
  "stage_inv env (s\<lparr> at_state := st \<rparr>) = stage_inv env s"
  "stage_inv env (s\<lparr> at_atr_id := i \<rparr>) = stage_inv env s"
  by (simp_all add: stage_inv_def)

lemma stage_inv_error [simp]:
  "stage_inv env s \<Longrightarrow> stage_inv env (s\<lparr> at_errors := at_errors s @ [f] \<rparr>) = sound_failure f"
  by (simp add: stage_inv_def)

lemma stage_inv_read [simp]:
  "stage_inv env s \<Longrightarrow> stage_inv env (s\<lparr> at_clock := n, at_log := at_log s @ [Doc_read i resp] \<rparr>)"
  by (auto simp: stage_inv_def staged_after_pending_snoc intro: staged_queue_snoc)

lemma stage_inv_mutated [simp]:
  "stage_inv env s \<Longrightarrow> pending_in env (at_log s) \<Longrightarrow>
   stage_inv env (s\<lparr> at_clock := n, at_log := at_log s @ [Doc_mutated req resp] \<rparr>)"
  by (auto simp: stage_inv_def staged_after_pending_snoc intro: staged_queue_snoc)

lemma stage_inv_pending [simp]:
  "stage_inv env s \<Longrightarrow>
   stage_inv env (s\<lparr> at_clock := n, at_log := at_log s @ [Atr_mutated (atr_pending_request env i r) resp] \<rparr>)"
  by (auto simp: stage_inv_def staged_after_pending_snoc intro: staged_queue_snoc)

lemma stage_inv_add_staged:
  "stage_inv env s \<Longrightarrow> staged_on_server env (at_log s) m \<Longrightarrow> pending_in env (at_log s) \<Longrightarrow>
   stage_inv env (add_staged m s)"
  by (auto simp: stage_inv_def add_staged_def smq_add_def list_all_iff)

lemma sound_failure_builders [simp]:
  "sound_failure (op_failed ec)" "sound_failure (op_failed_cause ec c)"
  "sound_failure (with_retry f) = sound_failure f" "sound_failure (no_rollback f) = sound_failure f"
  "sound_failure (with_cause d f) = sound_failure f" "sound_failure (expired f)"
  by (simp_all add: sound_failure_def tof_defs)

lemma sound_outcome_simps [simp]:
  "sound_outcome (Inr x)" "sound_outcome (Inl (Op_failed f)) = sound_failure f"
  "sound_outcome (Inl (Op_exception c))"
  by (simp_all add: sound_outcome_def)

subsection \<open>The steps of an operation\<close>

text \<open>A step that only reads.\<close>

definition calm :: "stage_env \<Rightarrow> attempt \<Rightarrow> attempt \<Rightarrow> bool" where
  "calm env s s' \<longleftrightarrow> stage_inv env s' \<and> (pending_in env (at_log s) \<longrightarrow> pending_in env (at_log s'))
     \<and> at_atr_id s' = at_atr_id s \<and> at_errors s' = at_errors s \<and> at_queue s' = at_queue s"

lemma calm_refl [simp]: "calm env s s = stage_inv env s"
  by (simp add: calm_def)

lemma calm_overtime [simp]:
  "calm env s (t\<lparr> at_clock := n \<rparr>) = calm env s t" "calm env s (t\<lparr> at_overtime := b \<rparr>) = calm env s t"
  by (simp_all add: calm_def)

lemma calm_trans: "calm env s t \<Longrightarrow> calm env t u \<Longrightarrow> calm env s u"
  by (simp add: calm_def)

lemma calm_inv: "calm env s s' \<Longrightarrow> stage_inv env s'"
  by (simp add: calm_def)

lemma calm_updates [simp]:
  "calm env (t\<lparr> at_clock := n \<rparr>) s = calm env t s" "calm env (t\<lparr> at_overtime := b \<rparr>) s = calm env t s"
  "stage_inv env s \<Longrightarrow> calm env s (s\<lparr> at_clock := n, at_log := at_log s @ [Doc_read i resp] \<rparr>)"
  by (simp_all add: calm_def)

lemma wp_forward_compat_error:
  assumes "\<And>e. Q (Inl e) s" and "Q (Inr None) s" and "\<And>f. sound_failure f \<Longrightarrow> Q (Inr (Some f)) s"
  shows "wp (forward_compat_error stage fc) Q s"
proof -
  have "Q (Inr (map_option fst x)) s" if "check_forward_compat stage fc = Some (Inr x)" for x
    using assms check_forward_compat_error [of stage fc] that by (cases x) (auto simp: sound_failure_def)
  then show ?thesis using assms(1)
    by (auto simp: forward_compat_error_def wp_simps fb_bind_def fb_return_def split: option.splits sum.splits)
qed

lemma blocking_entry_wp:
  assumes "\<And>e. Q (Inl e) s" and "Q (Inr (Done None)) s" and "Q (Inr (Again ())) s"
    and "\<And>f. sound_failure f \<Longrightarrow> Q (Inr (Done (Some f))) s"
  shows "wp (blocking_entry l err entries) Q s"
proof -
  have "wp (forward_compat_error WRITE_WRITE_CONFLICT_READING_ATR fc) (on_end (\<lambda>e. Q (Inl e))
      (\<lambda>fwd_err. wp (case fwd_err of Some f \<Rightarrow> tx_return (Done (Some f))
        | None \<Rightarrow> if b then tx_return (Done None) else tx_return (Again ())) Q)) s" for fc b
    by (rule wp_forward_compat_error) (use assms in \<open>simp_all add: wp_simps\<close>)
  then show ?thesis
    using assms unfolding blocking_entry_def
    by (simp add: wp_simps write_write_conflict_def split: option.split)
qed

lemma get_atr_wp:
  assumes "stage_inv env s"
    and "\<And>s' err entries. calm env s s' \<Longrightarrow>
      wp (cb err entries) (on_end (\<lambda>_. calm env s) (\<lambda>x. Q (Inr x))) s'"
  shows "wp (get_atr env i cb) Q s"
proof -
  let ?s = "s\<lparr> at_clock := at_clock s + 1, at_log := at_log s @ [Doc_read i (ae_lookup (se_attempt env) (at_clock s))] \<rparr>"
  let ?Q = "on_end (\<lambda>_ _. True) (\<lambda>x. Q (Inr x))"
  have again: "wp (cb True None) ?Q s'" if "calm env s s'" for s'
    by (rule wp_mono [OF assms(2) [OF that]]) (simp add: on_end_iff)
  have start: "calm env s ?s" using assms(1) by simp
  then have cb: "wp (cb err entries) (on_end (\<lambda>_. wp (cb True None) ?Q) (\<lambda>x. ?Q (Inr x))) ?s" for err entries
    by (rule wp_mono [OF assms(2)]) (simp add: on_end_iff again)
  from start cb again show ?thesis unfolding get_atr_def
    by (simp add: wp_simps Let_def split: option.split) (simp add: on_end_iff)
qed

lemma blocking_round_wp:
  assumes "no_hooks (se_attempt env)" and "stage_inv env s"
  shows "wp (blocking_round env l) (on_end (\<lambda>_. calm env s) (\<lambda>x s'. calm env s s'
      \<and> (\<forall>f. x = Done (Some f) \<longrightarrow> sound_failure f))) s"
proof -
  let ?s = "s\<lparr> at_clock := at_clock s + 1 \<rparr>"
  have "wp (get_atr env i (blocking_entry l)) (on_end (\<lambda>_. calm env s) (\<lambda>x s'. calm env s s'
      \<and> (\<forall>f. x = Done (Some f) \<longrightarrow> sound_failure f))) ?s" for i
    by (rule get_atr_wp) (use assms in \<open>auto intro!: blocking_entry_wp\<close>)
  then show ?thesis unfolding blocking_round_def using assms
    by (simp add: wp_simps wp_hook split: option.split) (simp add: on_end_iff)
qed

lemma check_atr_entry_wp:
  "no_hooks (se_attempt env) \<Longrightarrow> stage_inv env s \<Longrightarrow> wp (check_atr_entry_for_blocking_document env l d)
    (on_end (\<lambda>_. calm env s) (\<lambda>x s'. calm env s s' \<and> (\<forall>f. x = Some f \<longrightarrow> sound_failure f))) s"
proof (induction env l d s rule: check_atr_entry_for_blocking_document.induct)
  case (1 env l d s)
  let ?s = "s\<lparr> at_clock := at_clock s + 1 \<rparr>"
  note round = blocking_round_wp [OF "1.prems"(1), of ?s l]
  note unfold = check_atr_entry_for_blocking_document.simps [of env l d s]
  show ?case
  proof (cases "exp_delay_call 1000000000 (se_now env (at_clock s)) d")
    case (Inl e)
    then show ?thesis using "1.prems" by (simp add: wp_def unfold write_write_conflict_def)
  next
    case (Inr d')
    show ?thesis
    proof (cases "blocking_round env l ?s")
      case (Some r)
      obtain x s1 where r: "r = (x, s1)" by fastforce
      then have calm: "calm env s s1" "x = Inr (Done (Some f)) \<Longrightarrow> sound_failure f" for f
        using wpD [OF round, of x s1] Some "1.prems" by (cases x; simp)+
      then have "stage_inv env s1" by (simp add: calm_inv)
      then have "wp (check_atr_entry_for_blocking_document env l d') (on_end (\<lambda>_. calm env s)
          (\<lambda>x s'. calm env s s' \<and> (\<forall>f. x = Some f \<longrightarrow> sound_failure f))) s1" if "x = Inr (Again ())"
        by (rule wp_mono [OF "1.IH" [OF Inr Some r [symmetric] that refl "1.prems"(1)]])
          (use calm(1) in \<open>auto simp: on_end_iff intro: calm_trans\<close>)
      then show ?thesis using Inr Some r calm
        by (auto simp: wp_def unfold split: sum.splits round.splits)
    qed (use Inr in \<open>simp add: wp_def unfold\<close>)
  qed
qed

lemma check_and_handle_wp:
  assumes "no_hooks (se_attempt env)" and "stage_inv env s"
    and "\<And>e s'. calm env s s' \<Longrightarrow> Q (Inl e) s'" and "\<And>s'. calm env s s' \<Longrightarrow> Q (Inr None) s'"
    and "\<And>f s'. calm env s s' \<Longrightarrow> sound_failure f \<Longrightarrow> Q (Inr (Some f)) s'"
  shows "wp (check_and_handle_blocking_transactions env doc stage) Q s"
proof -
  have entry: "wp (check_atr_entry_for_blocking_document env l d) Q s" for l d
  proof (rule wp_mono [OF check_atr_entry_wp [OF assms(1,2)]])
    fix r :: "txn_exception + transaction_operation_failed option" and s'
    assume "on_end (\<lambda>_. calm env s) (\<lambda>x s'. calm env s s' \<and> (\<forall>f. x = Some f \<longrightarrow> sound_failure f)) r s'"
    then show "Q r s'" using assms(3-5) by (cases r; cases "projr r") auto
  qed
  have "wp (forward_compat_error stage fc) (on_end (\<lambda>e. Q (Inl e)) (\<lambda>err. wp (case err of
      Some f \<Rightarrow> tx_return (Some f) | None \<Rightarrow> check_atr_entry_for_blocking_document env l new_exp_delay) Q)) s" for fc l
    by (rule wp_forward_compat_error) (use assms entry in \<open>simp_all add: wp_simps\<close>)
  then show ?thesis using assms
    by (auto simp: check_and_handle_blocking_transactions_def Let_def wp_simps)
qed

text \<open>The attempt is PENDING in its record, or the operation has to fail.\<close>

definition pending_post :: "stage_env \<Rightarrow> transaction_operation_failed option \<Rightarrow> attempt \<Rightarrow> bool" where
  "pending_post env x s \<longleftrightarrow> stage_inv env s
     \<and> (case x of None \<Rightarrow> pending_in env (at_log s) | Some f \<Rightarrow> sound_failure f)"

abbreviation pending_round :: "stage_env \<Rightarrow> (unit, transaction_operation_failed option) round \<Rightarrow> attempt \<Rightarrow> bool" where
  "pending_round env \<equiv> round_end (\<lambda>_. stage_inv env) (pending_post env)"

lemma atr_pending_error_wp:
  assumes "stage_inv env s" and "ec = FAIL_PATH_ALREADY_EXISTS \<longrightarrow> pending_in env (at_log s)"
  shows "wp (atr_pending_error ec) (on_end (\<lambda>_ _. False) (pending_round env)) s"
  using assms by (auto simp: wp_def atr_pending_error_def pending_post_def Let_def split: error_class.split)

lemma pending_event_in:
  "Atr_mutated (atr_pending_request env i rem) resp \<in> set l \<Longrightarrow>
   error_class_from_response resp = Inr None \<or> error_class_from_response resp = Inr (Some FAIL_PATH_ALREADY_EXISTS) \<Longrightarrow>
   pending_in env l"
  unfolding list_ex_iff
  by (rule bexI [of _ "Atr_mutated (atr_pending_request env i rem) resp"]) (simp, blast)

lemma set_atr_pending_reply_wp:
  assumes "no_hooks (se_attempt env)" and "stage_inv env s"
    and "Atr_mutated (atr_pending_request env i rem) resp \<in> set (at_log s)"
  shows "wp (set_atr_pending_reply env resp) (on_end (\<lambda>_ _. True) (pending_round env)) s"
proof (cases "error_class_from_response resp")
  case (Inr ec)
  show ?thesis
  proof (cases ec)
    case None
    then show ?thesis using Inr assms pending_event_in [OF assms(3)]
      by (simp add: set_atr_pending_reply_def response_error_class_def wp_simps wp_hook pending_post_def)
  next
    case (Some c)
    have "wp (atr_pending_error c) (on_end (\<lambda>_ _. True) (pending_round env)) s"
      by (rule wp_mono [OF atr_pending_error_wp [OF assms(2)]])
        (use Inr Some pending_event_in [OF assms(3)] in \<open>auto simp: on_end_iff\<close>)
    then show ?thesis using Inr Some
      by (simp add: set_atr_pending_reply_def response_error_class_def wp_simps)
  qed
qed (simp add: set_atr_pending_reply_def response_error_class_def wp_simps)

lemma set_atr_pending_wp:
  assumes "no_hooks (se_attempt env)" and "stage_inv env s"
  shows "wp (set_atr_pending env) (on_end (\<lambda>_ _. True) (pending_post env)) s"
proof -
  have round: "wp (set_atr_pending_round env i) (on_end (\<lambda>_ _. True) (pending_round env)) s" if "stage_inv env s" for i s
  proof -
    have "wp (set_atr_pending_reply env resp) (on_end (\<lambda>_ _. True) (pending_round env))
        (t\<lparr> at_clock := n, at_log := at_log t @ [Atr_mutated (atr_pending_request env i rem) resp] \<rparr>)"
      if "stage_inv env t" for t n rem resp
      by (rule set_atr_pending_reply_wp [OF assms(1)]) (use that in auto)
    from this [of s] show ?thesis using that unfolding set_atr_pending_round_def
      by (simp add: wp_simps wp_hook [OF assms(1)] Let_def pending_post_def)
  qed
  show ?thesis
  proof (cases "at_atr_id s")
    case None
    then show ?thesis using assms(2) by (simp add: wp_def set_atr_pending_def pending_post_def)
  next
    case (Some i)
    have "wp (round_loop (\<lambda>_. set_atr_pending_round env i) ()) (on_end (\<lambda>_ _. True) (pending_post env)) s"
      by (rule round_loop_wp [where J = "\<lambda>_. stage_inv env"]) (use assms(2) round in simp_all)
    then show ?thesis using Some by (simp add: wp_def set_atr_pending_def)
  qed
qed

lemma select_atr_wp:
  assumes "no_hooks (se_attempt env)" and "ready env s" and "at_errors s = []"
  shows "wp (select_atr_if_needed env i) (on_end (\<lambda>_ _. True) (pending_post env)) s"
proof (cases "at_atr_id s")
  case None
  have "wp (set_atr_pending env) (on_end (\<lambda>_ _. True) (pending_post env))
      (s\<lparr> at_state := st, at_atr_id := Some a \<rparr>)" for st a
    by (rule set_atr_pending_wp [OF assms(1)]) (use assms(2) in \<open>simp add: ready_def\<close>)
  then have "wp (continuation (tx_bind (pure_code (choose_atr_key env i)) (\<lambda>key.
      tx_then (tx_modify (\<lambda>s. s\<lparr> at_state := state_NOT_STARTED,
          at_atr_id := Some (atr_id_from_bucket_and_key (se_metadata_collection env) (id_bucket i) key) \<rparr>))
        (set_atr_pending env)))) (on_end (\<lambda>_ _. True) (pending_post env)) s"
    by (simp add: wp_simps split: option.split) (simp add: on_end_iff)
  then show ?thesis using None by (simp add: wp_def select_atr_if_needed_def)
next
  case (Some a)
  then show ?thesis using assms by (simp add: wp_def select_atr_if_needed_def pending_post_def ready_def)
qed

text \<open>After the attempt has become PENDING.\<close>

definition staged_post :: "stage_env \<Rightarrow> 'a outcome \<Rightarrow> attempt \<Rightarrow> bool" where
  "staged_post env r s \<longleftrightarrow> stage_inv env s \<and> pending_in env (at_log s) \<and> sound_outcome r"

definition going :: "stage_env \<Rightarrow> attempt \<Rightarrow> bool" where
  "going env s \<longleftrightarrow> stage_inv env s \<and> pending_in env (at_log s)"

lemma going_updates [simp]:
  "going env (s\<lparr> at_clock := n \<rparr>) = going env s" "going env (s\<lparr> at_overtime := b \<rparr>) = going env s"
  "going env s \<Longrightarrow> going env (s\<lparr> at_clock := n, at_log := at_log s @ [Doc_read i lresp] \<rparr>)"
  "going env s \<Longrightarrow> going env (s\<lparr> at_clock := n, at_log := at_log s @ [Doc_mutated req resp] \<rparr>)"
  by (simp_all add: going_def)

lemma going_error:
  assumes "going env s" and "sound_failure f"
  shows "staged_post env (Inl (Op_failed f)) (s\<lparr> at_errors := at_errors s @ [f] \<rparr>)"
    "staged_post env (Inl (Op_failed f)) (s\<lparr> at_clock := n, at_errors := at_errors s @ [f] \<rparr>)"
    "staged_post env (Inl (Op_failed f)) (s\<lparr> at_overtime := b, at_errors := at_errors s @ [f] \<rparr>)"
  using assms by (auto simp: going_def staged_post_def stage_inv_def)

lemma going_exception: "going env s \<Longrightarrow> staged_post env (Inl (Op_exception c)) s"
  by (simp add: going_def staged_post_def)

lemma op_failure_wp:
  "going env s \<Longrightarrow> sound_failure f \<Longrightarrow> wp (op_failure f) (on_end (\<lambda>_ _. True) (staged_post env)) s"
  by (simp add: wp_simps going_error)

lemma staged_on_server_mutated:
  "Doc_mutated req resp \<in> set l \<Longrightarrow> mq_id req = sm_id m \<Longrightarrow> mi_cas resp = sm_cas m \<Longrightarrow>
   error_class_from_response resp = Inr None \<Longrightarrow> staged_on_server env l m"
  unfolding staged_on_server_def by blast

lemma going_add_staged:
  assumes "going env s" and "staged_on_server env (at_log s) m"
  shows "staged_post env (Inr x) (add_staged m s)"
proof -
  have "at_log (add_staged m s) = at_log s" by (simp add: add_staged_def)
  then show ?thesis using assms stage_inv_add_staged [of env s m] by (simp add: going_def staged_post_def)
qed

lemma staged_replace_error_wp:
  "going env s \<Longrightarrow> wp (staged_replace_error ec cause) (on_end (\<lambda>_ _. True) (staged_post env)) s"
  by (auto simp: staged_replace_error_def Let_def op_failure_wp split: error_class.split)

lemma staged_replace_done_wp:
  assumes "going env s" and "Doc_mutated req resp \<in> set (at_log s)" and "mq_id req = i"
    and "error_class_from_response resp = Inr None"
  shows "wp (staged_replace_done env i content flags op_id metadata resp) (on_end (\<lambda>_ _. True) (staged_post env)) s"
proof -
  let ?s = "s\<lparr> at_clock := at_clock s + 1 \<rparr>"
  have "staged_post env (Inr out) (add_staged (staged_entry env ?s mutation_REPLACE out b flags) ?s)"
    if "gr_id out = i" "gr_cas out = mi_cas resp" for out b
    by (rule going_add_staged, simp add: assms, rule staged_on_server_mutated [OF _ _ _ assms(4)])
      (use assms that in \<open>simp_all add: staged_entry_def Let_def\<close>)
  then show ?thesis using assms(1)
    by (simp add: staged_replace_done_def wp_simps staged_replace_error_wp Let_def split: option.split)
qed

lemma staged_replace_reply_wp:
  assumes "no_hooks (se_attempt env)" and "going env s"
    and "Doc_mutated req resp \<in> set (at_log s)" and "mq_id req = i"
  shows "wp (staged_replace_reply env i content flags op_id metadata resp)
    (on_end (\<lambda>_ _. True) (staged_post env)) s"
proof -
  have "wp (staged_replace_done env i content flags op_id metadata resp)
      (on_end (\<lambda>_ _. True) (staged_post env)) (s\<lparr> at_clock := n \<rparr>)"
    if "error_class_from_response resp = Inr None" for n
    by (rule staged_replace_done_wp [OF _ _ assms(4) that]) (use assms in simp_all)
  then show ?thesis using assms(2)
    by (simp add: staged_replace_reply_def staged_replace_error_wp response_error_class_def response_cause_def wp_simps
        wp_hook [OF assms(1)] on_end_def split: option.split sum.split)
qed

lemma create_staged_replace_wp:
  assumes "no_hooks (se_attempt env)" and "going env s"
  shows "wp (create_staged_replace env i content flags cas op_id metadata)
    (on_end (\<lambda>_ _. True) (staged_post env)) s"
proof -
  have "wp (staged_replace_reply env i content flags op_id metadata resp) (on_end (\<lambda>_ _. True) (staged_post env))
      (t\<lparr> at_clock := n, at_log := at_log t @ [Doc_mutated
        (staged_replace_request env u i content flags cas op_id metadata) resp] \<rparr>)"
    if "going env t" for t n resp u
    by (rule staged_replace_reply_wp [OF assms(1)]) (use that in \<open>auto simp: staged_replace_request_def
        new_mutate_in_request_def\<close>)
  from this [of s] show ?thesis using assms(2)
    by (simp add: create_staged_replace_def wp_simps wp_hook [OF assms(1)] Let_def)
qed

abbreviation insert_round_post :: "stage_env \<Rightarrow> (u64, 'a outcome) round \<Rightarrow> attempt \<Rightarrow> bool" where
  "insert_round_post env \<equiv> round_end (\<lambda>_. going env) (staged_post env)"

lemma round_failure_wp:
  "going env s \<Longrightarrow> sound_failure f \<Longrightarrow> wp (round_done (op_failure f)) (on_end (\<lambda>_ _. True) (insert_round_post env)) s"
  by (simp add: wp_simps going_error)

lemma round_exception_wp:
  "going env s \<Longrightarrow>
   wp (round_done (op_completed_with_error (Op_exception c))) (on_end (\<lambda>_ _. True) (insert_round_post env)) s"
  by (simp add: wp_simps going_exception)

lemma existing_doc_error_wp:
  "going env s \<Longrightarrow> wp (existing_doc_error ec) (on_end (\<lambda>_ _. True) (insert_round_post env)) s"
  by (auto simp: existing_doc_error_def wp_read_state round_failure_wp split: error_class.split)

lemma going_inv: "going env s \<Longrightarrow> stage_inv env s"
  by (simp add: going_def)

lemma calm_going: "calm env s s' \<Longrightarrow> going env s \<Longrightarrow> going env s'"
  by (simp add: calm_def going_def)

lemma insert_over_wp:
  assumes "no_hooks (se_attempt env)" and "going env s"
    and read: "Doc_read i resp \<in> set (at_log s)" "create_from_subdoc (se_parse env) i resp = Some (Inr doc)"
  shows "wp (insert_over env content op_id doc) (on_end (\<lambda>_ _. True) (insert_round_post env)) s"
proof -
  have add: "staged_post env (Inr doc) (add_staged m s)"
    if "tl_attempt_id (gr_links doc) = Some (ae_id (se_attempt env))" "sm_type m = mutation_INSERT"
      "sm_id m = gr_id doc" "sm_cas m = gr_cas doc" for m
    by (rule going_add_staged [OF assms(2)]) (unfold staged_on_server_def, use that read in blast)
  have block: "wp (check_and_handle_blocking_transactions env doc WRITE_WRITE_CONFLICT_INSERTING)
      (on_end (\<lambda>_ _. True) (\<lambda>err. wp (case err of
          Some f \<Rightarrow> round_done (op_failure f :: transaction_get_result outcome attempt_code)
        | None \<Rightarrow> tx_return (Again (gr_cas doc))) (on_end (\<lambda>_ _. True) (insert_round_post env)))) s"
    by (rule check_and_handle_wp [OF assms(1)])
      (use assms(2) in \<open>auto simp: wp_simps going_inv intro: calm_going going_error\<close>)
  show ?thesis unfolding insert_over_def Let_def wp_bind
    by (rule wp_forward_compat_error) (use assms(2) add block in
      \<open>simp_all add: wp_simps going_error going_exception\<close>)
qed

lemma insert_existing_doc_wp:
  assumes "no_hooks (se_attempt env)" and "going env s"
  shows "wp (insert_existing_doc env i content op_id) (on_end (\<lambda>_ _. True) (insert_round_post env)) s"
proof -
  let ?Q = "on_end (\<lambda>_ _. True) (insert_round_post env) :: _ + insert_round \<Rightarrow> _"
  have "wp (get_doc env i (\<lambda>(ec, _, doc).
        case ec of
          Some c \<Rightarrow> existing_doc_error c
        | None \<Rightarrow>
            (case doc of
               None \<Rightarrow> round_done (op_failure (with_retry (op_failed FAIL_DOC_NOT_FOUND)))
             | Some d \<Rightarrow> insert_over env content op_id d))) ?Q t" (is "wp (get_doc _ _ ?cb) _ _")
    if "going env t" for t
  proof -
    let ?resp = "ae_lookup (se_attempt env) (at_clock t)"
    let ?t = "t\<lparr> at_clock := at_clock t + 1, at_log := at_log t @ [Doc_read i ?resp] \<rparr>"
    have go: "going env ?t" using that by simp
    have "wp (?cb (ec, cause, doc)) ?Q ?t"
      if "lookup_answer env i ?resp = Some (Inr (ec, cause, doc))" for ec cause doc
    proof (cases ec)
      case None
      have "wp (insert_over env content op_id d) ?Q ?t" if "doc = Some d" for d
        by (rule insert_over_wp [OF assms(1) go, of i ?resp])
          (use that None \<open>lookup_answer env i ?resp = _\<close> in
            \<open>auto simp: lookup_answer_def fb_bind_Some_iff fb_return_def split: option.splits error_class.splits\<close>)
      then show ?thesis using None go by (auto simp: round_failure_wp split: option.split)
    qed (use existing_doc_error_wp [OF go] in simp)
    then show ?thesis
      by (auto simp: get_doc_def wp_simps Let_def on_end_def split: option.split sum.split)
  qed
  then show ?thesis using assms by (simp add: insert_existing_doc_def wp_simps wp_hook)
qed

lemma staged_insert_error_wp:
  assumes "no_hooks (se_attempt env)" and "going env s"
  shows "wp (create_staged_insert_error_handler env i content cas op_id ec cause)
    (on_end (\<lambda>_ _. True) (insert_round_post env)) s"
proof -
  have "wp (insert_existing_doc env i content op_id) (on_end (\<lambda>_ _. True) (insert_round_post env)) s"
    by (rule insert_existing_doc_wp [OF assms])
  moreover have "wp (round_done (op_failure f) :: insert_round attempt_code) (on_end (\<lambda>_ _. True) (insert_round_post env)) s"
    "wp (round_done (op_failure f) :: insert_round attempt_code)
      (on_end (\<lambda>_ _. True) (insert_round_post env)) (s\<lparr> at_overtime := True \<rparr>)"
    if "sound_failure f" for f
    using assms(2) that by (simp_all add: round_failure_wp)
  ultimately show ?thesis using assms(2)
    unfolding wp_def create_staged_insert_error_handler_def
    by (auto simp: tx_return_def split: error_class.split)
qed

lemma staged_insert_done_wp:
  assumes "no_hooks (se_attempt env)" and "going env s"
    and "Doc_mutated req resp \<in> set (at_log s)" and "mq_id req = i" and "error_class_from_response resp = Inr None"
  shows "wp (staged_insert_done env i content cas op_id resp) (on_end (\<lambda>_ _. True) (insert_round_post env)) s"
proof -
  let ?s = "s\<lparr> at_clock := at_clock s + 1 \<rparr>"
  have "staged_post env (Inr out) (add_staged (staged_entry env ?s mutation_INSERT out b flags) ?s)"
    if "gr_id out = i" "gr_cas out = mi_cas resp" for out b flags
    by (rule going_add_staged, simp add: assms, rule staged_on_server_mutated [OF _ _ _ assms(5)])
      (use assms that in \<open>simp_all add: staged_entry_def Let_def\<close>)
  then show ?thesis using staged_insert_error_wp [OF assms(1), of ?s] assms(2)
    by (simp add: staged_insert_done_def wp_simps Let_def split: option.split)
qed

lemma staged_insert_reply_wp:
  assumes "no_hooks (se_attempt env)" and "going env s"
    and "Doc_mutated req resp \<in> set (at_log s)" and "mq_id req = i"
  shows "wp (staged_insert_reply env i content cas op_id resp) (on_end (\<lambda>_ _. True) (insert_round_post env)) s"
proof -
  have "wp (staged_insert_done env i content cas op_id resp) (on_end (\<lambda>_ _. True) (insert_round_post env))
      (s\<lparr> at_clock := n \<rparr>)" if "error_class_from_response resp = Inr None" for n
    by (rule staged_insert_done_wp [OF assms(1) _ _ assms(4) that]) (use assms in simp_all)
  then show ?thesis using staged_insert_error_wp [OF assms(1,2)]
    by (simp add: staged_insert_reply_def Let_def response_error_class_def response_cause_def wp_simps
        wp_hook [OF assms(1)] on_end_def split: option.split sum.split)
qed

lemma request_ids [simp]:
  "mq_id (staged_insert_request env s i content cas op_id) = i"
  "mq_id (staged_replace_request env s i content flags cas op_id metadata) = i"
  "mq_id (staged_remove_request env s doc op_id) = gr_id doc"
  by (simp_all add: staged_insert_request_def staged_replace_request_def staged_remove_request_def
      new_mutate_in_request_def)

lemma staged_insert_round_wp:
  assumes "no_hooks (se_attempt env)" and "going env s"
  shows "wp (create_staged_insert_round env i content op_id cas) (on_end (\<lambda>_ _. True) (insert_round_post env)) s"
proof -
  have "wp (staged_insert_reply env i content cas op_id resp) (on_end (\<lambda>_ _. True) (insert_round_post env))
      (t\<lparr> at_clock := n, at_log := at_log t @ [Doc_mutated (staged_insert_request env u i content cas op_id) resp] \<rparr>)"
    if "going env t" for t n resp u
    by (rule staged_insert_reply_wp [OF assms(1), where req = "staged_insert_request env u i content cas op_id"])
      (use that in simp_all)
  from this [of s] show ?thesis
    using assms(2) staged_insert_error_wp [OF assms(1), of "s\<lparr> at_clock := at_clock s + 1 \<rparr>"]
    by (simp add: create_staged_insert_round_def wp_simps wp_hook [OF assms(1)] Let_def)
qed

lemma staged_insert_loop_wp:
  assumes "J cas s" and "\<And>cas s. J cas s \<Longrightarrow> wp (create_staged_insert_round env i content op_id cas) (on_end (\<lambda>_ _. True) (round_end J X)) s"
    and "\<And>cas s n. J cas s \<Longrightarrow> J cas (s\<lparr> at_clock := n \<rparr>)"
  shows "wp (create_staged_insert_loop env i content op_id cas d) (on_end (\<lambda>_ _. True) X) s"
  using assms
proof (induction env i content op_id cas d s rule: create_staged_insert_loop.induct)
  case (1 env i content op_id cas d s)
  note round = wpD [OF "1.prems"(2) [OF "1.prems"(1)]]
  show ?case
  proof (cases "create_staged_insert_round env i content op_id cas s")
    case (Some r)
    obtain x s1 where r: "r = (x, s1)" by fastforce
    then have x: "on_end (\<lambda>_ _. True) (round_end J X) x s1" using round Some by simp
    have "wp (create_staged_insert_loop env i content op_id cas' d') (on_end (\<lambda>_ _. True) X)
        (s1\<lparr> at_clock := at_clock s1 + 1 \<rparr>)"
      if "x = Inr (Again cas')" "exp_delay_call (se_timeout env) (se_now env (at_clock s1)) d = Inr d'" for cas' d'
      by (rule "1.IH" [OF Some r [symmetric] that(1) refl that(2)])
        (use x that(1) "1.prems" in \<open>simp_all\<close>)
    then show ?thesis using Some r x
      by (auto simp: wp_def create_staged_insert_loop.simps [of env i content op_id cas d s]
          split: sum.splits round.splits)
  qed (simp add: wp_def create_staged_insert_loop.simps [of env i content op_id cas d s])
qed

lemma create_staged_insert_wp:
  "no_hooks (se_attempt env) \<Longrightarrow> going env s \<Longrightarrow>
   wp (create_staged_insert env i content cas op_id) (on_end (\<lambda>_ _. True) (staged_post env)) s"
  unfolding create_staged_insert_def
  by (rule staged_insert_loop_wp [where J = "\<lambda>_. going env"]) (simp_all add: staged_insert_round_wp)

lemma remove_error_wp: "going env s \<Longrightarrow> wp (remove_error ec) (on_end (\<lambda>_ _. True) (staged_post env)) s"
  by (auto simp: remove_error_def Let_def wp_simps going_error split: error_class.split)

lemma create_staged_remove_wp:
  assumes "no_hooks (se_attempt env)" and "going env s"
  shows "wp (create_staged_remove env doc op_id) (on_end (\<lambda>_ _. True) (staged_post env)) s"
proof -
  have "wp (staged_remove_reply env doc resp) (on_end (\<lambda>_ _. True) (staged_post env)) t"
    if "going env t" "Doc_mutated req resp \<in> set (at_log t)" "mq_id req = gr_id doc" for t req resp
  proof -
    let ?t = "t\<lparr> at_clock := at_clock t + 1 \<rparr>"
    have "staged_post env (Inr ()) (add_staged m ?t)"
      if "sm_id m = gr_id doc" "sm_cas m = mi_cas resp" "error_class_from_response resp = Inr None" for m
      by (rule going_add_staged, use \<open>going env t\<close> in simp, rule staged_on_server_mutated [OF _ _ _ that(3)])
        (use that \<open>Doc_mutated req resp \<in> _\<close> \<open>mq_id req = _\<close> in simp_all)
    then show ?thesis using remove_error_wp [OF that(1)]
      by (simp add: staged_remove_reply_def response_error_class_def wp_simps wp_hook [OF assms(1)] on_end_def
          split: option.split sum.split)
  qed
  from this [of "s\<lparr> at_clock := n, at_log := at_log s @ [Doc_mutated (staged_remove_request env u doc op_id) resp] \<rparr>"
      "staged_remove_request env u doc op_id" resp for u n resp]
  show ?thesis using assms(2)
    by (simp add: create_staged_remove_def wp_simps wp_hook [OF assms(1)] Let_def)
qed

lemma remove_staged_insert_wp:
  assumes "no_hooks (se_attempt env)" and "going env s"
  shows "wp (remove_staged_insert env i) (on_end (\<lambda>_ _. True) (staged_post env)) s"
proof -
  have err: "wp (remove_staged_insert_error c) (on_end (\<lambda>_ _. True) (staged_post env)) t" if "going env t" for c t
    using that by (auto simp: remove_staged_insert_error_def wp_simps going_error split: error_class.split)
  have out: "staged_post env (Inr ()) (t\<lparr> at_clock := n, at_queue := smq_remove_any i (at_queue t) \<rparr>)" if "going env t" for t n
    using that by (auto simp: going_def staged_post_def stage_inv_def smq_remove_any_def list_all_iff)
  have "wp (remove_staged_insert_reply env i resp) (on_end (\<lambda>_ _. True) (staged_post env)) t" if "going env t" for t resp
    using err [OF that] out [OF that]
    by (simp add: remove_staged_insert_reply_def response_error_class_def wp_simps wp_hook [OF assms(1)] on_end_def
        split: option.split sum.split)
  then show ?thesis using assms(2)
    by (simp add: remove_staged_insert_def wp_simps wp_hook [OF assms(1)] Let_def going_error)
qed

subsection \<open>The operations\<close>

definition ready_post :: "stage_env \<Rightarrow> 'a outcome \<Rightarrow> attempt \<Rightarrow> bool" where
  "ready_post env r s \<longleftrightarrow> ready env s \<and> sound_outcome r"

lemma staged_ready: "staged_post env r s \<Longrightarrow> ready_post env r s"
  by (simp add: staged_post_def ready_post_def ready_def)

lemma failed_ready:
  "stage_inv env s \<Longrightarrow> sound_failure f \<Longrightarrow> ready_post env (Inl (Op_failed f)) (s\<lparr> at_errors := at_errors s @ [f] \<rparr>)"
  "stage_inv env s \<Longrightarrow> sound_failure f \<Longrightarrow>
   ready_post env (Inl (Op_failed f)) (s\<lparr> at_clock := n, at_errors := at_errors s @ [f] \<rparr>)"
  "stage_inv env s \<Longrightarrow> sound_failure f \<Longrightarrow>
   ready_post env (Inl (Op_failed f)) (s\<lparr> at_clock := n, at_overtime := b, at_errors := at_errors s @ [f] \<rparr>)"
  by (auto simp: ready_post_def ready_def stage_inv_def)

lemma wp_ready: "wp m (on_end (\<lambda>_ _. True) (staged_post env)) s \<Longrightarrow> wp m (on_end (\<lambda>_ _. True) (ready_post env)) s"
  by (erule wp_mono) (auto simp: on_end_iff staged_ready)

lemma ready_exception:
  "ready env s \<Longrightarrow> ready_post env (Inl (Op_exception c)) (s\<lparr> at_clock := n \<rparr>)"
  by (simp add: ready_post_def ready_def)

lemma ready_inv: "ready env s \<Longrightarrow> stage_inv env s"
  by (simp add: ready_def)

lemma ready_updates [simp]:
  "ready env (s\<lparr> at_clock := n \<rparr>) = ready env s" "ready env (s\<lparr> at_overtime := b \<rparr>) = ready env s"
  by (simp_all add: ready_def)

lemma calm_errors: "calm env s s' \<Longrightarrow> at_errors s' = at_errors s"
  by (simp add: calm_def)

lemma calm_ready: "calm env s s' \<Longrightarrow> ready env s \<Longrightarrow> ready env s'"
  by (auto simp: ready_def calm_def)

lemma ready_own: "ready env s \<Longrightarrow> own_mutation i s = Some m \<Longrightarrow> going env s"
  by (auto simp: own_mutation_def smq_find_any_def ready_def going_def stage_inv_def find_Some_iff)

text \<open>A staging that follows the choice of the record.\<close>

lemma after_select_wp:
  assumes "no_hooks (se_attempt env)" and "ready env s" and "at_errors s = []"
    and "\<And>s'. going env s' \<Longrightarrow> wp k (on_end (\<lambda>_ _. True) (staged_post env)) s'"
  shows "wp (unless_failed (select_atr_if_needed env i) k) (on_end (\<lambda>_ _. True) (ready_post env)) s"
  unfolding wp_unless_failed
proof (rule wp_mono [OF select_atr_wp [OF assms(1-3)]])
  fix r :: "txn_exception + transaction_operation_failed option" and s'
  assume r: "on_end (\<lambda>_ _. True) (pending_post env) r s'"
  show "on_end (\<lambda>e. on_end (\<lambda>_ _. True) (ready_post env) (Inl e)) (\<lambda>err s'. case err of
      Some f \<Rightarrow> on_end (\<lambda>_ _. True) (ready_post env) (Inr (Inl (Op_failed f))) (s'\<lparr> at_errors := at_errors s' @ [f] \<rparr>)
    | None \<Rightarrow> wp k (on_end (\<lambda>_ _. True) (ready_post env)) s') r s'"
    using r wp_ready [OF assms(4), of s']
    by (cases r; cases "projr r") (auto simp: pending_post_def failed_ready going_def)
qed

text \<open>A staging that follows the check for a blocking transaction.\<close>

lemma after_blocking_wp:
  assumes "no_hooks (se_attempt env)" and "ready env s" and "at_errors s = []"
    and "\<And>s'. ready env s' \<Longrightarrow> at_errors s' = [] \<Longrightarrow> wp k (on_end (\<lambda>_ _. True) (ready_post env)) s'"
  shows "wp (unless_failed (check_and_handle_blocking_transactions env doc stage) k)
    (on_end (\<lambda>_ _. True) (ready_post env)) s"
  unfolding wp_unless_failed
proof (rule check_and_handle_wp [OF assms(1) ready_inv [OF assms(2)]])
  fix s'
  assume c: "calm env s s'"
  have "wp k (on_end (\<lambda>_ _. True) (ready_post env)) s'"
    by (rule assms(4)) (use calm_ready [OF c assms(2)] calm_errors [OF c] assms(3) in simp_all)
  then show "on_end (\<lambda>e. on_end (\<lambda>_ _. True) (ready_post env) (Inl e)) (\<lambda>err s'. case err of
      Some f \<Rightarrow> on_end (\<lambda>_ _. True) (ready_post env) (Inr (Inl (Op_failed f))) (s'\<lparr> at_errors := at_errors s' @ [f] \<rparr>)
    | None \<Rightarrow> wp k (on_end (\<lambda>_ _. True) (ready_post env)) s') (Inr None) s'" by simp
next
  fix f s'
  assume "calm env s s'" "sound_failure f"
  then show "on_end (\<lambda>e. on_end (\<lambda>_ _. True) (ready_post env) (Inl e)) (\<lambda>err s'. case err of
      Some f \<Rightarrow> on_end (\<lambda>_ _. True) (ready_post env) (Inr (Inl (Op_failed f))) (s'\<lparr> at_errors := at_errors s' @ [f] \<rparr>)
    | None \<Rightarrow> wp k (on_end (\<lambda>_ _. True) (ready_post env)) s') (Inr (Some f)) s'"
    using failed_ready(1) calm_inv by simp blast
qed simp

lemma insert_body_wp:
  assumes "no_hooks (se_attempt env)" and "ready env s" and "at_errors s = []"
  shows "wp (insert_body env i content) (on_end (\<lambda>_ _. True) (ready_post env)) s"
proof -
  let ?s = "s\<lparr> at_clock := at_clock s + 1 \<rparr>"
  have sel: "wp (unless_failed (select_atr_if_needed env i) k) (on_end (\<lambda>_ _. True) (ready_post env)) (s\<lparr> at_clock := n \<rparr>)"
    if "\<And>s'. going env s' \<Longrightarrow> wp k (on_end (\<lambda>_ _. True) (staged_post env)) s'" for n k
    by (rule after_select_wp [OF assms(1)]) (use assms that in simp_all)
  have rep: "wp (unless_failed (select_atr_if_needed env i) (create_staged_replace env j content flags cas op_id md))
      (on_end (\<lambda>_ _. True) (ready_post env)) (s\<lparr> at_clock := n \<rparr>)" for j flags cas op_id md n
    by (rule sel) (rule create_staged_replace_wp [OF assms(1)])
  have ins: "wp (unless_failed (select_atr_if_needed env i) (create_staged_insert env i content 0 op_id))
      (on_end (\<lambda>_ _. True) (ready_post env)) (s\<lparr> at_clock := n \<rparr>)" for op_id n
    by (rule sel) (rule create_staged_insert_wp [OF assms(1)])
  show ?thesis using rep ins ready_inv [OF assms(2)] assms(2)
    by (simp add: insert_body_def wp_simps Let_def failed_ready ready_exception split: option.split)
qed

lemma replace_body_wp:
  assumes "no_hooks (se_attempt env)" and "ready env s" and "at_errors s = []"
  shows "wp (replace_body env doc content) (on_end (\<lambda>_ _. True) (ready_post env)) s"
proof -
  have "wp (unless_failed (check_and_handle_blocking_transactions env doc WRITE_WRITE_CONFLICT_REPLACING)
      (unless_failed (select_atr_if_needed env (gr_id doc))
        (if b then create_staged_insert env (gr_id doc) content (gr_cas doc) op_id
         else create_staged_replace env (gr_id doc) content flags cas op_id md)))
      (on_end (\<lambda>_ _. True) (ready_post env)) (s\<lparr> at_clock := n \<rparr>)" for b flags cas op_id md n
    by (rule after_blocking_wp [OF assms(1) _ _ after_select_wp [OF assms(1)]])
      (use assms in \<open>simp_all add: create_staged_replace_wp create_staged_insert_wp\<close>)
  then show ?thesis using ready_inv [OF assms(2)]
    by (simp add: replace_body_def wp_simps Let_def failed_ready doc_not_found_def)
qed

lemma remove_body_wp:
  assumes "no_hooks (se_attempt env)" and "ready env s" and "at_errors s = []"
  shows "wp (remove_body env doc) (on_end (\<lambda>_ _. True) (ready_post env)) s"
proof -
  have "wp (unless_failed (check_and_handle_blocking_transactions env doc WRITE_WRITE_CONFLICT_REMOVING)
      (unless_failed (select_atr_if_needed env (gr_id doc)) (create_staged_remove env doc op_id)))
      (on_end (\<lambda>_ _. True) (ready_post env)) (s\<lparr> at_clock := n \<rparr>)" for op_id n
    by (rule after_blocking_wp [OF assms(1) _ _ after_select_wp [OF assms(1)]])
      (use assms in \<open>simp_all add: create_staged_remove_wp\<close>)
  moreover have "wp (remove_staged_insert env (gr_id doc)) (on_end (\<lambda>_ _. True) (ready_post env)) (s\<lparr> at_clock := n \<rparr>)"
    if "map_option sm_type (own_mutation (gr_id doc) s) = Some mutation_INSERT" for n
    by (rule wp_ready [OF remove_staged_insert_wp [OF assms(1)]]) (use that ready_own [OF assms(2)] in auto)
  ultimately show ?thesis using ready_inv [OF assms(2)]
    by (simp add: remove_body_def wp_simps Let_def failed_ready doc_not_found_def remove_error_def)
qed

lemma visible_by_record_wp:
  assumes "\<And>r. Q r s"
  shows "wp (visible_by_record env doc err entries) Q s"
proof -
  have "wp (visible_by_entry env doc e) Q' s" if "\<And>r. Q' r s" for e Q'
    unfolding visible_by_entry_def Let_def
    by (auto simp: wp_simps that intro!: wp_forward_compat_error)
  then show ?thesis using assms
    by (auto simp: visible_by_record_def Let_def wp_simps on_end_iff split: option.split bool.split)
qed

lemma visible_doc_wp:
  assumes "stage_inv env s"
  shows "wp (visible_doc env resolving answer) (on_end (\<lambda>_. calm env s) (round_end (\<lambda>_. calm env s) (\<lambda>_. calm env s))) s"
proof -
  let ?Q = "on_end (\<lambda>_. calm env s) (round_end (\<lambda>_. calm env s) (\<lambda>_. calm env s))"
  have "wp (get_atr env j (visible_by_record env d)) ?Q s" for j d
    by (rule get_atr_wp [OF assms]) (rule visible_by_record_wp, auto simp: on_end_iff round_end_iff)
  moreover obtain ec cause doc where "answer = (ec, cause, doc)" by (cases answer)
  ultimately show ?thesis using assms
    by (auto simp: visible_doc_def Let_def wp_simps on_end_iff split: option.split)
qed

lemma do_get_wp:
  assumes "no_hooks (se_attempt env)" and "stage_inv env s"
  shows "wp (do_get env i) (on_end (\<lambda>_ _. False) (\<lambda>_. calm env s)) s"
proof -
  have "wp (do_get_round env i c) (on_end (\<lambda>_ _. False) (round_end (\<lambda>_. calm env s) (\<lambda>_. calm env s))) t"
    if t: "calm env s t" for c t
  proof -
    have "wp (get_doc env i (visible_doc env c)) (on_end (\<lambda>_ _. False) (round_end (\<lambda>_. calm env s) (\<lambda>_. calm env s)))
        (t\<lparr> at_clock := n \<rparr>)" for n
    proof -
      let ?t = "t\<lparr> at_clock := Suc n, at_log := at_log t @ [Doc_read i (ae_lookup (se_attempt env) n)] \<rparr>"
      have "stage_inv env ?t" "calm env s ?t" using t calm_inv by (auto simp: calm_def)
      then have "wp (visible_doc env c answer) (on_end (\<lambda>_ _. True) (\<lambda>x. on_end (\<lambda>_ _. False)
          (round_end (\<lambda>_. calm env s) (\<lambda>_. calm env s)) (Inr x))) ?t" for answer
        by (intro wp_mono [OF visible_doc_wp]) (auto simp: on_end_iff round_end_iff intro: calm_trans)
      then show ?thesis
        by (simp add: get_doc_def wp_simps Let_def split: option.split) (simp add: on_end_iff)
    qed
    then show ?thesis using t
      by (simp add: do_get_round_def wp_simps wp_hook [OF assms(1)] Let_def calm_overtime split: option.split)
  qed
  note round = this
  show ?thesis unfolding do_get_def
    by (rule round_loop_wp [where J = "\<lambda>_. calm env s"]) (use assms(2) round in simp_all)
qed

lemma get_handler_wp:
  assumes "ready env s"
  shows "wp (get_handler cause res ec) (on_end (\<lambda>_ _. True) (ready_post env)) s"
    "wp (get_optional_handler cause res ec) (on_end (\<lambda>_ _. True) (ready_post env)) s"
proof -
  have inv: "stage_inv env s" using assms by (simp add: ready_def)
  have sound: "sound_failure (get_error c cause)" for c
    by (cases c) (simp_all add: get_error_def doc_not_found_def)
  have ok: "ready_post env (Inr x) s" for x :: 'b
    using assms by (simp add: ready_post_def)
  show "wp (get_handler cause res ec) (on_end (\<lambda>_ _. True) (ready_post env)) s"
    using inv sound assms
    by (auto simp: get_handler_def wp_simps failed_ready ready_post_def [of env "Inr _"]
        split: option.split intro!: wp_forward_compat_error)
  show "wp (get_optional_handler cause res ec) (on_end (\<lambda>_ _. True) (ready_post env)) s"
    using inv assms
    by (auto simp: get_optional_handler_def get_optional_error_def wp_simps failed_ready ready_post_def [of env "Inr _"]
        split: option.split error_class.split intro!: wp_forward_compat_error)
qed

lemma existing_error_previous:
  assumes "list_all sound_failure (at_errors s)" and "at_errors s \<noteq> []"
  obtains f where "existing_error True s = Some (Inl (Op_failed f), s)"
    "tof_cause f = PREVIOUS_OPERATION_FAILED" "sound_failure f"
proof
  let ?f = "with_cause PREVIOUS_OPERATION_FAILED (merge_loop (hd (at_errors s)) (at_errors s))"
  show "existing_error True s = Some (Inl (Op_failed ?f), s)"
    using assms(2) by (cases "at_errors s") (auto simp: existing_error_def merge_errors_def Let_def simp del: merge_loop.simps)
  show "sound_failure ?f"
    using assms merge_loop_raise [of FAILED_POST_COMMIT "hd (at_errors s)" "at_errors s"]
    by (cases "at_errors s") (auto simp: sound_failure_def list_all_iff simp del: merge_loop.simps)
qed simp

lemma cache_error_async_wp:
  assumes "ready env s"
    and "at_errors s = [] \<Longrightarrow> wp func (on_end (\<lambda>_ _. False) (ready_post env)) s"
  shows "wp (cache_error_async func) (on_end (\<lambda>_ _. False) (ready_post env)) s"
proof -
  have live: "\<not> at_done s" using assms(1) by (simp add: ready_def stage_inv_def)
  show ?thesis
  proof (cases "at_errors s")
    case Nil
    then have "wp func (on_end (\<lambda>e. wp (cache_error_async_catch e) (on_end (\<lambda>_ _. False) (ready_post env)))
        (\<lambda>x. on_end (\<lambda>_ _. False) (ready_post env) (Inr x))) s"
      by (intro wp_mono [OF assms(2)]) (auto simp: on_end_iff)
    then have "wp (tx_catch (tx_then (existing_error True) func) cache_error_async_catch)
        (on_end (\<lambda>_ _. False) (ready_post env)) s"
      using Nil by (simp add: wp_simps wp_def [of "existing_error True"] existing_error_def)
    then show ?thesis using live by (simp add: wp_def cache_error_async_def)
  next
    case (Cons e es)
    then obtain f where f: "existing_error True s = Some (Inl (Op_failed f), s)"
        "tof_cause f = PREVIOUS_OPERATION_FAILED" "sound_failure f"
      using existing_error_previous [of s] assms(1) by (auto simp: ready_def stage_inv_def)
    then have "wp (tx_catch (tx_then (existing_error True) func) cache_error_async_catch)
        (on_end (\<lambda>_ _. False) (ready_post env)) s"
      using ready_inv [OF assms(1)]
      by (simp add: wp_simps wp_def [of "existing_error True"] cache_error_async_catch_def failed_ready)
    then show ?thesis using live by (simp add: wp_def cache_error_async_def)
  qed
qed

lemma in_open_bucket_wp:
  assumes "ready env s" and "at_errors s = []"
    and "\<And>s'. ready env s' \<Longrightarrow> at_errors s' = [] \<Longrightarrow> wp body (on_end (\<lambda>_ _. True) (ready_post env)) s'"
  shows "wp (in_open_bucket env bucket_name body) (on_end (\<lambda>_ _. False) (ready_post env)) s"
proof -
  have body: "wp body (on_end (\<lambda>_ _. True) (\<lambda>x. on_end (\<lambda>_ _. False) (ready_post env) (Inr x))) s'"
    if "ready env s'" "at_errors s' = []" for s'
    by (rule wp_mono [OF assms(3) [OF that]]) (auto simp: on_end_iff)
  have "wp body (on_end (\<lambda>_ _. True) (\<lambda>x. on_end (\<lambda>_ _. False) (ready_post env) (Inr x)))
      (s\<lparr> at_clock := at_clock s + 1 \<rparr>)"
    by (rule body) (use assms(1,2) in simp_all)
  then show ?thesis using ready_inv [OF assms(1)]
    by (simp add: in_open_bucket_def ensure_open_bucket_def wp_simps failed_ready)
qed

lemma operations_wp:
  assumes "no_hooks (se_attempt env)" and "ready env s"
  shows "wp (txn_insert env i content) (on_end (\<lambda>_ _. False) (ready_post env)) s"
    "wp (txn_replace env doc content) (on_end (\<lambda>_ _. False) (ready_post env)) s"
    "wp (txn_remove env doc) (on_end (\<lambda>_ _. False) (ready_post env)) s"
    "wp (txn_get env i) (on_end (\<lambda>_ _. False) (ready_post env)) s"
    "wp (txn_get_optional env i) (on_end (\<lambda>_ _. False) (ready_post env)) s"
proof -
  show "wp (txn_insert env i content) (on_end (\<lambda>_ _. False) (ready_post env)) s"
    unfolding txn_insert_def
    by (intro cache_error_async_wp in_open_bucket_wp insert_body_wp) (use assms in auto)
  show "wp (txn_replace env doc content) (on_end (\<lambda>_ _. False) (ready_post env)) s"
    unfolding txn_replace_def
    by (intro cache_error_async_wp in_open_bucket_wp replace_body_wp) (use assms in auto)
  show "wp (txn_remove env doc) (on_end (\<lambda>_ _. False) (ready_post env)) s"
    unfolding txn_remove_def
    by (intro cache_error_async_wp in_open_bucket_wp remove_body_wp) (use assms in auto)
  have rest: "on_end (\<lambda>e. on_end E (ready_post env) (Inl e)) (\<lambda>x. wp (case x of (ec, cause, res) \<Rightarrow>
        continuation (case ec of Some c \<Rightarrow> h cause res (Some c) | None \<Rightarrow> tx_bind (hook env) (h cause res)))
      (on_end E (ready_post env))) r s'"
    if "on_end (\<lambda>_ _. False) (\<lambda>_. calm env t) r s'" "ready env t"
      "\<And>cause res ec s. ready env s \<Longrightarrow> wp (h cause res ec) (on_end (\<lambda>_ _. True) (ready_post env)) s"
    for E and h :: "_ \<Rightarrow> _ \<Rightarrow> _ \<Rightarrow> 'b outcome attempt_code" and r :: "txn_exception + doc_answer" and s' t
    using that calm_ready [of env t s']
    by (cases r) (auto simp: wp_simps wp_hook [OF assms(1)] split: option.split)
  show "wp (txn_get env i) (on_end (\<lambda>_ _. False) (ready_post env)) s"
    unfolding txn_get_def
    by (intro cache_error_async_wp assms, unfold wp_bind,
        rule wp_mono [OF do_get_wp [OF assms(1) ready_inv [OF assms(2)]]])
      (erule rest [OF _ assms(2)], rule get_handler_wp)
  show "wp (txn_get_optional env i) (on_end (\<lambda>_ _. False) (ready_post env)) s"
    unfolding txn_get_optional_def
  proof (intro cache_error_async_wp in_open_bucket_wp assms)
    fix t
    assume t: "ready env t"
    show "wp (tx_bind (do_get env i) (\<lambda>(ec, cause, res). continuation (case ec of
          Some c \<Rightarrow> get_optional_handler cause res (Some c)
        | None \<Rightarrow> tx_bind (hook env) (get_optional_handler cause res)))) (on_end (\<lambda>_ _. True) (ready_post env)) t"
      unfolding wp_bind
      by (rule wp_mono [OF do_get_wp [OF assms(1) ready_inv [OF t]]]) (erule rest [OF _ t], rule get_handler_wp)
  qed
qed

end
