(* ===== verification/Txn_Program.thy ===== *)
theory Txn_Program
  imports Stage_Safety
begin

text \<open>
  The application of a transaction as a program of operations, whose continuation depends on what each
  operation gave, and whole transactions of such programs: the operations of \<open>Staging\<close> meet the
  contract that \<open>Txn_Run\<close> asks of an application, so that the theorems about runs hold of them.
\<close>

subsection \<open>Programs\<close>

datatype txn_op =
    Op_get document_id
  | Op_get_optional document_id
  | Op_insert document_id encoded_value
  | Op_replace transaction_get_result encoded_value
  | Op_remove transaction_get_result

type_synonym reply = "transaction_get_result option outcome"

datatype txn_program =
    Finish
  | Throw thrown
  | Call txn_op "reply \<Rightarrow> txn_program"

definition replied :: "('a \<Rightarrow> transaction_get_result option) \<Rightarrow> 'a outcome attempt_code \<Rightarrow> reply attempt_code" where
  "replied f m = tx_bind m (\<lambda>r. tx_return (map_sum id f r))"

primrec perform :: "stage_env \<Rightarrow> txn_op \<Rightarrow> reply attempt_code" where
  "perform env (Op_get i) = replied Some (txn_get env i)"
| "perform env (Op_get_optional i) = replied id (txn_get_optional env i)"
| "perform env (Op_insert i content) = replied Some (txn_insert env i content)"
| "perform env (Op_replace doc content) = replied Some (txn_replace env doc content)"
| "perform env (Op_remove doc) = replied (\<lambda>_. None) (txn_remove env doc)"

primrec run_program :: "stage_env \<Rightarrow> txn_program \<Rightarrow> attempt \<Rightarrow> ((thrown + unit) \<times> attempt) option" where
  "run_program env Finish s = Some (Inr (), s)"
| "run_program env (Throw x) s = Some (Inl x, s)"
| "run_program env (Call op k) s =
     (case perform env op s of
        None \<Rightarrow> None
      | Some (Inl e, s') \<Rightarrow> Some (Inl (Thrown e), s')
      | Some (Inr r, s') \<Rightarrow> run_program env (k r) s')"

text \<open>
  A program throws what it likes, except that it does not make up the internal error of a failure after
  the commit point, which no operation gives it.
\<close>

primrec honest :: "txn_program \<Rightarrow> bool" where
  "honest Finish \<longleftrightarrow> True"
| "honest (Throw x) \<longleftrightarrow> (\<forall>f. x = Thrown (Op_failed f) \<longrightarrow> sound_failure f)"
| "honest (Call op k) \<longleftrightarrow> (\<forall>r. sound_outcome r \<longrightarrow> honest (k r))"

subsection \<open>The invariant of a program\<close>

lemma sound_outcome_map [simp]: "sound_outcome (map_sum id f r) = sound_outcome r"
  by (cases r) (auto simp: sound_outcome_def)

lemma replied_wp:
  assumes "wp m (on_end (\<lambda>_ _. False) (ready_post env)) s"
  shows "wp (replied f m) (on_end (\<lambda>_ _. False) (ready_post env)) s"
  unfolding replied_def wp_bind
  by (rule wp_mono [OF assms]) (auto simp: on_end_iff wp_simps ready_post_def)

lemma perform_wp:
  "no_hooks (se_attempt env) \<Longrightarrow> ready env s \<Longrightarrow> wp (perform env op) (on_end (\<lambda>_ _. False) (ready_post env)) s"
  by (cases op) (simp_all add: replied_wp operations_wp)

lemma run_program_ready:
  "run_program env p s = Some (r, a) \<Longrightarrow> no_hooks (se_attempt env) \<Longrightarrow> ready env s \<Longrightarrow> honest p \<Longrightarrow>
   ready env a \<and> (\<forall>f. r = Inl (Thrown (Op_failed f)) \<longrightarrow> sound_failure f)"
proof (induction p arbitrary: s)
  case (Call op k)
  obtain x s' where x: "perform env op s = Some (x, s')" using Call.prems(1) by (auto split: option.splits)
  have "on_end (\<lambda>_ _. False) (ready_post env) x s'" by (rule wpD [OF perform_wp x]) (use Call.prems in simp_all)
  then obtain y where y: "x = Inr y" "ready env s'" "sound_outcome y"
    by (cases x) (auto simp: ready_post_def)
  then show ?case using Call.IH [of "k y" s'] Call.prems x by auto
qed auto

lemma ready_new: "ready env new_attempt"
  by (simp add: ready_def stage_inv_def new_attempt_def staged_after_pending_def)

subsection \<open>Properties\<close>


text \<open>
  C5: The queue of an attempt is true: after any program of operations, each staged mutation that a
  commit would unstage was acknowledged by the server under the CAS in the queue, or is an insert that
  was read back, with that CAS, as staged by this attempt.
\<close>

theorem queue_known_to_server:
  assumes "run_program env p new_attempt = Some (r, a)" and "honest p" and "no_hooks (se_attempt env)"
    and "m \<in> set (at_queue a)"
  shows "staged_on_server env (at_log a) m"
  using run_program_ready [OF assms(1,3) ready_new assms(2)] assms(4)
  by (auto simp: ready_def stage_inv_def list_all_iff)

lemma pending_not_commit:
  "atr_pending_request env i rem \<noteq> atr_commit_request aenv j q" "atr_pending_request env i rem \<noteq> atr_abort_request aenv j q"
  by (simp_all add: atr_pending_request_def atr_commit_request_def atr_abort_request_def Let_def)

lemma staging_event_neutral: "staging_event env e \<Longrightarrow> \<not> atr_evidence aenv e \<and> \<not> rolls_back aenv e"
  by (cases e) (auto simp: pending_not_commit)

lemma programs_kv_logic:
  assumes "\<And>n. te_logic env n = run_program (se n) (p n)" and "\<And>n. no_hooks (se_attempt (se n))" and "\<And>n. honest (p n)"
  shows "kv_logic env"
  unfolding kv_logic_def
proof (intro allI impI)
  fix n r a
  assume "te_logic env n new_attempt = Some (r, a)"
  then have run: "run_program (se n) (p n) new_attempt = Some (r, a)" using assms(1) by simp
  have "ready (se n) a \<and> (\<forall>f. r = Inl (Thrown (Op_failed f)) \<longrightarrow> sound_failure f)"
    by (rule run_program_ready [OF run assms(2) ready_new assms(3)])
  then show "\<not> at_query_mode a \<and> \<not> at_done a
     \<and> list_all (\<lambda>e. \<not> atr_evidence (te_attempt env n) e \<and> \<not> rolls_back (te_attempt env n) e) (at_log a)
     \<and> list_all (\<lambda>f. tof_to_raise f \<noteq> FAILED_POST_COMMIT) (at_errors a)
     \<and> (\<forall>f. r = Inl (Thrown (Op_failed f)) \<longrightarrow> tof_to_raise f \<noteq> FAILED_POST_COMMIT)"
    using staging_event_neutral [of "se n"]
    by (auto simp: ready_def stage_inv_def sound_failure_def [symmetric] list_all_iff)
qed

text \<open>
  C2: Whole transactions. In a run of \<^verbatim>\<open>transactions::run\<close> whose application is a program of
  operations, and where no testing hook and no cancelled timer interferes: an attempt that an answer of
  the server showed to be committed is the last of the run, is reported by a result and not by an
  exception, and was neither aborted nor had its documents rolled back; and a run that returns a
  result after it had entered its last attempt in a transaction record has been committed.
\<close>

theorem program_run_atomic:
  assumes "run env = Some (r, s)" and "\<forall>n. te_logic env n = run_program (se n) (p n)"
    and "\<forall>n. se_attempt (se n) = te_attempt env n" and "\<forall>n. honest (p n)" and "undisturbed env"
  shows "(\<forall>i < length (tc_attempts s). committed env s i \<longrightarrow>
      i = length (tc_attempts s) - 1 \<and> (\<exists>b. r = Inr b) \<and> \<not> undone env s i)
    \<and> ((\<exists>b. r = Inr b) \<and> has_atr (current_attempt_context s) \<longrightarrow> committed env s (length (tc_attempts s) - 1))"
proof -
  have "kv_logic env"
    by (rule programs_kv_logic [of env se p]) (use assms in \<open>auto simp: undisturbed_def\<close>)
  then show ?thesis using run_run_ended [OF assms(1) _ assms(5)] by (auto simp: run_ended_def)
qed

subsection \<open>A transaction that inserts a document\<close>

definition demo_doc :: document_id where
  "demo_doc = mk_document_id ''b'' ''s'' ''c'' ''k''"

definition demo_stage :: stage_env where
  "demo_stage = \<lparr> se_attempt = demo_ok None, se_transaction_id = ''t'', se_timeout = 15000000000,
     se_remaining = (\<lambda>_. 15000000000), se_now = (\<lambda>_. 0), se_parse = (\<lambda>_. None), se_jsonify = (\<lambda>_. []),
     se_atr_ids = [], se_hook_atr = Some ''atr'', se_metadata_collection = None,
     se_open_fails = (\<lambda>_. False), se_supports_revive = (\<lambda>_. Some True), se_uid = (\<lambda>_. ''op'') \<rparr>"

definition demo_content :: encoded_value where
  "demo_content = \<lparr> ev_data = [0x7b, 0x7d], ev_flags = json_common_flags \<rparr>"

definition demo_program :: txn_program where
  "demo_program = Call (Op_insert demo_doc demo_content) (\<lambda>_. Finish)"

lemma round_loop_done: "f c s = Some (Inr (Done x), s') \<Longrightarrow> round_loop f c s = Some (Inr x, s')"
  by (subst round_loop.simps) simp

lemmas stage_eval = hook_def wait_for_hook_def tick_def pure_code_def continuation_def read_state_def tx_defs
  execute_doc_mutate_def execute_doc_lookup_def execute_mutate_in_def response_error_class_def
  error_class_from_response_def mi_is_error_def has_expired_client_side_def
  error_if_expired_and_not_in_overtime_def check_expiry_pre_commit_def op_completed_with_callback_def
  op_completed_with_error_def round_done_def unless_failed_def fb_return_def fb_throw_def

lemmas demo_stage_eval = stage_eval demo_stage_def demo_ok_def demo_env_def reply_with_def demo_doc_def
  demo_content_def mk_document_id_def new_attempt_def Let_def

lemma demo_pending:
  "set_atr_pending_round demo_stage i s = Some (Inr (Done None), s\<lparr> at_clock := at_clock s + (if at_overtime s then 4 else 5),
     at_state := state_PENDING,
     at_log := at_log s @ [Atr_mutated (atr_pending_request demo_stage i 15000000000) (reply_with None)] \<rparr>)"
  by (simp add: set_atr_pending_round_def set_atr_pending_reply_def demo_stage_eval)


lemma demo_select:
  assumes "at_atr_id s = None" and "at_queue s = []"
  shows "\<exists>s' i req resp. select_atr_if_needed demo_stage demo_doc s = Some (Inr None, s')
    \<and> at_log s' = at_log s @ [Atr_mutated req resp] \<and> at_atr_id s' = Some i \<and> id_key i = ''atr''
    \<and> at_queue s' = [] \<and> at_errors s' = at_errors s \<and> at_query_mode s' = at_query_mode s
    \<and> at_done s' = at_done s \<and> at_overtime s' = at_overtime s \<and> at_state s' = state_PENDING"
proof -
  let ?s = "s\<lparr> at_state := state_NOT_STARTED, at_atr_id := Some (atr_id_from_bucket_and_key None ''b'' ''atr'') \<rparr>"
  have "set_atr_pending demo_stage ?s = Some (Inr None, ?s\<lparr> at_clock := at_clock s + (if at_overtime s then 4 else 5),
     at_state := state_PENDING, at_log := at_log s @ [Atr_mutated (atr_pending_request demo_stage
       (atr_id_from_bucket_and_key None ''b'' ''atr'') 15000000000) (reply_with None)] \<rparr>)"
    using assms by (simp add: set_atr_pending_def smq_empty_def round_loop_done [OF demo_pending])
  moreover have "choose_atr_key demo_stage demo_doc = fb_return ''atr''" by (simp add: choose_atr_key_def demo_stage_def)
  moreover have "se_metadata_collection demo_stage = None" "id_bucket demo_doc = ''b''"
    by (simp_all add: demo_stage_def demo_doc_def mk_document_id_def)
  ultimately show ?thesis using assms
    by (simp add: select_atr_if_needed_def pure_code_def fb_return_def tx_defs continuation_def
        atr_id_from_bucket_and_key_def mk_document_id_def)
qed

text \<open>An attempt that has one insert staged, and what the commit makes of it.\<close>

definition one_staged :: "attempt \<Rightarrow> bool" where
  "one_staged s \<longleftrightarrow> at_errors s = [] \<and> \<not> at_query_mode s \<and> \<not> at_done s \<and> \<not> at_overtime s \<and> has_atr s
     \<and> (\<exists>m. at_queue s = [m] \<and> sm_type m = mutation_INSERT \<and> sm_content m = None)"

lemma demo_insert_round:
  assumes "at_atr_id s = Some i" and "id_key i \<noteq> []" and "at_queue s = []" and "\<not> at_overtime s" and "at_errors s = []"
    and "\<not> at_query_mode s" and "\<not> at_done s"
  shows "\<exists>s' out req resp. create_staged_insert_round demo_stage demo_doc demo_content ''op'' 0 s
      = Some (Inr (Done (Inr out)), s') \<and> at_log s' = at_log s @ [Doc_mutated req resp] \<and> one_staged s'"
  using assms
  by (simp add: create_staged_insert_round_def staged_insert_reply_def staged_insert_done_def
      add_staged_def smq_add_def smq_remove_any_def one_staged_def has_atr_def staged_entry_def demo_stage_eval)

lemma demo_stage_sel:
  "se_attempt demo_stage = demo_ok None" "se_uid demo_stage n = ''op''" "se_open_fails demo_stage n = False"
  "ae_expired (demo_ok None) n = False"
  by (simp_all add: demo_stage_def demo_ok_def demo_env_def)

lemma demo_insert:
  "\<exists>s' req resp req' resp'. run_program demo_stage demo_program new_attempt = Some (Inr (), s')
     \<and> at_log s' = [Atr_mutated req resp, Doc_mutated req' resp'] \<and> one_staged s'"
proof -
  let ?s = "new_attempt\<lparr> at_clock := Suc (Suc (Suc 0)) \<rparr>"
  obtain s1 i req resp where s1: "select_atr_if_needed demo_stage demo_doc ?s = Some (Inr None, s1)"
    "at_log s1 = [Atr_mutated req resp]" "at_atr_id s1 = Some i" "id_key i = ''atr''" "at_queue s1 = []"
    "at_errors s1 = []" "\<not> at_query_mode s1" "\<not> at_done s1" "\<not> at_overtime s1"
    using demo_select [of ?s] by (auto simp: new_attempt_def)
  then obtain s2 out req' resp' where s2: "create_staged_insert_round demo_stage demo_doc demo_content ''op'' 0 s1
      = Some (Inr (Done (Inr out)), s2)" "at_log s2 = at_log s1 @ [Doc_mutated req' resp']" "one_staged s2"
    using demo_insert_round [of s1] by auto
  then have "create_staged_insert demo_stage demo_doc demo_content 0 ''op'' s1 = Some (Inr (Inr out), s2)"
    by (simp add: create_staged_insert_def create_staged_insert_loop.simps)
  then have "insert_body demo_stage demo_doc demo_content (new_attempt\<lparr> at_clock := 1 \<rparr>) = Some (Inr (Inr out), s2)"
    using s1(1) by (simp add: insert_body_def unless_failed_def own_mutation_def smq_find_any_def tick_def read_state_def
        tx_defs check_expiry_pre_commit_def has_expired_client_side_def new_attempt_def demo_stage_sel)
  then show ?thesis using s2 s1(2)
    by (simp add: demo_program_def replied_def txn_insert_def cache_error_async_def in_open_bucket_def
        ensure_open_bucket_def tick_def tx_defs continuation_def existing_error_def demo_doc_def mk_document_id_def
        new_attempt_def demo_stage_sel)
qed

lemma demo_unstage:
  assumes "one_staged s"
  shows "\<exists>u. unstage_run True 0 [Launch, Run 0 False None, Reply 0 (reply_with None) None None]
      (new_unstage_state (at_queue s) False) = Some u \<and> unstage_done u \<and> unstage_outcome True u = None"
proof -
  obtain m where m: "at_queue s = [m]" "sm_type m = mutation_INSERT" "sm_content m = None"
    using assms by (auto simp: one_staged_def)
  show ?thesis by (simp add: m one_eval)
qed

lemma demo_atr_commit:
  assumes "one_staged s"
  shows "\<exists>s'. atr_commit (demo_ok None) False s = Some (Inr (), s') \<and> at_queue s' = at_queue s
    \<and> at_overtime s' = at_overtime s \<and> at_atr_id s' = at_atr_id s"
proof -
  obtain i where "at_atr_id s = Some i" "\<not> at_overtime s"
    using assms by (auto simp: one_staged_def has_atr_def split: option.splits)
  then have "atr_commit_round (demo_ok None) (False, s) = Some (Inr (), False, s\<lparr> at_clock := at_clock s + 4,
      at_state := state_COMMITTED, at_log := at_log s @ [Atr_mutated (atr_commit_request (demo_ok None) i (at_queue s))
        (reply_with None)] \<rparr>)"
    by (simp add: demo_eval)
  then have "retry_op (atr_commit_round (demo_ok None)) (False, s) = Some (Inr (), False, s\<lparr> at_clock := at_clock s + 4,
      at_state := state_COMMITTED, at_log := at_log s @ [Atr_mutated (atr_commit_request (demo_ok None) i (at_queue s))
        (reply_with None)] \<rparr>)"
    by (rule retry_op_final) simp
  then show ?thesis by (simp add: atr_commit_def)
qed

lemma demo_commit:
  assumes "one_staged s"
  shows "\<exists>a. commit (demo_ok None) s = Some (Inr (), a) \<and> has_atr a"
proof -
  let ?s = "s\<lparr> at_clock := at_clock s + 1 \<rparr>"
  have one: "one_staged ?s" using assms by (simp add: one_staged_def has_atr_def)
  obtain s1 where s1: "atr_commit (demo_ok None) False ?s = Some (Inr (), s1)" "at_queue s1 = at_queue s"
    "\<not> at_overtime s1" "at_atr_id s1 = at_atr_id s"
    using demo_atr_commit [OF one] assms by (auto simp: one_staged_def)
  obtain u where u: "unstage_run True 0 [Launch, Run 0 False None, Reply 0 (reply_with None) None None]
      (new_unstage_state (at_queue s) False) = Some u" "unstage_done u" "unstage_outcome True u = None"
    using demo_unstage [OF assms] by blast
  let ?s2 = "s1\<lparr> at_clock := at_clock s1 + 1, at_queue := us_items u, at_overtime := us_overtime u,
    at_log := at_log s1 @ [Unstaged True (us_log u)] \<rparr>"
  have s2: "unstage_phase (demo_ok None) True s1 = Some (Inr (), ?s2)"
    using u s1 by (simp add: unstage_phase_def demo_ok_def demo_env_def)
  obtain s3 where s3: "atr_complete (demo_ok None) ?s2 = Some (Inr (), s3)"
    using demo_ok_complete [of ?s2 _ None] s1(4) assms by (fastforce simp: one_staged_def has_atr_def split: option.splits)
  have "commit (demo_ok None) s = Some (Inr (), s3\<lparr> at_done := True \<rparr>)"
    using assms s1(1) s2 s3
    by (simp add: commit_def existing_error_def commit_kv_def check_expiry_pre_commit_def one_staged_def has_atr_def
        tx_then_def tx_bind_def tx_return_def tx_modify_def has_expired_client_side_def demo_stage_sel)
  moreover from effectD [OF commit_log this] have "has_atr (s3\<lparr> at_done := True \<rparr>)"
    using assms by (simp add: log_grows_def has_atr_def one_staged_def)
  ultimately show ?thesis by blast
qed

definition insert_txn :: txn_env where
  "insert_txn = demo_txn\<lparr> te_logic := \<lambda>_. run_program demo_stage demo_program \<rparr>"

lemma insert_txn_run:
  "\<exists>b s. run insert_txn = Some (Inr b, s) \<and> length (tc_attempts s) = 1 \<and> has_atr (current_attempt_context s)"
proof -
  obtain s0 where s0: "run_program demo_stage demo_program new_attempt = Some (Inr (), s0)" "one_staged s0"
    using demo_insert by blast
  obtain a where a: "commit (demo_ok None) s0 = Some (Inr (), a)" "has_atr a" using demo_commit [OF s0(2)] by blast
  then have "commit_cb (demo_ok None) s0 = Some (Inr (), a)" by (simp add: commit_cb_def tx_catch_def)
  moreover have "at_errors s0 = []" "\<not> at_done s0" using s0(2) by (simp_all add: one_staged_def)
  ultimately have "run_attempt insert_txn (new_txn_context\<lparr> tc_attempts := [new_attempt], tc_delay := d \<rparr>)
      = Some (Inr (Some (at_state a = state_COMPLETED)), new_txn_context\<lparr> tc_attempts := [a], tc_delay := d \<rparr>)" for d
    using a(2) s0(1)
    by (simp add: run_attempt_def finalize_def existing_error_def finalize_handler_def insert_txn_def demo_txn_def
        current_attempt_context_def set_current_def get_transaction_result_def)
  then have "run insert_txn = Some (Inr (at_state a = state_COMPLETED), new_txn_context\<lparr> tc_attempts := [a],
      tc_delay := \<lparr> xd_retries = 0, xd_end_time = Some (te_now insert_txn 0 + 2 * te_timeout insert_txn) \<rparr> \<rparr>)"
    unfolding run_def
    by (intro wrap_run_once) (auto simp: new_attempt_context_def exp_delay_call_def new_txn_context_def max_attempts_def)
  then show ?thesis using a(2) by (simp add: current_attempt_context_def)
qed

lemma demo_program_honest: "honest demo_program"
  by (simp add: demo_program_def)

lemma demo_stage_no_hooks: "no_hooks (se_attempt demo_stage)"
  by (simp add: no_hooks_def demo_stage_def demo_ok_def demo_env_def)


theorem queue_known_to_server_witness:
  "\<exists>a m. run_program demo_stage demo_program new_attempt = Some (Inr (), a) \<and> at_queue a = [m]
     \<and> staged_on_server demo_stage (at_log a) m"
proof -
  obtain a m where a: "run_program demo_stage demo_program new_attempt = Some (Inr (), a)" "at_queue a = [m]"
    using demo_insert by (auto simp: one_staged_def)
  show ?thesis
    using queue_known_to_server [OF a(1) demo_program_honest demo_stage_no_hooks, of m] a by auto
qed

theorem program_run_atomic_witness: "\<exists>b s. run insert_txn = Some (Inr b, s) \<and> committed insert_txn s 0 \<and> \<not> undone insert_txn s 0"
proof -
  obtain b s where s: "run insert_txn = Some (Inr b, s)" "length (tc_attempts s) = 1"
    "has_atr (current_attempt_context s)" using insert_txn_run by blast
  have "undisturbed insert_txn" by (auto simp: undisturbed_def insert_txn_def demo_txn_def demo_ok_def)
  then show ?thesis
    using program_run_atomic [OF s(1), of "\<lambda>_. demo_stage" "\<lambda>_. demo_program"] s demo_program_honest
    by (auto simp: insert_txn_def demo_txn_def demo_stage_def)
qed

end
