(* ===== verification/Op_List.thy ===== *)
theory Op_List
  imports Transition Txn_Errors
begin

text \<open>
  The operations of an attempt that run at the same time, \<^verbatim>\<open>class waitable_op_list\<close> of
  \<^verbatim>\<open>core/transactions/waitable_op_list.hxx\<close>: it counts the operations, blocks new ones when the
  attempt ends, and switches the attempt to query mode once no other operation is in flight. Every
  method runs under its mutex up to a wait or its end and is one step. A wait may end in any state
  that satisfies its predicate; that a notification arrives is not modelled, so what is proved to
  block does so whatever is notified. A failed assertion has no result.
\<close>

subsection \<open>The list\<close>

datatype attempt_mode = KV | QUERY

record op_list =
  ol_count :: int
  ol_allow_ops :: bool
  ol_mode :: attempt_mode
  ol_query_node :: string
  ol_in_flight :: int

definition new_op_list :: op_list where
  "new_op_list = \<lparr> ol_count = 0, ol_allow_ops = True, ol_mode = KV, ol_query_node = [],
     ol_in_flight = 0 \<rparr>"

definition change_count :: "int \<Rightarrow> op_list \<Rightarrow> (txn_exception + op_list) run" where
  "change_count val s =
     (if \<not> ol_allow_ops s then Some (Inl Async_operation_conflict)
      else let s' = s\<lparr> ol_count := ol_count s + val,
                       ol_in_flight := (if val > 0 then ol_in_flight s + val else ol_in_flight s) \<rparr>
           in if ol_count s' \<ge> 0 \<and> ol_in_flight s' \<ge> 0 then Some (Inr s') else None)"

definition increment_ops :: "op_list \<Rightarrow> (txn_exception + op_list) run" where
  "increment_ops = change_count 1"

definition decrement_ops :: "op_list \<Rightarrow> (txn_exception + op_list) run" where
  "decrement_ops = change_count (- 1)"

definition decrement_in_flight :: "op_list \<Rightarrow> op_list run" where
  "decrement_in_flight s =
     (let s' = s\<lparr> ol_in_flight := ol_in_flight s - 1 \<rparr>
      in if ol_in_flight s' \<ge> 0 then Some s' else None)"

text \<open>\<open>None\<close>: the call waits.\<close>

definition wait_and_block_ops :: "op_list \<Rightarrow> op_list option" where
  "wait_and_block_ops s = (if ol_count s = 0 then Some (s\<lparr> ol_allow_ops := False \<rparr>) else None)"

definition get_mode :: "op_list \<Rightarrow> attempt_mode option" where
  "get_mode s = (if ol_mode s = KV then Some KV else if ol_query_node s \<noteq> [] then Some QUERY else None)"

text \<open>
  \<^verbatim>\<open>set_query_mode\<close>, from its start or from one of its waits, up to the next wait or to one of the
  two callbacks.
\<close>

datatype query_wait = At_start | At_in_flight | At_node | At_turn

datatype query_next = Wait query_wait | Begin_work | Do_query

definition await_turn :: "op_list \<Rightarrow> query_next \<times> op_list" where
  "await_turn s =
     (if ol_in_flight s = 0 then (Do_query, s\<lparr> ol_in_flight := ol_in_flight s + 1 \<rparr>)
      else (Wait At_turn, s))"

definition await_node :: "op_list \<Rightarrow> query_next \<times> op_list" where
  "await_node s = (if ol_query_node s \<noteq> [] then await_turn s else (Wait At_node, s))"

definition await_in_flight :: "op_list \<Rightarrow> query_next \<times> op_list" where
  "await_in_flight s =
     (if ol_in_flight s \<noteq> 0 then (Wait At_in_flight, s)
      else if ol_mode s = KV
      then (Begin_work, s\<lparr> ol_mode := QUERY, ol_in_flight := ol_in_flight s + 1 \<rparr>)
      else await_node s)"

primrec set_query_mode :: "query_wait \<Rightarrow> op_list \<Rightarrow> query_next \<times> op_list" where
  "set_query_mode At_start s =
     (let s' = s\<lparr> ol_in_flight := ol_in_flight s - 1 \<rparr>
      in if ol_mode s' = KV then await_in_flight s' else await_node s')"
| "set_query_mode At_in_flight s = await_in_flight s"
| "set_query_mode At_node s = await_node s"
| "set_query_mode At_turn s = await_turn s"

definition reset_query_mode :: "op_list \<Rightarrow> op_list" where
  "reset_query_mode s = s\<lparr> ol_mode := KV \<rparr>"

definition set_query_node :: "string \<Rightarrow> op_list \<Rightarrow> op_list run" where
  "set_query_node node s = (if ol_mode s = QUERY then Some (s\<lparr> ol_query_node := node \<rparr>) else None)"

subsection \<open>The operations of an attempt\<close>

text \<open>
  How far an operation is: a key-value operation or its query variant has read the mode; then it is
  counted and runs; a query statement goes through \<^verbatim>\<open>set_query_mode\<close>, where the first one also begins
  the work; at the end the operation leaves the flight, calls back and is counted off.
\<close>

datatype op_phase =
    Idle
  | Chosen attempt_mode
  | Rejected
  | Running attempt_mode
  | Waiting query_wait
  | Beginning
  | Calling
  | Done

record op_world =
  ow_list :: op_list
  ow_ops :: "op_phase list"

datatype op_label =
    Choose nat
  | Start nat
  | Start_query nat
  | Query_mode nat
  | Begun nat string
  | Complete nat
  | Finish nat
  | Block

definition set_op :: "nat \<Rightarrow> op_phase \<Rightarrow> op_list \<Rightarrow> op_world \<Rightarrow> op_world" where
  "set_op i p l w = w\<lparr> ow_list := l, ow_ops := (ow_ops w)[i := p] \<rparr>"

definition phase :: "op_world \<Rightarrow> nat \<Rightarrow> op_phase option" where
  "phase w i = (if i < length (ow_ops w) then Some (ow_ops w ! i) else None)"

text \<open>
  The mode a key-value operation asks for, before it is counted (\<^verbatim>\<open>get\<close>, \<^verbatim>\<open>insert\<close>,
  \<^verbatim>\<open>replace\<close>, \<^verbatim>\<open>remove\<close>).
\<close>

definition choose_variant :: "nat \<Rightarrow> op_world \<Rightarrow> op_world option" where
  "choose_variant i w =
     (case get_mode (ow_list w) of
        None \<Rightarrow> None
      | Some m \<Rightarrow> Some (set_op i (Chosen m) (ow_list w) w))"

text \<open>\<^verbatim>\<open>cache_error_async\<close>; a sum is one of the two ways to go on.\<close>

definition cache_error_async :: "nat \<Rightarrow> op_phase \<Rightarrow> op_world \<Rightarrow> op_world run" where
  "cache_error_async i p w =
     (case increment_ops (ow_list w) of
        None \<Rightarrow> None
      | Some (Inl e) \<Rightarrow> Some (set_op i Rejected (ow_list w) w)
      | Some (Inr l) \<Rightarrow> Some (set_op i p l w))"

definition enter_query_mode :: "nat \<Rightarrow> query_wait \<Rightarrow> op_world \<Rightarrow> op_world" where
  "enter_query_mode i at w =
     (case set_query_mode at (ow_list w) of
        (Wait at', l) \<Rightarrow> set_op i (Waiting at') l w
      | (Begin_work, l) \<Rightarrow> set_op i Beginning l w
      | (Do_query, l) \<Rightarrow> set_op i (Running QUERY) l w)"

text \<open>The answer to the statement that begins the work names the node, or none.\<close>

definition query_begin_work :: "nat \<Rightarrow> string \<Rightarrow> op_world \<Rightarrow> op_world run" where
  "query_begin_work i served_by_node w =
     (if served_by_node = [] then Some (set_op i (Running KV) (reset_query_mode (ow_list w)) w)
      else map_option (\<lambda>l. set_op i (Running QUERY) l w) (set_query_node served_by_node (ow_list w)))"

definition op_completed :: "nat \<Rightarrow> op_world \<Rightarrow> op_world run" where
  "op_completed i w = map_option (\<lambda>l. set_op i Calling l w) (decrement_in_flight (ow_list w))"

definition op_finished :: "nat \<Rightarrow> op_world \<Rightarrow> op_world run" where
  "op_finished i w =
     (case decrement_ops (ow_list w) of
        None \<Rightarrow> None
      | Some (Inl e) \<Rightarrow> Some (set_op i Done (ow_list w) w)
      | Some (Inr l) \<Rightarrow> Some (set_op i Done l w))"

inductive op_step :: "op_world \<Rightarrow> op_label \<Rightarrow> op_world run \<Rightarrow> bool" where
  choose: "phase w i = Some Idle \<Longrightarrow> choose_variant i w = Some w' \<Longrightarrow> op_step w (Choose i) (Some w')"
| start: "phase w i = Some (Chosen m) \<Longrightarrow> op_step w (Start i) (cache_error_async i (Running m) w)"
| start_query: "phase w i = Some Idle \<Longrightarrow>
    op_step w (Start_query i) (cache_error_async i (Waiting At_start) w)"
| query_mode: "phase w i = Some (Waiting at) \<Longrightarrow>
    op_step w (Query_mode i) (Some (enter_query_mode i at w))"
| begun: "phase w i = Some Beginning \<Longrightarrow> op_step w (Begun i node) (query_begin_work i node w)"
| complete: "phase w i = Some (Running m) \<Longrightarrow> op_step w (Complete i) (op_completed i w)"
| finish: "phase w i = Some Calling \<Longrightarrow> op_step w (Finish i) (op_finished i w)"
| block: "wait_and_block_ops (ow_list w) = Some l \<Longrightarrow> op_step w Block (Some (w\<lparr> ow_list := l \<rparr>))"

definition init_ops :: "op_world \<Rightarrow> bool" where
  "init_ops w \<longleftrightarrow> ow_list w = new_op_list \<and> list_all (\<lambda>p. p = Idle) (ow_ops w)"

abbreviation op_steps :: "op_world \<Rightarrow> op_label \<Rightarrow> op_world \<Rightarrow> bool" where
  "op_steps w l w' \<equiv> op_step w l (Some w')"

subsection \<open>The counters\<close>

fun active :: "op_phase \<Rightarrow> bool" where
  "active (Running m) \<longleftrightarrow> True"
| "active (Waiting at) \<longleftrightarrow> True"
| "active Beginning \<longleftrightarrow> True"
| "active Calling \<longleftrightarrow> True"
| "active _ \<longleftrightarrow> False"

fun flying :: "op_phase \<Rightarrow> bool" where
  "flying (Running m) \<longleftrightarrow> True"
| "flying (Waiting at) \<longleftrightarrow> at = At_start"
| "flying Beginning \<longleftrightarrow> True"
| "flying _ \<longleftrightarrow> False"

definition tally :: "(op_phase \<Rightarrow> bool) \<Rightarrow> op_world \<Rightarrow> int" where
  "tally P w = int (length (filter P (ow_ops w)))"

text \<open>
  The counters are the numbers of the operations, nothing runs once the list is blocked, and exactly
  one operation begins the work while the attempt is in query mode without a node.
\<close>

definition op_inv :: "op_world \<Rightarrow> bool" where
  "op_inv w \<longleftrightarrow> (let l = ow_list w in
     ol_count l = tally active w \<and> ol_in_flight l = tally flying w
     \<and> (\<not> ol_allow_ops l \<longrightarrow> ol_count l = 0)
     \<and> (ol_mode l = KV \<longrightarrow> ol_query_node l = [])
     \<and> tally (\<lambda>p. p = Beginning) w = of_bool (ol_mode l = QUERY \<and> ol_query_node l = []))"

lemma tally_set_op:
  "phase w i = Some p \<Longrightarrow> tally P (set_op i p' l w) = tally P w - of_bool (P p) + of_bool (P p')"
  using count_update [of i "ow_ops w" P p']
  by (auto simp: tally_def set_op_def phase_def split: if_splits)

lemma tally_pos: "phase w i = Some p \<Longrightarrow> P p \<Longrightarrow> 0 < tally P w"
  using count_pos [of i "ow_ops w" P] by (auto simp: tally_def phase_def split: if_splits)

lemma tally_nonneg [simp]: "0 \<le> tally P w"
  by (simp add: tally_def)

lemma set_op_list [simp]: "ow_list (set_op i p l w) = l"
  by (simp add: set_op_def)

lemma phase_set_op: "phase (set_op i p l w) j = (if i = j \<and> phase w i \<noteq> None then Some p else phase w j)"
  by (auto simp: phase_def set_op_def)

lemma tally_list [simp]: "tally P (w\<lparr> ow_list := l \<rparr>) = tally P w"
  by (simp add: tally_def)

lemmas list_defs = increment_ops_def decrement_ops_def change_count_def decrement_in_flight_def
  wait_and_block_ops_def get_mode_def await_turn_def await_node_def await_in_flight_def
  reset_query_mode_def set_query_node_def Let_def

lemmas operation_defs = choose_variant_def cache_error_async_def enter_query_mode_def
  query_begin_work_def op_completed_def op_finished_def

lemma op_inv_init: "init_ops w \<Longrightarrow> op_inv w"
  by (auto simp: init_ops_def op_inv_def new_op_list_def tally_def list_all_iff intro!: filter_False)

lemma attempt_mode_not [simp]: "m \<noteq> KV \<longleftrightarrow> m = QUERY" "m \<noteq> QUERY \<longleftrightarrow> m = KV"
  by (cases m; simp)+

lemma op_inv_query_mode:
  assumes "op_inv w" and "phase w i = Some (Waiting at)"
  shows "op_inv (enter_query_mode i at w)"
  using assms tally_pos [OF assms(2), of active] tally_set_op [OF assms(2)]
  by (cases at) (auto simp: op_inv_def enter_query_mode_def list_defs split: if_splits)

lemma op_step_defined_inv:
  assumes "op_inv w" and "op_step w l r"
  shows "\<exists>w'. r = Some w' \<and> op_inv w'"
  using assms(2)
proof (cases rule: op_step.cases)
  case (choose i w')
  then show ?thesis using assms(1) tally_set_op [OF choose(3)]
    by (auto simp: op_inv_def choose_variant_def Let_def split: option.splits)
next
  case (start i m)
  then show ?thesis using assms(1) tally_set_op [OF start(3)]
    by (auto simp: op_inv_def cache_error_async_def list_defs)
next
  case (start_query i)
  then show ?thesis using assms(1) tally_set_op [OF start_query(3)]
    by (auto simp: op_inv_def cache_error_async_def list_defs)
next
  case (query_mode i at)
  then show ?thesis using assms(1) op_inv_query_mode by auto
next
  case (begun i node)
  then show ?thesis using assms(1) tally_set_op [OF begun(3)] tally_pos [OF begun(3), of "\<lambda>p. p = Beginning"]
    by (auto simp: op_inv_def query_begin_work_def list_defs split: if_splits)
next
  case (complete i m)
  then show ?thesis using assms(1) tally_set_op [OF complete(3)] tally_pos [OF complete(3), of flying]
      tally_pos [OF complete(3), of active]
    by (auto simp: op_inv_def op_completed_def list_defs)
next
  case (finish i)
  then show ?thesis using assms(1) tally_set_op [OF finish(3)] tally_pos [OF finish(3), of active]
    by (auto simp: op_inv_def op_finished_def list_defs)
next
  case (block l')
  then show ?thesis using assms(1) by (auto simp: op_inv_def list_defs split: if_splits)
qed

interpretation op_counters: state_invariant init_ops op_steps op_inv
  using op_inv_init op_step_defined_inv by unfold_locales auto

text \<open>
  C34: The counters of the operations of an attempt are right and no assertion of the list fails. In
  every reachable state the count is the number of operations that have started and not finished, the
  flight counter the number of those that have neither completed nor wait for the query mode, and
  whatever is done next has a result.
\<close>

theorem op_list_well_formed:
  assumes "reachable init_ops op_steps w"
  shows "ol_count (ow_list w) = tally active w \<and> ol_in_flight (ow_list w) = tally flying w
    \<and> (\<forall>l r. op_step w l r \<longrightarrow> r \<noteq> None)"
  using op_counters.inv_reachable [OF assms] op_step_defined_inv by (fastforce simp: op_inv_def Let_def)

subsection \<open>The end of the attempt\<close>

lemma tally_0_iff: "tally P w = 0 \<longleftrightarrow> (\<forall>i p. phase w i = Some p \<longrightarrow> \<not> P p)"
  by (simp add: tally_def phase_def filter_empty_conv all_set_conv_all_nth)

definition blocked :: "op_world \<Rightarrow> bool" where
  "blocked w \<longleftrightarrow> op_inv w \<and> \<not> ol_allow_ops (ow_list w)"

lemma blocked_inactive: "blocked w \<Longrightarrow> phase w i = Some p \<Longrightarrow> \<not> active p"
  using tally_0_iff [of active w] by (auto simp: blocked_def op_inv_def Let_def)

lemma blocked_step: "blocked w \<Longrightarrow> op_step w l (Some w') \<Longrightarrow> blocked w'"
proof -
  assume w: "blocked w" and step: "op_step w l (Some w')"
  have "\<not> ol_allow_ops (ow_list w')"
    using step
  proof (cases rule: op_step.cases)
    case (choose i)
    then show ?thesis using w by (auto simp: blocked_def choose_variant_def split: option.splits)
  next
    case (block l')
    then show ?thesis by (auto simp: list_defs split: if_splits)
  qed (use w in \<open>auto simp: blocked_def cache_error_async_def list_defs dest: blocked_inactive [OF w]\<close>)
  then show ?thesis using w op_step_defined_inv [OF _ step] by (auto simp: blocked_def)
qed

interpretation blocked_list: stable_property op_steps blocked
  using blocked_step by unfold_locales

text \<open>
  C15: Once \<^verbatim>\<open>wait_and_block_ops\<close> has returned, so that the attempt commits or rolls back, no
  operation of the attempt runs, then and at any later time.
\<close>

theorem blocked_ops_quiet:
  assumes "reachable init_ops op_steps w" and "wait_and_block_ops (ow_list w) = Some l"
    and "reachable (\<lambda>x. x = w\<lparr> ow_list := l \<rparr>) op_steps w'" and "phase w' i = Some p"
  shows "\<not> active p"
proof -
  have "op_step w Block (Some (w\<lparr> ow_list := l \<rparr>))" using assms(2) by (rule op_step.block)
  then have "op_inv (w\<lparr> ow_list := l \<rparr>)" using op_counters.inv_reachable [OF assms(1)] op_step_defined_inv by blast
  moreover have "\<not> ol_allow_ops l" using assms(2) by (auto simp: list_defs split: if_splits)
  ultimately have "blocked w'" using blocked_list.P_forever [OF _ assms(3)] by (simp add: blocked_def)
  then show ?thesis using blocked_inactive assms(4) by blast
qed

subsection \<open>Query mode\<close>

text \<open>
  An attempt is switched to query mode only when nothing else is in flight: the operation that
  gets to begin the work is at that moment the only one that is running.
\<close>

theorem query_mode_switch_alone:
  assumes "reachable init_ops op_steps w" and "phase w i = Some (Waiting at)"
    and "phase (enter_query_mode i at w) i = Some Beginning"
    and "j \<noteq> i" and "phase w j = Some p"
  shows "\<not> flying p"
proof -
  have inv: "op_inv w" using op_counters.inv_reachable [OF assms(1)] .
  have beg: "fst (set_query_mode at (ow_list w)) = Begin_work"
    using assms(2,3) by (auto simp: enter_query_mode_def phase_set_op split: prod.splits query_next.splits)
  then have "ol_in_flight (ow_list w) = of_bool (at = At_start)"
    by (cases at) (auto simp: list_defs split: if_splits)
  then have "tally flying (set_op i Done (ow_list w) w) = 0"
    using inv tally_set_op [OF assms(2), of flying Done] by (simp add: op_inv_def Let_def)
  moreover have "phase (set_op i Done (ow_list w) w) j = Some p" using assms(4,5) by (simp add: phase_set_op)
  ultimately show ?thesis using tally_0_iff by blast
qed

text \<open>A concrete attempt with a key-value operation and two query statements.\<close>

definition demo_ops :: op_world where
  "demo_ops = \<lparr> ow_list = new_op_list, ow_ops = [Idle, Idle, Idle] \<rparr>"

lemma demo_ops_init: "reachable init_ops op_steps demo_ops"
  by (rule reach_init) (simp add: init_ops_def demo_ops_def)

text \<open>The key-value operation reads the mode, then a query statement starts and begins the work.\<close>

definition demo_begun :: op_world where
  "demo_begun = \<lparr> ow_list = new_op_list\<lparr> ol_count := 1, ol_mode := QUERY, ol_in_flight := 1 \<rparr>,
     ow_ops = [Chosen KV, Beginning, Idle] \<rparr>"

definition demo_asking :: op_world where
  "demo_asking = \<lparr> ow_list = new_op_list\<lparr> ol_count := 1, ol_in_flight := 1 \<rparr>,
     ow_ops = [Chosen KV, Waiting At_start, Idle] \<rparr>"

lemma demo_asking_reachable: "reachable init_ops op_steps demo_asking"
proof -
  let ?w1 = "demo_ops\<lparr> ow_ops := [Chosen KV, Idle, Idle] \<rparr>"
  have "op_step demo_ops (Choose 0) (Some ?w1)"
    by (rule op_step.choose)
      (simp_all add: phase_def demo_ops_def operation_defs list_defs new_op_list_def set_op_def)
  then have "reachable init_ops op_steps ?w1" by (rule reach_step [OF demo_ops_init])
  moreover have "op_step ?w1 (Start_query 1) (Some demo_asking)"
    using op_step.start_query [of ?w1 1]
    by (simp add: phase_def demo_ops_def demo_asking_def operation_defs list_defs new_op_list_def set_op_def)
  ultimately show ?thesis by (rule reach_step)
qed

lemma demo_begun_eq: "enter_query_mode 1 At_start demo_asking = demo_begun"
  by (simp add: demo_asking_def demo_begun_def operation_defs list_defs new_op_list_def set_op_def)

lemma demo_begun_reachable: "reachable init_ops op_steps demo_begun"
proof -
  have "op_step demo_asking (Query_mode 1) (Some (enter_query_mode 1 At_start demo_asking))"
    by (rule op_step.query_mode) (simp add: phase_def demo_asking_def)
  then show ?thesis unfolding demo_begun_eq by (rule reach_step [OF demo_asking_reachable])
qed

text \<open>
  C23: The switch does not keep key-value operations out. An operation reads the mode before it is
  counted: one that has read the key-value mode, while a query statement switches the mode and begins
  the work, starts afterwards and runs in key-value mode beside it.
\<close>

theorem kv_operation_in_query_mode:
  "\<exists>w. reachable init_ops op_steps w \<and> ol_mode (ow_list w) = QUERY
     \<and> phase w 0 = Some (Running KV) \<and> phase w 1 = Some Beginning"
proof -
  have "op_step demo_begun (Start 0) (cache_error_async 0 (Running KV) demo_begun)"
    by (rule op_step.start) (simp add: phase_def demo_begun_def)
  moreover have "cache_error_async 0 (Running KV) demo_begun = Some (set_op 0 (Running KV)
      (ow_list demo_begun\<lparr> ol_count := 2, ol_in_flight := 2 \<rparr>) demo_begun)"
    by (simp add: operation_defs list_defs demo_begun_def new_op_list_def)
  ultimately have "reachable init_ops op_steps (set_op 0 (Running KV)
      (ow_list demo_begun\<lparr> ol_count := 2, ol_in_flight := 2 \<rparr>) demo_begun)"
    using reach_step [OF demo_begun_reachable] by auto
  then show ?thesis
    by (intro exI conjI) (assumption, simp_all add: phase_def set_op_def demo_begun_def new_op_list_def)
qed

text \<open>
  A query statement waits for the node after the beginning of the work has failed, and no statement
  is left that would begin the work again.
\<close>

definition given_up :: "op_phase \<Rightarrow> bool" where
  "given_up p \<longleftrightarrow> p \<noteq> Idle \<and> p \<noteq> Beginning \<and> (\<forall>at. p = Waiting at \<longrightarrow> at = At_node)"

definition stuck_query :: "nat \<Rightarrow> op_world \<Rightarrow> bool" where
  "stuck_query i w \<longleftrightarrow> op_inv w \<and> phase w i = Some (Waiting At_node) \<and> ol_mode (ow_list w) = KV
     \<and> (\<forall>j p. phase w j = Some p \<longrightarrow> given_up p)"

lemma stuck_query_set:
  assumes "stuck_query i w" and "phase w j \<noteq> None" and "given_up p"
    and "j = i \<longrightarrow> p = Waiting At_node" and "ol_mode l = KV" and "op_inv (set_op j p l w)"
  shows "stuck_query i (set_op j p l w)"
  using assms by (auto simp: stuck_query_def phase_set_op)

lemma stuck_query_step:
  assumes stuck: "stuck_query i w" and step: "op_step w l (Some w')"
  shows "stuck_query i w'"
proof -
  have inv: "op_inv w" "op_inv w'" and kv: "ol_mode (ow_list w) = KV" "ol_query_node (ow_list w) = []"
    and i: "phase w i = Some (Waiting At_node)" and all: "\<And>j p. phase w j = Some p \<Longrightarrow> given_up p"
    using stuck op_step_defined_inv [OF _ step] by (auto simp: stuck_query_def op_inv_def Let_def)
  note set = stuck_query_set [OF stuck]
  from step show ?thesis
  proof (cases rule: op_step.cases)
    case (start j m)
    then show ?thesis using inv kv i
      by (auto simp: cache_error_async_def list_defs given_up_def split: if_splits intro!: set)
  next
    case (query_mode j at)
    then have "at = At_node" using all [OF query_mode(3)] by (simp add: given_up_def)
    then show ?thesis using query_mode inv kv
      by (auto simp: enter_query_mode_def list_defs given_up_def intro!: set)
  next
    case (complete j m)
    then show ?thesis using inv kv i
      by (auto simp: op_completed_def list_defs given_up_def split: if_splits intro!: set)
  next
    case (finish j)
    then show ?thesis using inv kv i
      by (auto simp: op_finished_def list_defs given_up_def split: if_splits intro!: set)
  next
    case (block l')
    then show ?thesis using inv tally_pos [OF i, of active]
      by (simp add: list_defs op_inv_def split: if_splits)
  qed (use all in \<open>auto simp: given_up_def\<close>)
qed

interpretation stuck: stable_property op_steps "stuck_query i" for i
  using stuck_query_step by unfold_locales


definition demo_stuck :: op_world where
  "demo_stuck = \<lparr> ow_list = new_op_list\<lparr> ol_count := 2, ol_in_flight := 1 \<rparr>,
     ow_ops = [Chosen KV, Running KV, Waiting At_node] \<rparr>"

lemma demo_stuck_reachable: "reachable init_ops op_steps demo_stuck"
proof -
  let ?l = "new_op_list\<lparr> ol_count := 2, ol_mode := QUERY, ol_in_flight := 2 \<rparr>"
  let ?w1 = "\<lparr> ow_list = ?l, ow_ops = [Chosen KV, Beginning, Waiting At_start] \<rparr>"
  let ?w2 = "\<lparr> ow_list = ?l\<lparr> ol_in_flight := 1 \<rparr>, ow_ops = [Chosen KV, Beginning, Waiting At_node] \<rparr>"
  have "op_step demo_begun (Start_query 2) (Some ?w1)"
    using op_step.start_query [of demo_begun 2]
    by (simp add: phase_def demo_begun_def operation_defs list_defs new_op_list_def set_op_def)
  then have "reachable init_ops op_steps ?w1" by (rule reach_step [OF demo_begun_reachable])
  moreover have "op_step ?w1 (Query_mode 2) (Some ?w2)"
    using op_step.query_mode [of ?w1 2 At_start]
    by (simp add: phase_def operation_defs list_defs new_op_list_def set_op_def)
  ultimately have "reachable init_ops op_steps ?w2" by (rule reach_step)
  moreover have "op_step ?w2 (Begun 1 []) (Some demo_stuck)"
    using op_step.begun [of ?w2 1 "[]"]
    by (simp add: phase_def demo_stuck_def operation_defs list_defs new_op_list_def set_op_def)
  ultimately show ?thesis by (rule reach_step)
qed


theorem op_list_well_formed_witness: "ol_count (ow_list demo_stuck) = tally active demo_stuck"
  using op_list_well_formed [OF demo_stuck_reachable] by blast

theorem query_mode_switch_alone_witness:
  "phase (enter_query_mode 1 At_start demo_asking) 1 = Some Beginning \<and> \<not> flying (Chosen KV)"
proof -
  have p: "phase demo_asking 1 = Some (Waiting At_start)" "phase demo_asking 0 = Some (Chosen KV)"
    "phase (enter_query_mode 1 At_start demo_asking) 1 = Some Beginning"
    unfolding demo_begun_eq by (simp_all add: phase_def demo_asking_def demo_begun_def)
  show ?thesis using query_mode_switch_alone [OF demo_asking_reachable p(1,3) _ p(2)] p(3) by simp
qed

theorem blocked_ops_quiet_witness:
  "\<exists>l. wait_and_block_ops (ow_list demo_ops) = Some l \<and> \<not> active Idle"
proof -
  let ?l = "new_op_list\<lparr> ol_allow_ops := False \<rparr>"
  have l: "wait_and_block_ops (ow_list demo_ops) = Some ?l"
    by (simp add: demo_ops_def list_defs new_op_list_def)
  have "reachable (\<lambda>x. x = demo_ops\<lparr> ow_list := ?l \<rparr>) op_steps (demo_ops\<lparr> ow_list := ?l \<rparr>)"
    by (rule reach_init) simp
  then show ?thesis using l blocked_ops_quiet [OF demo_ops_init l, of _ 0 Idle]
    by (simp add: phase_def demo_ops_def)
qed

end
