(* ===== verification/Spec2Isabelle.thy ===== *)
theory Spec2Isabelle
  imports Mcbp_Roundtrip Operation_Queue Mcbp_Parser Bucket Sasl Commit_Liveness Txn_Program Op_List
begin

text \<open>
  A verification library for the Couchbase C++ client.

  \<^bold>\<open>The program.\<close> The client talks to a cluster of servers. A key-value request is encoded as a
  packet, routed by the hash of its key to the node that holds the partition, written to the session
  of that node and answered by a packet that is found in the stream of the session. Requests are
  retried by a strategy, queued while no session is ready, and complete by exactly one call of their
  callback. Configurations of the cluster arrive on the same sessions and move the sessions to other
  nodes. Sub-document requests address paths inside a document. Distributed transactions are built on
  sub-document requests: an attempt stages its mutations in the extended attributes of the documents,
  commits by one mutation of its entry in a transaction record, and then writes the staged contents
  into the documents; a run repeats attempts until one is committed or the transaction fails.

  \<^bold>\<open>Shared theories.\<close>

  \<^item> \<open>Prelude\<close>: the machine types, memory accesses, shared lemmas. An execution that ends the process
    or has undefined behaviour is \<open>None\<close>; an error that the code reports is a value (\<open>Inl\<close>).
  \<^item> \<open>Wire\<close>, \<open>Streaming\<close>, \<open>Transition\<close>, \<open>Ordered_Map\<close>: the interfaces of the library, as
    locales: fields of a message, self-delimiting codes, parsers of a stream that arrives in chunks,
    invariants of a step relation, \<^verbatim>\<open>std::map\<close>. The components interpret them on their definitions.
  \<^item> \<open>Std_String\<close>: conversions of the C++ standard library between integers and strings.

  \<^bold>\<open>The key-value protocol.\<close>

  \<^item> \<open>Big_Endian\<close>, \<open>Leb128\<close>, \<open>Crc32\<close>, \<open>Base64\<close>: the byte-level codes (\<^verbatim>\<open>core/mcbp/big_endian.cxx\<close>,
    \<^verbatim>\<open>core/utils/unsigned_leb128.hxx\<close>, \<^verbatim>\<open>core/utils/crc32.hxx\<close>, \<^verbatim>\<open>core/platform/base64.cc\<close>), each
    with its round trip or with its equality to a reference.
  \<^item> \<open>Errors\<close>, \<open>Protocol\<close>: the error codes (\<^verbatim>\<open>couchbase/error_codes.hxx\<close>), the enumerations of
    \<^verbatim>\<open>core/protocol\<close> and the mapping of statuses.
  \<^item> \<open>Mcbp_Codec\<close>, \<open>Mcbp_Roundtrip\<close>: the packet codec (\<^verbatim>\<open>core/mcbp/codec.cxx\<close>). The encoder never
    writes outside its buffer; a well-formed packet is decoded to itself whatever follows it.
  \<^item> \<open>Mcbp_Parser\<close>: the framing of the stream (\<^verbatim>\<open>core/io/mcbp_parser.cxx\<close>). The messages do not depend
    on how the stream was cut into reads.
  \<^item> \<open>Document_Id\<close>, \<open>Subdoc\<close>: the key on the wire and the sub-document requests
    (\<^verbatim>\<open>core/document_id.cxx\<close>, \<^verbatim>\<open>core/operations/document_mutate_in.cxx\<close>,
    \<^verbatim>\<open>document_lookup_in.cxx\<close>, \<^verbatim>\<open>core/impl/subdoc\<close>). The body decodes to the specs, and the
    answers come back in the order of the caller.
  \<^item> \<open>Sasl\<close>: authentication (\<^verbatim>\<open>core/sasl\<close>). A server that knows the password accepts the proof of the
    client, and the client accepts a final message only with the signature that it computed itself,
    unless the server ends the exchange early.

  \<^bold>\<open>Routing, queues and retries.\<close>

  \<^item> \<open>Retry\<close>: strategies and orchestrators (\<^verbatim>\<open>core/retry_orchestrator.cxx\<close>,
    \<^verbatim>\<open>core/io/retry_orchestrator.hxx\<close>). A request that is not idempotent is repeated only for reasons
    that allow it.
  \<^item> \<open>Operation_Queue\<close>: requests, their queue and the operations of a session
    (\<^verbatim>\<open>core/mcbp/operation_queue.cxx\<close>, \<^verbatim>\<open>core/mcbp/queue_request.cxx\<close>). In every reachable state a
    callback was called at most once.
  \<^item> \<open>Topology\<close>, \<open>Bucket\<close>: configurations, the map from keys to nodes, and the sessions of a bucket
    (\<^verbatim>\<open>core/topology/configuration.cxx\<close>, \<^verbatim>\<open>core/bucket.cxx\<close>). The accepted configuration only gets
    newer, and after an update every session serves the node at its index.

  \<^bold>\<open>Transactions\<close> (\<^verbatim>\<open>core/transactions\<close>).

  \<^item> \<open>Txn_Errors\<close>: error classes, exceptions and how the errors of an attempt are merged.
  \<^item> \<open>Staged_Mutations\<close>: the queue of staged mutations, which implements a map from documents.
  \<^item> \<open>Unstaging\<close>: writing or undoing the staged mutations, as interleaved operations. A commit without
    an exception is complete; after the commit no error lets the transaction be rolled back.
  \<^item> \<open>Attempt\<close>, \<open>Commit_Liveness\<close>: commit and rollback of an attempt. Documents change only after the
    commit point; the retries of the commit end when the transaction expires.
  \<^item> \<open>Txn_Run\<close>: the run. It joins the theories above: an attempt that was shown to be committed is not
    rolled back, not repeated and not reported as failed, whatever the application does within a
    contract.
  \<^item> \<open>Op_List\<close>: the list that orders the operations of an attempt, their end and the switch to the query
    mode (\<^verbatim>\<open>waitable_op_list.hxx\<close>), as steps of threads.
  \<^item> \<open>Forward_Compat\<close>, \<open>Txn_Doc\<close>: what other clients demand (\<^verbatim>\<open>forward_compat.cxx\<close>), and what an
    attempt reads from and writes to a document and a record (\<^verbatim>\<open>transaction_get_result.cxx\<close>,
    \<^verbatim>\<open>active_transaction_record.cxx\<close>).
  \<^item> \<open>Staging\<close>: the operations get, insert, replace and remove (\<^verbatim>\<open>attempt_context_impl.cxx\<close>).
    \<open>Stage_Safety\<close> is a calculus of weakest preconditions for them, and the invariant that every
    operation keeps: documents are staged after the attempt is in its record, and the queue holds what
    the server has.
  \<^item> \<open>Txn_Program\<close>: applications as programs of operations. They meet the contract of \<open>Txn_Run\<close>, so that
    its theorems hold of whole transactions.

  \<^bold>\<open>How state is modelled.\<close> The state of a component is a record, an operation a function from the state
  to a result and the new state. Where threads or closures interleave (\<open>Operation_Queue\<close>, \<open>Bucket\<close>,
  \<open>Unstaging\<close>), an operation that runs under its lock is one step of a labelled relation, and the
  invariants hold in every reachable state. What the environment decides (the clock, answers of the
  server, testing hooks, the interleaving) is a label of the step or is read from an environment that
  is an argument.

  \<^bold>\<open>Bounds and fuel.\<close> Loops over data are structural or have a measure. The retry loop \<open>retry_op\<close> may run
  for ever and is a partial function; \<open>Commit_Liveness\<close> proves that it returns. The other retry loops
  have the bounds of the source (101 rounds of \<^verbatim>\<open>retry_op_exp\<close>, 1000 attempts of a run). Of the
  loops of the operations, those with a delay end by the count of its retries; entering the attempt in
  its record and reading a document may be repeated for ever and are partial (\<open>round_loop\<close>).

  \<^bold>\<open>Not modelled.\<close> Sockets, TLS, timers and threads as such; logging, tracing and metrics; JSON, Snappy,
  the cryptographic primitives and floating-point functions, which are libraries and appear as
  parameters. The HTTP services (query, analytics, search, views, management), the columnar client,
  application telemetry, DNS and the option builders of the public interface mostly translate between
  structures and JSON text. Of transactions, the operations in the query mode, the reads from replicas
  and of many documents at once, and the cleanup of lost attempts are not modelled.
\<close>

end
